(* ===== verification/GoValue.thy ===== *)
theory GoValue
  imports Prelude
begin

text \<open>
  The dynamic values (\<open>any\<close>) that the framework stores in documents, passes to tools and reads
  from JSON, and their \<open>%v\<close> rendering. A float64 is its shortest decimal \<open>m * 10 ^ e\<close>; a
  \<open>time.Time\<close> is its distance in nanoseconds from the zero time, and its rendering, which
  depends on the process' time zone and monotonic clock, is an argument.
\<close>

datatype val =
    VNil
  | VStr string
  | VInt int
  | VInt64 int
  | VFloat int int
  | VBool bool
  | VTime int
  | VMap "(string \<times> val) list"
  | VList "val list"
  | VStrs "string list"

type_synonym row = "(string \<times> val) list"

definition exp_suffix :: "int \<Rightarrow> string" where
  "exp_suffix x =
     (let d = itoa \<bar>x\<bar> in
      CHR ''e'' # (if x < 0 then CHR ''-'' else CHR ''+'') # (if length d < 2 then CHR ''0'' # d else d))"

text \<open>\<open>strconv.FormatFloat(f, 'g', -1, 64)\<close>: exponents below -4 or from 6 on use \<open>%e\<close>.\<close>

definition fmt_float :: "int \<Rightarrow> int \<Rightarrow> string" where
  "fmt_float m e =
     (if m = 0 then ''0''
      else let ds = itoa \<bar>m\<bar>; nd = int (length ds); dp = nd + e; x = dp - 1;
               sign = (if m < 0 then ''-'' else []);
               ndot = nat dp
           in sign @
              (if x < -4 \<or> 6 \<le> x
               then [hd ds] @ (if nd = 1 then [] else CHR ''.'' # tl ds) @ exp_suffix x
               else if dp \<le> 0 then ''0.'' @ replicate (nat (- dp)) (CHR ''0'') @ ds
               else if nd \<le> dp then ds @ replicate (nat (dp - nd)) (CHR ''0'')
               else take ndot ds @ CHR ''.'' # drop ndot ds))"

text \<open>\<open>fmt.Sprintf("%v", v)\<close>; maps are printed in key order.\<close>

fun fmt_v :: "(int \<Rightarrow> string) \<Rightarrow> val \<Rightarrow> string"
  and fmt_vs :: "(int \<Rightarrow> string) \<Rightarrow> val list \<Rightarrow> string list"
  and fmt_kvs :: "(int \<Rightarrow> string) \<Rightarrow> (string \<times> val) list \<Rightarrow> (string \<times> string) list" where
  "fmt_v ft VNil = ''<nil>''"
| "fmt_v ft (VStr s) = s"
| "fmt_v ft (VInt i) = itoa i"
| "fmt_v ft (VInt64 i) = itoa i"
| "fmt_v ft (VFloat m e) = fmt_float m e"
| "fmt_v ft (VBool b) = (if b then ''true'' else ''false'')"
| "fmt_v ft (VTime t) = ft t"
| "fmt_v ft (VMap kvs) =
     ''map['' @ join_with '' '' (map (\<lambda>(k, s). k @ '':'' @ s) (sort_key fst (fmt_kvs ft kvs))) @ '']''"
| "fmt_v ft (VList vs) = ''['' @ join_with '' '' (fmt_vs ft vs) @ '']''"
| "fmt_v ft (VStrs ss) = ''['' @ join_with '' '' ss @ '']''"
| "fmt_vs ft [] = []"
| "fmt_vs ft (v # vs) = fmt_v ft v # fmt_vs ft vs"
| "fmt_kvs ft [] = []"
| "fmt_kvs ft ((k, v) # kvs) = (k, fmt_v ft v) # fmt_kvs ft kvs"

text \<open>
  \<open>json.Marshal\<close>: strings escape quotes, backslashes, control characters and the HTML characters,
  object keys are sorted, floats switch to exponents below 1e-6 and from 1e21 on. The argument
  renders times (RFC 3339, in the time's zone).
\<close>

definition json_char :: "char \<Rightarrow> string" where
  "json_char c =
     (let n = (of_char c :: nat); bs = CHR 0x5C in
      if n = 34 then [bs, CHR 0x22] else if n = 92 then [bs, bs]
      else if n = 8 then [bs, CHR ''b''] else if n = 12 then [bs, CHR ''f'']
      else if n = 10 then [bs, CHR ''n''] else if n = 13 then [bs, CHR ''r'']
      else if n = 9 then [bs, CHR ''t'']
      else if n < 32 \<or> n = 60 \<or> n = 62 \<or> n = 38
        then [bs, CHR ''u'', CHR ''0'', CHR ''0'', hex_digit (n div 16), hex_digit (n mod 16)]
      else [c])"

definition json_str :: "string \<Rightarrow> string" where
  "json_str s = CHR 0x22 # concat (map json_char s) @ [CHR 0x22]"

definition json_float :: "int \<Rightarrow> int \<Rightarrow> string" where
  "json_float m e =
     (if m = 0 then ''0''
      else let ds = itoa \<bar>m\<bar>; nd = int (length ds); dp = nd + e; x = dp - 1;
               sign = (if m < 0 then ''-'' else [])
           in sign @
              (if x < -6 \<or> 21 \<le> x
               then [hd ds] @ (if nd = 1 then [] else CHR ''.'' # tl ds) @
                    CHR ''e'' # (if x < 0 then CHR ''-'' else CHR ''+'') # itoa \<bar>x\<bar>
               else if dp \<le> 0 then ''0.'' @ replicate (nat (- dp)) (CHR ''0'') @ ds
               else if nd \<le> dp then ds @ replicate (nat (dp - nd)) (CHR ''0'')
               else take (nat dp) ds @ CHR ''.'' # drop (nat dp) ds))"

fun json_encode :: "(int \<Rightarrow> string) \<Rightarrow> val \<Rightarrow> string"
  and json_encodes :: "(int \<Rightarrow> string) \<Rightarrow> val list \<Rightarrow> string list"
  and json_encode_kvs :: "(int \<Rightarrow> string) \<Rightarrow> (string \<times> val) list \<Rightarrow> (string \<times> string) list" where
  "json_encode jt VNil = ''null''"
| "json_encode jt (VStr s) = json_str s"
| "json_encode jt (VInt i) = itoa i"
| "json_encode jt (VInt64 i) = itoa i"
| "json_encode jt (VFloat m e) = json_float m e"
| "json_encode jt (VBool b) = (if b then ''true'' else ''false'')"
| "json_encode jt (VTime t) = json_str (jt t)"
| "json_encode jt (VMap kvs) =
     ''{'' @ join_with '','' (map (\<lambda>(k, s). json_str k @ '':'' @ s) (sort_key fst (json_encode_kvs jt kvs))) @ ''}''"
| "json_encode jt (VList vs) = ''['' @ join_with '','' (json_encodes jt vs) @ '']''"
| "json_encode jt (VStrs ss) = ''['' @ join_with '','' (map json_str ss) @ '']''"
| "json_encodes jt [] = []"
| "json_encodes jt (v # vs) = json_encode jt v # json_encodes jt vs"
| "json_encode_kvs jt [] = []"
| "json_encode_kvs jt ((k, v) # kvs) = (k, json_encode jt v) # json_encode_kvs jt kvs"

text \<open>A struct is rendered as its members in declaration order.\<close>

definition json_fields :: "(string \<times> string) list \<Rightarrow> string" where
  "json_fields kvs = ''{'' @ join_with '','' (map (\<lambda>(k, v). json_str k @ '':'' @ v) kvs) @ ''}''"

text \<open>The two-result type assertion \<open>s, _ := m[k].(string)\<close> and its kin.\<close>

definition str_of :: "val option \<Rightarrow> string" where
  "str_of x = (case x of Some (VStr s) \<Rightarrow> s | _ \<Rightarrow> [])"

definition get_or_nil :: "row \<Rightarrow> string \<Rightarrow> val" where
  "get_or_nil m k = (case map_of m k of None \<Rightarrow> VNil | Some v \<Rightarrow> v)"

lemma str_of_simps [simp]:
  "str_of None = []" "str_of (Some (VStr s)) = s" "str_of (Some VNil) = []"
  by (simp_all add: str_of_def)

lemma get_or_nil_in: "wf_map m \<Longrightarrow> (k, v) \<in> set m \<Longrightarrow> get_or_nil m k = v"
  by (simp add: get_or_nil_def wf_map_def)

lemma get_or_nil_notin: "k \<notin> fst ` set m \<Longrightarrow> get_or_nil m k = VNil"
  by (simp add: get_or_nil_def image_iff split: option.splits) (metis fst_conv map_of_SomeD)

end
