(* ===== verification/Cache.thy ===== *)
theory Cache
  imports GoValue
begin

text \<open>
  The in-process LRU cache (\<open>cache/cache.go\<close>): a map from keys to list nodes and the list of nodes in
  order of recency, with lazy expiry. It implements a plain list of entries, most recent first, and
  with it the contract that the users of a store rely on.
\<close>

record cache_entry =
  ce_value :: string
  ce_expires :: int

text \<open>
  \<open>l_nodes\<close> is the heap of list nodes, \<open>l_order\<close> the linked list of node ids, front first; \<open>l_next\<close>
  is the next unused id. Times are nanoseconds, zero for no expiry.
\<close>

record lru_store =
  l_max :: nat
  l_items :: "(string \<times> nat) list"
  l_order :: "nat list"
  l_nodes :: "(nat \<times> (string \<times> cache_entry)) list"
  l_next :: nat

definition new_lru_store :: "int \<Rightarrow> lru_store" where
  "new_lru_store n =
     \<lparr>l_max = (if n \<le> 0 then 1024 else nat n), l_items = [], l_order = [], l_nodes = [], l_next = 0\<rparr>"

definition node :: "lru_store \<Rightarrow> nat \<Rightarrow> string \<times> cache_entry" where
  "node s n = (case map_of (l_nodes s) n of Some x \<Rightarrow> x | None \<Rightarrow> ([], \<lparr>ce_value = [], ce_expires = 0\<rparr>))"

definition entry_expired :: "int \<Rightarrow> cache_entry \<Rightarrow> bool" where
  "entry_expired now e \<longleftrightarrow> ce_expires e \<noteq> 0 \<and> ce_expires e < now"

definition lru_expired :: "int \<Rightarrow> lru_store \<Rightarrow> nat \<Rightarrow> bool" where
  "lru_expired now s n = entry_expired now (snd (node s n))"

definition remove_element :: "nat \<Rightarrow> lru_store \<Rightarrow> lru_store" where
  "remove_element n s =
     s\<lparr>l_items := AList.delete (fst (node s n)) (l_items s), l_order := remove1 n (l_order s)\<rparr>"

definition move_to_front :: "nat \<Rightarrow> lru_store \<Rightarrow> lru_store" where
  "move_to_front n s = s\<lparr>l_order := n # remove1 n (l_order s)\<rparr>"

definition evict_lru :: "lru_store \<Rightarrow> lru_store" where
  "evict_lru s = (if l_order s = [] then s else remove_element (last (l_order s)) s)"

definition lru_get :: "int \<Rightarrow> string \<Rightarrow> lru_store \<Rightarrow> string option \<times> lru_store" where
  "lru_get now k s =
     (case map_of (l_items s) k of
        None \<Rightarrow> (None, s)
      | Some n \<Rightarrow>
          if lru_expired now s n then (None, remove_element n s)
          else (Some (ce_value (snd (node s n))), move_to_front n s))"

definition expiry :: "int \<Rightarrow> int \<Rightarrow> int" where
  "expiry now ttl = (if 0 < ttl then now + ttl else 0)"

definition push_front :: "string \<Rightarrow> cache_entry \<Rightarrow> lru_store \<Rightarrow> lru_store" where
  "push_front k e s =
     (let n = l_next s
      in s\<lparr>l_items := AList.update k n (l_items s), l_order := n # l_order s,
           l_nodes := AList.update n (k, e) (l_nodes s), l_next := Suc n\<rparr>)"

definition lru_set :: "int \<Rightarrow> string \<Rightarrow> string \<Rightarrow> int \<Rightarrow> lru_store \<Rightarrow> lru_store" where
  "lru_set now k v ttl s =
     (let e = \<lparr>ce_value = v, ce_expires = expiry now ttl\<rparr> in
      case map_of (l_items s) k of
        Some n \<Rightarrow> move_to_front n (s\<lparr>l_nodes := AList.update n (fst (node s n), e) (l_nodes s)\<rparr>)
      | None \<Rightarrow>
          push_front k e (if l_max s \<le> length (l_items s) then evict_lru s else s))"

definition lru_delete :: "string \<Rightarrow> lru_store \<Rightarrow> lru_store" where
  "lru_delete k s = (case map_of (l_items s) k of None \<Rightarrow> s | Some n \<Rightarrow> remove_element n s)"

section \<open>The abstract cache\<close>

text \<open>What a cache is: entries under distinct keys, most recently used first, at most \<open>m\<close> of them.\<close>

type_synonym abs_cache = "(string \<times> cache_entry) list"

definition without :: "string \<Rightarrow> abs_cache \<Rightarrow> abs_cache" where
  "without k c = filter (\<lambda>p. fst p \<noteq> k) c"

definition abs_get :: "int \<Rightarrow> string \<Rightarrow> abs_cache \<Rightarrow> string option \<times> abs_cache" where
  "abs_get now k c =
     (case map_of c k of
        None \<Rightarrow> (None, c)
      | Some e \<Rightarrow> if entry_expired now e then (None, without k c)
                  else (Some (ce_value e), (k, e) # without k c))"

definition abs_set :: "nat \<Rightarrow> int \<Rightarrow> string \<Rightarrow> string \<Rightarrow> int \<Rightarrow> abs_cache \<Rightarrow> abs_cache" where
  "abs_set m now k v ttl c =
     (let e = \<lparr>ce_value = v, ce_expires = expiry now ttl\<rparr> in
      if map_of c k \<noteq> None then (k, e) # without k c
      else (k, e) # (if m \<le> length c then butlast c else c))"

section \<open>Representation\<close>

text \<open>
  The linked list and the map describe the same nodes: node ids are distinct, used ones are below
  \<open>l_next\<close>, keys are distinct, and the map holds exactly the pairs of key and node of the list.
\<close>

definition node_key :: "lru_store \<Rightarrow> nat \<Rightarrow> string" where
  "node_key s n = fst (node s n)"

definition lru_ok :: "lru_store \<Rightarrow> bool" where
  "lru_ok s \<longleftrightarrow>
     0 < l_max s \<and> length (l_order s) \<le> l_max s \<and> distinct (l_order s) \<and>
     distinct (map (node_key s) (l_order s)) \<and> (\<forall>n \<in> set (l_order s). n < l_next s) \<and>
     wf_map (l_items s) \<and> set (l_items s) = (\<lambda>n. (node_key s n, n)) ` set (l_order s)"

definition lru_abs :: "lru_store \<Rightarrow> abs_cache" where
  "lru_abs s = map (node s) (l_order s)"

lemma lru_ok_new: "lru_ok (new_lru_store n)"
  by (simp add: lru_ok_def new_lru_store_def wf_map_def)

lemma lru_items_iff:
  "lru_ok s \<Longrightarrow> map_of (l_items s) k = Some n \<longleftrightarrow> n \<in> set (l_order s) \<and> node_key s n = k"
  by (auto simp: lru_ok_def wf_map_def)

lemma lru_keys_inj:
  "lru_ok s \<Longrightarrow> m \<in> set (l_order s) \<Longrightarrow> n \<in> set (l_order s) \<Longrightarrow> node_key s m = node_key s n \<Longrightarrow> m = n"
  by (auto simp: lru_ok_def distinct_map inj_on_def)

lemma lru_abs_keys: "map fst (lru_abs s) = map (node_key s) (l_order s)"
  by (simp add: lru_abs_def node_key_def o_def)

lemma lru_abs_distinct: "lru_ok s \<Longrightarrow> distinct (map fst (lru_abs s))"
  by (simp add: lru_abs_keys lru_ok_def)

lemma lru_abs_lookup:
  assumes "lru_ok s"
  shows "map_of (lru_abs s) k = map_option (\<lambda>n. snd (node s n)) (map_of (l_items s) k)"
proof (cases "map_of (l_items s) k")
  case None
  have "k \<notin> node_key s ` set (l_order s)"
  proof
    assume "k \<in> node_key s ` set (l_order s)"
    then obtain n where "n \<in> set (l_order s)" "node_key s n = k" by blast
    then have "map_of (l_items s) k = Some n" using lru_items_iff [OF assms] by blast
    with None show False by simp
  qed
  then have "k \<notin> set (map fst (lru_abs s))" by (simp only: lru_abs_keys set_map) blast
  then have "map_of (lru_abs s) k = None" by (simp only: map_of_eq_None_iff set_map not_False_eq_True)
  then show ?thesis using None by simp
next
  case (Some n)
  then have n: "n \<in> set (l_order s)" "node_key s n = k" using lru_items_iff [OF assms] by blast+
  then have "node s n = (k, snd (node s n))" by (simp add: node_key_def prod_eq_iff)
  then have "(k, snd (node s n)) \<in> set (lru_abs s)"
    using n(1) unfolding lru_abs_def set_map by (metis imageI)
  with Some show ?thesis using lru_abs_distinct [OF assms] by simp
qed

lemma lru_items_length: "lru_ok s \<Longrightarrow> length (l_items s) = length (l_order s)"
proof -
  assume a: "lru_ok s"
  then have "distinct (l_items s)" by (auto simp: lru_ok_def wf_map_def distinct_map)
  then have "length (l_items s) = card (set (l_items s))" by (simp add: distinct_card)
  also have "\<dots> = card (set (l_order s))"
    using a by (simp add: lru_ok_def card_image inj_on_def)
  also have "\<dots> = length (l_order s)" using a by (simp add: lru_ok_def distinct_card)
  finally show ?thesis .
qed

text \<open>Unlinking a node removes its key.\<close>

lemma abs_without:
  assumes "lru_ok s" and "n \<in> set (l_order s)"
  shows "map (node s) (remove1 n (l_order s)) = without (node_key s n) (lru_abs s)"
proof -
  have "remove1 n (l_order s) = filter (\<lambda>m. m \<noteq> n) (l_order s)"
    using assms(1) by (auto simp: lru_ok_def distinct_remove1_removeAll removeAll_filter_not_eq
        intro: filter_cong)
  also have "\<dots> = filter (\<lambda>m. node_key s m \<noteq> node_key s n) (l_order s)"
    using lru_keys_inj [OF assms(1) _ assms(2)] by (auto intro: filter_cong)
  finally show ?thesis
    by (simp add: without_def lru_abs_def filter_map o_def node_key_def)
qed

lemma node_remove [simp]:
  "node (remove_element n s) = node s" "node_key (remove_element n s) = node_key s"
  by (simp_all add: fun_eq_iff node_key_def node_def remove_element_def)

lemma node_move [simp]:
  "node (move_to_front n s) = node s" "node_key (move_to_front n s) = node_key s"
  by (simp_all add: fun_eq_iff node_key_def node_def move_to_front_def)

lemma remove_fields [simp]:
  "l_max (remove_element n s) = l_max s" "l_next (remove_element n s) = l_next s"
  "l_order (remove_element n s) = remove1 n (l_order s)"
  "l_items (remove_element n s) = AList.delete (node_key s n) (l_items s)"
  by (simp_all add: remove_element_def node_key_def)

lemma move_fields [simp]:
  "l_max (move_to_front n s) = l_max s" "l_next (move_to_front n s) = l_next s"
  "l_order (move_to_front n s) = n # remove1 n (l_order s)"
  "l_items (move_to_front n s) = l_items s"
  by (simp_all add: move_to_front_def)

lemma remove_element_abs:
  "lru_ok s \<Longrightarrow> n \<in> set (l_order s) \<Longrightarrow> lru_abs (remove_element n s) = without (node_key s n) (lru_abs s)"
  using abs_without by (simp add: lru_abs_def)

lemma remove_element_ok:
  assumes "lru_ok s" and "n \<in> set (l_order s)"
  shows "lru_ok (remove_element n s)"
proof -
  have "set (AList.delete (node_key s n) (l_items s)) =
      (\<lambda>m. (node_key s m, m)) ` (set (l_order s) - {n})"
  proof -
    have items: "set (l_items s) = (\<lambda>m. (node_key s m, m)) ` set (l_order s)"
      using assms(1) by (simp add: lru_ok_def)
    have key: "m \<in> set (l_order s) \<Longrightarrow> (node_key s m = node_key s n) = (m = n)" for m
      using lru_keys_inj [OF assms(1) _ assms(2)] by blast
    have "set (AList.delete (node_key s n) (l_items s)) = {p \<in> set (l_items s). fst p \<noteq> node_key s n}"
      by (auto simp: AList.delete_eq)
    then show ?thesis unfolding items using key by auto
  qed
  moreover have "distinct (map (node_key s) (remove1 n (l_order s)))"
    using assms(1) by (auto simp: lru_ok_def distinct_map inj_on_def dest: notin_set_remove1)
  ultimately show ?thesis
    using assms(1) by (auto simp: lru_ok_def wf_map_delete length_remove1)
qed

lemma move_to_front_abs:
  "lru_ok s \<Longrightarrow> n \<in> set (l_order s) \<Longrightarrow>
     lru_abs (move_to_front n s) = node s n # without (node_key s n) (lru_abs s)"
  using abs_without by (simp add: lru_abs_def)

lemma move_to_front_ok:
  assumes "lru_ok s" and "n \<in> set (l_order s)"
  shows "lru_ok (move_to_front n s)"
proof -
  have "distinct (map (node_key s) (n # remove1 n (l_order s)))"
    using assms by (auto simp: lru_ok_def distinct_map inj_on_def dest: notin_set_remove1)
  moreover have "set (n # remove1 n (l_order s)) = set (l_order s)"
    using assms by (auto simp: lru_ok_def)
  moreover have "length (n # remove1 n (l_order s)) = length (l_order s)"
    using assms(2) by (simp add: length_remove1) (metis One_nat_def Suc_pred length_pos_if_in_set)
  ultimately show ?thesis
    using assms(1) unfolding lru_ok_def by (simp only: move_fields node_move) auto
qed

lemma evict_lru_ok:
  assumes "lru_ok s" shows "lru_ok (evict_lru s)"
  using assms by (simp add: evict_lru_def remove_element_ok)

lemma remove1_last: "distinct xs \<Longrightarrow> xs \<noteq> [] \<Longrightarrow> remove1 (last xs) xs = butlast xs"
  by (induction xs) auto

lemma evict_lru_abs:
  assumes "lru_ok s" shows "lru_abs (evict_lru s) = butlast (lru_abs s)"
  using assms by (simp add: evict_lru_def lru_abs_def lru_ok_def remove1_last map_butlast)

section \<open>Refinement\<close>

lemma lru_get_refines:
  assumes "lru_ok s"
  shows "fst (lru_get now k s) = fst (abs_get now k (lru_abs s)) \<and>
    lru_abs (snd (lru_get now k s)) = snd (abs_get now k (lru_abs s)) \<and> lru_ok (snd (lru_get now k s))"
proof (cases "map_of (l_items s) k")
  case None
  then show ?thesis using assms by (simp add: lru_get_def abs_get_def lru_abs_lookup)
next
  case (Some n)
  then have n: "n \<in> set (l_order s)" "node_key s n = k" using lru_items_iff [OF assms] by blast+
  then have "node s n = (k, snd (node s n))" by (simp add: node_key_def prod_eq_iff)
  then show ?thesis
    using Some assms n remove_element_ok [OF assms n(1)] move_to_front_ok [OF assms n(1)]
    by (simp add: lru_get_def abs_get_def lru_abs_lookup lru_expired_def remove_element_abs move_to_front_abs)
qed

lemma lru_delete_refines:
  assumes "lru_ok s"
  shows "lru_abs (lru_delete k s) = without k (lru_abs s) \<and> lru_ok (lru_delete k s)"
proof (cases "map_of (l_items s) k")
  case None
  then have "map_of (lru_abs s) k = None" using assms by (simp add: lru_abs_lookup)
  then have "without k (lru_abs s) = lru_abs s"
    by (auto simp: without_def map_of_eq_None_iff filter_id_conv)
  then show ?thesis using None assms by (simp add: lru_delete_def)
next
  case (Some n)
  then have n: "n \<in> set (l_order s)" "node_key s n = k" using lru_items_iff [OF assms] by blast+
  then show ?thesis
    using Some assms by (simp add: lru_delete_def remove_element_abs remove_element_ok)
qed

text \<open>Overwriting the entry of a node and adding a new node in front.\<close>

definition put_node :: "nat \<Rightarrow> string \<times> cache_entry \<Rightarrow> lru_store \<Rightarrow> lru_store" where
  "put_node n x s = s\<lparr>l_nodes := AList.update n x (l_nodes s)\<rparr>"

lemma node_put [simp]: "node (put_node n x s) = (node s)(n := x)"
  by (rule ext) (simp add: node_def put_node_def map_of_update)

lemma node_key_put [simp]: "node_key (put_node n x s) = (node_key s)(n := fst x)"
  by (rule ext) (simp add: node_key_def)

lemma put_node_fields [simp]:
  "l_max (put_node n x s) = l_max s" "l_next (put_node n x s) = l_next s"
  "l_order (put_node n x s) = l_order s" "l_items (put_node n x s) = l_items s"
  by (simp_all add: put_node_def)

lemma put_same_key:
  assumes "lru_ok s" and "n \<in> set (l_order s)" and "fst x = node_key s n"
  shows "lru_ok (put_node n x s)"
    and "without (node_key s n) (lru_abs (put_node n x s)) = without (node_key s n) (lru_abs s)"
proof -
  have k: "(node_key s)(n := fst x) = node_key s" using assms(3) by (simp add: fun_eq_iff)
  then show "lru_ok (put_node n x s)" using assms(1) by (simp add: lru_ok_def)
  have key: "node_key s m = node_key s n \<longleftrightarrow> m = n" if "m \<in> set (l_order s)" for m
    using lru_keys_inj [OF assms(1) that assms(2)] by blast
  have "map ((node s)(n := x)) (remove1 n (l_order s)) = map (node s) (remove1 n (l_order s))"
    using assms(1) by (auto simp: lru_ok_def)
  moreover have "map ((node s)(n := x)) (remove1 n (l_order s)) = without (node_key s n) (lru_abs (put_node n x s))"
    using abs_without [of "put_node n x s" n] \<open>lru_ok (put_node n x s)\<close> assms k by simp
  ultimately show "without (node_key s n) (lru_abs (put_node n x s)) = without (node_key s n) (lru_abs s)"
    using abs_without [OF assms(1,2)] by simp
qed

lemma push_fields [simp]:
  "l_order (push_front k e s) = l_next s # l_order s" "l_max (push_front k e s) = l_max s"
  "l_next (push_front k e s) = Suc (l_next s)"
  by (simp_all add: push_front_def Let_def)

lemma push_front_ok:
  assumes "lru_ok s" and "length (l_order s) < l_max s" and "map_of (l_items s) k = None"
  shows "lru_ok (push_front k e s)" and "lru_abs (push_front k e s) = (k, e) # lru_abs s"
proof -
  let ?s = "push_front k e s"
  have fresh: "l_next s \<notin> set (l_order s)" using assms(1) by (auto simp: lru_ok_def)
  have nd: "node ?s = (node s)(l_next s := (k, e))"
    by (rule ext) (simp add: push_front_def Let_def node_def map_of_update)
  then have nk: "node_key ?s = (node_key s)(l_next s := k)" by (simp add: node_key_def fun_eq_iff)
  have knew: "k \<notin> fst ` set (l_items s)" using assms(3) by (simp add: map_of_eq_None_iff)
  then have items: "l_items ?s = l_items s @ [(k, l_next s)]"
    by (simp add: push_front_def Let_def update_fresh)
  have old: "set (l_items s) = (\<lambda>n. (node_key s n, n)) ` set (l_order s)"
    using assms(1) by (simp add: lru_ok_def)
  have "k \<notin> node_key s ` set (l_order s)" using knew unfolding old by force
  moreover have "map (node_key ?s) (l_order s) = map (node_key s) (l_order s)"
    using fresh by (auto simp: nk)
  ultimately have "distinct (map (node_key ?s) (l_order ?s))"
    using assms(1) by (auto simp: nk lru_ok_def)
  moreover have "set (l_items ?s) = (\<lambda>n. (node_key ?s n, n)) ` set (l_order ?s)"
  proof -
    have "(\<lambda>n. (node_key ?s n, n)) ` set (l_order s) = (\<lambda>n. (node_key s n, n)) ` set (l_order s)"
      using fresh by (intro image_cong) (auto simp: nk)
    then show ?thesis unfolding items set_append old by (simp add: nk)
  qed
  moreover have "wf_map (l_items ?s)"
    using assms(1) knew by (simp add: items wf_map_def lru_ok_def)
  moreover have "length (l_order ?s) \<le> l_max ?s" "0 < l_max ?s" "distinct (l_order ?s)"
    "\<forall>n \<in> set (l_order ?s). n < l_next ?s"
    using assms fresh by (auto simp: lru_ok_def)
  ultimately show "lru_ok ?s" by (simp only: lru_ok_def)
  have "map (node ?s) (l_order s) = map (node s) (l_order s)" using fresh by (auto simp: nd)
  then show "lru_abs ?s = (k, e) # lru_abs s" by (simp add: lru_abs_def nd)
qed

lemma evict_fields:
  assumes "lru_ok s" and "map_of (l_items s) k = None"
  shows "map_of (l_items (evict_lru s)) k = None" and "l_max (evict_lru s) = l_max s"
    and "l_max s \<le> length (l_items s) \<Longrightarrow> length (l_order (evict_lru s)) < l_max s"
  using assms lru_items_length [OF assms(1)]
  by (auto simp: evict_lru_def map_of_delete lru_ok_def length_remove1)

lemma lru_set_refines:
  assumes "lru_ok s"
  shows "lru_abs (lru_set now k v ttl s) = abs_set (l_max s) now k v ttl (lru_abs s) \<and>
    lru_ok (lru_set now k v ttl s)"
proof (cases "map_of (l_items s) k")
  case (Some n)
  then have n: "n \<in> set (l_order s)" "node_key s n = k" using lru_items_iff [OF assms] by blast+
  let ?e = "\<lparr>ce_value = v, ce_expires = expiry now ttl\<rparr>"
  let ?s = "put_node n (node_key s n, ?e) s"
  have set: "lru_set now k v ttl s = move_to_front n ?s"
    using Some by (simp add: lru_set_def Let_def put_node_def node_key_def)
  have ok: "lru_ok ?s" and wo: "without k (lru_abs ?s) = without k (lru_abs s)"
    using put_same_key [OF assms n(1), of "(node_key s n, ?e)"] n(2) by simp_all
  have "lru_abs (move_to_front n ?s) = (k, ?e) # without k (lru_abs s)"
    using move_to_front_abs [OF ok, of n] n wo by simp
  moreover have "lru_ok (move_to_front n ?s)" using move_to_front_ok [OF ok, of n] n by simp
  ultimately show ?thesis
    using Some assms by (simp add: set abs_set_def Let_def lru_abs_lookup)
next
  case None
  let ?e = "\<lparr>ce_value = v, ce_expires = expiry now ttl\<rparr>"
  let ?t = "if l_max s \<le> length (l_items s) then evict_lru s else s"
  have len: "length (lru_abs s) = length (l_items s)"
    using lru_items_length [OF assms] by (simp add: lru_abs_def)
  have t: "lru_ok ?t" "length (l_order ?t) < l_max ?t" "map_of (l_items ?t) k = None"
    using assms None evict_fields [OF assms None] evict_lru_ok [OF assms] lru_items_length [OF assms]
    by auto
  have "lru_set now k v ttl s = push_front k ?e ?t" using None by (simp add: lru_set_def Let_def)
  then show ?thesis
    using push_front_ok [OF t, of ?e] None assms evict_lru_abs [OF assms] len
    by (simp add: abs_set_def Let_def lru_abs_lookup)
qed

section \<open>The contract of a store\<close>

text \<open>
  What the users of \<open>cache.Store\<close> rely on, over the states a store reaches: a value just set is read
  back until its time to live has passed, and not after; a deleted key is absent.
\<close>

locale cache_contract =
  fixes st_get :: "int \<Rightarrow> string \<Rightarrow> 'c \<Rightarrow> string option \<times> 'c"
    and st_set :: "int \<Rightarrow> string \<Rightarrow> string \<Rightarrow> int \<Rightarrow> 'c \<Rightarrow> 'c"
    and st_delete :: "string \<Rightarrow> 'c \<Rightarrow> 'c"
    and st_ok :: "'c \<Rightarrow> bool"
  assumes ok_get: "st_ok c \<Longrightarrow> st_ok (snd (st_get now k c))"
    and ok_set: "st_ok c \<Longrightarrow> st_ok (st_set now k v ttl c)"
    and ok_delete: "st_ok c \<Longrightarrow> st_ok (st_delete k c)"
    and set_get: "st_ok c \<Longrightarrow> ttl \<le> 0 \<or> u \<le> now + ttl \<Longrightarrow> fst (st_get u k (st_set now k v ttl c)) = Some v"
    and set_get_expired:
      "st_ok c \<Longrightarrow> 0 < ttl \<Longrightarrow> 0 < now \<Longrightarrow> now + ttl < u \<Longrightarrow> fst (st_get u k (st_set now k v ttl c)) = None"
    and get_get: "st_ok c \<Longrightarrow> now \<le> u \<Longrightarrow> fst (st_get u k (snd (st_get now k c))) = fst (st_get u k c)"
    and delete_get: "st_ok c \<Longrightarrow> fst (st_get now k (st_delete k c)) = None"
begin

lemma set_set_get:
  "st_ok c \<Longrightarrow> ttl' \<le> 0 \<or> u \<le> now' + ttl' \<Longrightarrow>
     fst (st_get u k (st_set now' k v' ttl' (st_set now k v ttl c))) = Some v'"
  by (intro set_get ok_set)

lemma get_after_update:
  assumes "st_ok c" and "ttl \<le> 0 \<or> u \<le> now + ttl"
  shows "fst (st_get u k (st_set now k (f (fst (st_get now' k c))) ttl (snd (st_get now' k c)))) =
    Some (f (fst (st_get now' k c)))"
  using assms by (intro set_get ok_get)

end

lemma map_of_without: "map_of (without k c) j = (if j = k then None else map_of c j)"
  by (induction c) (auto simp: without_def)

lemma map_of_set_abs: "map_of (abs_set m now k v ttl c) k = Some \<lparr>ce_value = v, ce_expires = expiry now ttl\<rparr>"
  by (simp add: abs_set_def Let_def)

interpretation lru: cache_contract lru_get lru_set lru_delete lru_ok
proof unfold_locales
  fix c :: lru_store and now k v ttl u
  assume ok: "lru_ok c"
  show "lru_ok (snd (lru_get now k c))" "lru_ok (lru_set now k v ttl c)" "lru_ok (lru_delete k c)"
    using ok lru_get_refines lru_set_refines lru_delete_refines by blast+
  have s: "lru_ok (lru_set now k v ttl c)" using ok lru_set_refines by blast
  have a: "lru_abs (lru_set now k v ttl c) = abs_set (l_max c) now k v ttl (lru_abs c)"
    using ok lru_set_refines by blast
  have g: "fst (lru_get u k (lru_set now k v ttl c)) =
      (if entry_expired u \<lparr>ce_value = v, ce_expires = expiry now ttl\<rparr> then None else Some v)"
    using lru_get_refines [OF s, of u k] by (simp add: a abs_get_def map_of_set_abs)
  show "fst (lru_get u k (lru_set now k v ttl c)) = Some v" if "ttl \<le> 0 \<or> u \<le> now + ttl"
    using that by (auto simp: g entry_expired_def expiry_def)
  show "fst (lru_get u k (lru_set now k v ttl c)) = None" if "0 < ttl" "0 < now" "now + ttl < u"
    using that by (simp add: g entry_expired_def expiry_def)
  show "fst (lru_get u k (snd (lru_get now k c))) = fst (lru_get u k c)" if "now \<le> u"
    using that lru_get_refines [OF ok, of now k] lru_get_refines [OF ok, of u k]
      lru_get_refines [of "snd (lru_get now k c)" u k]
    by (auto simp: abs_get_def map_of_without entry_expired_def split: option.splits if_splits)
  show "fst (lru_get now k (lru_delete k c)) = None"
    using lru_delete_refines [OF ok, of k] lru_get_refines [of "lru_delete k c" now k]
    by (simp add: abs_get_def map_of_without)
qed

section \<open>Runs\<close>

datatype cache_op = OpGet int string | OpSet int string string int | OpDelete string

fun lru_run :: "cache_op list \<Rightarrow> lru_store \<Rightarrow> string option list \<times> lru_store" where
  "lru_run [] s = ([], s)"
| "lru_run (OpGet now k # ops) s =
     (let (r, s') = lru_get now k s; (rs, t) = lru_run ops s' in (r # rs, t))"
| "lru_run (OpSet now k v ttl # ops) s = lru_run ops (lru_set now k v ttl s)"
| "lru_run (OpDelete k # ops) s = lru_run ops (lru_delete k s)"

fun abs_run :: "nat \<Rightarrow> cache_op list \<Rightarrow> abs_cache \<Rightarrow> string option list \<times> abs_cache" where
  "abs_run m [] c = ([], c)"
| "abs_run m (OpGet now k # ops) c =
     (let (r, c') = abs_get now k c; (rs, d) = abs_run m ops c' in (r # rs, d))"
| "abs_run m (OpSet now k v ttl # ops) c = abs_run m ops (abs_set m now k v ttl c)"
| "abs_run m (OpDelete k # ops) c = abs_run m ops (without k c)"

lemma lru_max_keeps [simp]:
  "l_max (snd (lru_get now k s)) = l_max s" "l_max (lru_set now k v ttl s) = l_max s"
  "l_max (lru_delete k s) = l_max s"
  by (simp_all add: lru_get_def lru_set_def lru_delete_def evict_lru_def Let_def split: option.splits)

lemma lru_run_refines:
  "lru_ok s \<Longrightarrow> fst (lru_run ops s) = fst (abs_run (l_max s) ops (lru_abs s)) \<and>
     lru_abs (snd (lru_run ops s)) = snd (abs_run (l_max s) ops (lru_abs s)) \<and> lru_ok (snd (lru_run ops s)) \<and>
     l_max (snd (lru_run ops s)) = l_max s"
proof (induction ops s rule: lru_run.induct)
  case (2 now k ops s)
  obtain r s' where g: "lru_get now k s = (r, s')" by (cases "lru_get now k s")
  have s': "r = fst (abs_get now k (lru_abs s))" "lru_abs s' = snd (abs_get now k (lru_abs s))"
    "lru_ok s'" "l_max s' = l_max s"
    using lru_get_refines [OF 2(2), of now k] lru_max_keeps(1) [of now k s] by (simp_all add: g)
  with 2(1) [OF g [symmetric] refl] show ?case
    by (simp add: g Let_def case_prod_unfold)
qed (simp_all add: lru_set_refines lru_delete_refines Let_def)

section \<open>Properties\<close>

text \<open>C35: The cache with its map and linked nodes answers every sequence of operations as a plain list of
  entries does that is kept in order of use, and it never holds more entries than its maximum.\<close>

theorem lru_is_recency_list:
  "fst (lru_run ops (new_lru_store n)) = fst (abs_run (l_max (new_lru_store n)) ops []) \<and>
   length (l_order (snd (lru_run ops (new_lru_store n)))) \<le> l_max (new_lru_store n)"
proof -
  have "lru_abs (new_lru_store n) = []" by (simp add: lru_abs_def new_lru_store_def)
  with lru_run_refines [OF lru_ok_new [of n], of ops] show ?thesis
    by (auto simp: lru_ok_def)
qed

end
