(* ===== verification/Errors.thy ===== *)
theory Errors
  imports GoValue
begin

text \<open>
  The framework-wide error type (\<open>errors/errors.go\<close>): the six error codes with their HTTP
  statuses, the concrete error with its cause, the \<open>Unwrap\<close>-chain walks \<open>As\<close> and \<open>Is\<close>, and the
  constructors.
\<close>

datatype error_code =
    CodeValidation | CodeAuth | CodePermission | CodeNotFound | CodeConflict | CodeInternal
  | CodeOther string

fun code_string :: "error_code \<Rightarrow> string" where
  "code_string CodeValidation = ''VALIDATION_ERROR''"
| "code_string CodeAuth = ''AUTH_ERROR''"
| "code_string CodePermission = ''PERMISSION_DENIED''"
| "code_string CodeNotFound = ''NOT_FOUND''"
| "code_string CodeConflict = ''CONFLICT''"
| "code_string CodeInternal = ''INTERNAL_ERROR''"
| "code_string (CodeOther s) = s"

fun http_status :: "error_code \<Rightarrow> nat" where
  "http_status CodeValidation = 400"
| "http_status CodeAuth = 401"
| "http_status CodePermission = 403"
| "http_status CodeNotFound = 404"
| "http_status CodeConflict = 409"
| "http_status CodeInternal = 500"
| "http_status (CodeOther s) = 500"

text \<open>
  \<open>OrjError\<close> is \<open>*orjandaError\<close> (code, message, details, cause); \<open>StdError\<close> is any other Go
  error: its text and what its \<open>Unwrap\<close> returns.
\<close>

datatype gerror =
    OrjError error_code string row "gerror option"
  | StdError string "gerror option"

fun error_text :: "gerror \<Rightarrow> string" where
  "error_text (OrjError c m d None) = ''['' @ code_string c @ ''] '' @ m"
| "error_text (OrjError c m d (Some e)) = ''['' @ code_string c @ ''] '' @ m @ '': '' @ error_text e"
| "error_text (StdError m c) = m"

fun err_code :: "gerror \<Rightarrow> error_code option" where
  "err_code (OrjError c m d x) = Some c"
| "err_code (StdError m c) = None"

fun err_message :: "gerror \<Rightarrow> string" where
  "err_message (OrjError c m d x) = m"
| "err_message (StdError m c) = m"

fun err_details :: "gerror \<Rightarrow> row" where
  "err_details (OrjError c m d x) = d"
| "err_details (StdError m c) = []"

definition new_error :: "error_code \<Rightarrow> string \<Rightarrow> row \<Rightarrow> gerror option \<Rightarrow> gerror" where
  "new_error c m d x = OrjError c m d x"

definition validation_err :: "string \<Rightarrow> row \<Rightarrow> gerror" where
  "validation_err m d = new_error CodeValidation m d None"

definition auth_err :: "string \<Rightarrow> gerror" where
  "auth_err m = new_error CodeAuth m [] None"

definition permission_err :: "string \<Rightarrow> gerror" where
  "permission_err m = new_error CodePermission m [] None"

definition not_found_err :: "string \<Rightarrow> gerror" where
  "not_found_err m = new_error CodeNotFound m [] None"

definition conflict_err :: "string \<Rightarrow> gerror" where
  "conflict_err m = new_error CodeConflict m [] None"

definition internal_err :: "string \<Rightarrow> gerror option \<Rightarrow> gerror" where
  "internal_err m x = new_error CodeInternal m [] x"

definition wrap_err :: "error_code \<Rightarrow> string \<Rightarrow> gerror \<Rightarrow> gerror" where
  "wrap_err c m x = new_error c m [] (Some x)"

lemmas error_defs =
  new_error_def validation_err_def auth_err_def permission_err_def not_found_err_def
  conflict_err_def internal_err_def wrap_err_def

lemma err_code_constructors [simp]:
  "err_code (new_error c m d x) = Some c"
  "err_code (validation_err m d) = Some CodeValidation"
  "err_code (auth_err m) = Some CodeAuth"
  "err_code (permission_err m) = Some CodePermission"
  "err_code (not_found_err m) = Some CodeNotFound"
  "err_code (conflict_err m) = Some CodeConflict"
  "err_code (internal_err m x) = Some CodeInternal"
  by (simp_all add: error_defs)

text \<open>\<open>errors.As\<close>: the first \<open>Error\<close> on the \<open>Unwrap\<close> chain.\<close>

fun as_error :: "gerror \<Rightarrow> gerror option" where
  "as_error (OrjError c m d x) = Some (OrjError c m d x)"
| "as_error (StdError m None) = None"
| "as_error (StdError m (Some e)) = as_error e"

text \<open>
  \<open>errors.Is(err, sentinel)\<close> for a sentinel of code \<open>k\<close>: \<open>orjandaError.Is\<close> compares codes, and the
  standard library's walk follows \<open>Unwrap\<close>.
\<close>

fun is_code :: "error_code \<Rightarrow> gerror \<Rightarrow> bool" where
  "is_code k (OrjError c m d None) = (c = k)"
| "is_code k (OrjError c m d (Some e)) = (c = k \<or> is_code k e)"
| "is_code k (StdError m None) = False"
| "is_code k (StdError m (Some e)) = is_code k e"

text \<open>The codes on a chain, outermost first: what the two walks are about.\<close>

fun chain_codes :: "gerror \<Rightarrow> error_code list" where
  "chain_codes (OrjError c m d None) = [c]"
| "chain_codes (OrjError c m d (Some e)) = c # chain_codes e"
| "chain_codes (StdError m None) = []"
| "chain_codes (StdError m (Some e)) = chain_codes e"

lemma is_code_iff: "is_code k e \<longleftrightarrow> k \<in> set (chain_codes e)"
  by (induction e rule: chain_codes.induct) auto

lemma as_error_code:
  "map_option err_code (as_error e) =
     (case chain_codes e of [] \<Rightarrow> None | c # cs \<Rightarrow> Some (Some c))"
proof (induction e rule: as_error.induct)
  case (1 c m d x)
  then show ?case by (cases x) simp_all
qed simp_all

lemma http_status_error: "400 \<le> http_status c \<and> http_status c \<le> 500"
  by (cases c) simp_all

section \<open>Properties\<close>

text \<open>\<open>errors.Is\<close> finds a sentinel's code exactly when some framework error of the \<open>Unwrap\<close> chain
  carries it, and \<open>errors.As\<close> returns the outermost framework error of the chain, if there is one.\<close>

theorem error_chain_walks:
  "(is_code k e \<longleftrightarrow> k \<in> set (chain_codes e)) \<and>
   map_option err_code (as_error e) = (case chain_codes e of [] \<Rightarrow> None | c # cs \<Rightarrow> Some (Some c))"
  using is_code_iff as_error_code by blast

end
