(* ===== verification/Schema.thy ===== *)
theory Schema
  imports Errors
begin

text \<open>
  The schema data model (\<open>schema/types.go\<close>): field types, compiled fields, permissions, compiled
  documents, relationships, schema diffs, the embedded base documents with their \<open>Get\<close> and \<open>Set\<close>,
  and the registry of named validators.
\<close>

datatype sort_order = Ascending | Descending

datatype match_type = MatchAll | OwnerMatch

record doc_permission =
  p_role :: string
  p_read :: bool
  p_write :: bool
  p_create :: bool
  p_delete :: bool
  p_submit :: bool
  p_match :: match_type

record meta =
  m_name :: string
  m_module :: string
  m_searchable :: bool
  m_submittable :: bool
  m_icon :: string
  m_description :: string
  m_agent_hidden :: bool
  m_title_field :: string
  m_sort_field :: string
  m_sort_order :: sort_order
  m_permissions :: "doc_permission list"

datatype field_type =
    FTString | FTInt | FTInt64 | FTFloat64 | FTBool | FTDate | FTDateTime | FTCurrency | FTText
  | FTRichText | FTLink | FTDynamicLink | FTAttachment | FTJSON | FTChildTable

fun field_type_string :: "field_type \<Rightarrow> string" where
  "field_type_string FTString = ''string''"
| "field_type_string FTInt = ''int''"
| "field_type_string FTInt64 = ''int64''"
| "field_type_string FTFloat64 = ''float64''"
| "field_type_string FTBool = ''bool''"
| "field_type_string FTDate = ''date''"
| "field_type_string FTDateTime = ''datetime''"
| "field_type_string FTCurrency = ''currency''"
| "field_type_string FTText = ''text''"
| "field_type_string FTRichText = ''richtext''"
| "field_type_string FTLink = ''link''"
| "field_type_string FTDynamicLink = ''dynamiclink''"
| "field_type_string FTAttachment = ''attachment''"
| "field_type_string FTJSON = ''json''"
| "field_type_string FTChildTable = ''child_table''"

record field =
  f_name :: string
  f_db_column :: string
  f_type :: field_type
  f_required :: bool
  f_unique :: bool
  f_searchable :: bool
  f_label :: string
  f_options :: "string list"
  f_default :: string
  f_format :: string
  f_link_target :: string
  f_child_type_name :: string
  f_precision :: int
  f_permission_role :: string
  f_hidden :: bool
  f_system :: bool
  f_read_only :: bool
  f_computed :: bool
  f_agent_hint :: string
  f_validator_name :: string
  f_agent_hidden :: bool

text \<open>The zero value \<open>Field{}\<close>, from which field literals are built by naming some fields.\<close>

definition zero_field :: field where
  "zero_field = \<lparr>f_name = [], f_db_column = [], f_type = FTString, f_required = False,
     f_unique = False, f_searchable = False, f_label = [], f_options = [], f_default = [],
     f_format = [], f_link_target = [], f_child_type_name = [], f_precision = 0,
     f_permission_role = [], f_hidden = False, f_system = False, f_read_only = False,
     f_computed = False, f_agent_hint = [], f_validator_name = [], f_agent_hidden = False\<rparr>"

record compiled_child =
  cc_field_name :: string
  cc_type_name :: string
  cc_doc_type :: string
  cc_table_name :: string
  cc_fields :: "field list"

record compiled_doc =
  d_name :: string
  d_app :: string
  d_module :: string
  d_table_name :: string
  d_searchable :: bool
  d_submittable :: bool
  d_icon :: string
  d_description :: string
  d_title_field :: string
  d_sort_field :: string
  d_sort_order :: sort_order
  d_fields :: "field list"
  d_permissions :: "doc_permission list"
  d_child_tables :: "compiled_child list"
  d_agent_hidden :: bool

definition zero_doc :: compiled_doc where
  "zero_doc = \<lparr>d_name = [], d_app = [], d_module = [], d_table_name = [], d_searchable = False,
     d_submittable = False, d_icon = [], d_description = [], d_title_field = [], d_sort_field = [],
     d_sort_order = Ascending, d_fields = [], d_permissions = [], d_child_tables = [],
     d_agent_hidden = False\<rparr>"

record relationship =
  r_from_doc :: string
  r_from_field :: string
  r_to_doc :: string
  r_is_child_table :: bool

record column_alteration =
  ca_field_name :: string
  ca_column_name :: string
  ca_old_column :: string
  ca_new_column :: string

record table_alteration =
  ta_table_name :: string
  ta_add_columns :: "field list"
  ta_drop_columns :: "string list"
  ta_alter_columns :: "column_alteration list"

record schema_diff =
  sd_create_tables :: "compiled_doc list"
  sd_alter_tables :: "table_alteration list"
  sd_drop_tables :: "string list"

text \<open>\<open>(*SchemaDiff).ChangeCount\<close>; the nil pointer is \<^const>\<open>None\<close>.\<close>

definition change_count :: "schema_diff option \<Rightarrow> nat" where
  "change_count d = (case d of None \<Rightarrow> 0
     | Some x \<Rightarrow> length (sd_create_tables x) + length (sd_alter_tables x) + length (sd_drop_tables x))"

section \<open>Base documents\<close>

record base_document =
  b_id :: string
  b_name :: string
  b_owner :: string
  b_created_at :: int
  b_updated_at :: int
  b_modified_by :: string
  b_doc_status :: int
  b_deleted :: bool

definition base_get :: "base_document \<Rightarrow> string \<Rightarrow> val" where
  "base_get b fld =
     (if fld = ''ID'' then VStr (b_id b)
      else if fld = ''Name'' then VStr (b_name b)
      else if fld = ''Owner'' then VStr (b_owner b)
      else if fld = ''CreatedAt'' then VTime (b_created_at b)
      else if fld = ''UpdatedAt'' then VTime (b_updated_at b)
      else if fld = ''ModifiedBy'' then VStr (b_modified_by b)
      else if fld = ''DocStatus'' then VInt (b_doc_status b)
      else if fld = ''Deleted'' then VBool (b_deleted b)
      else VNil)"

fun base_set :: "base_document \<Rightarrow> string \<Rightarrow> val \<Rightarrow> gerror + base_document" where
  "base_set b fld (VStr v) =
     (if fld = ''ID'' then Inr (b\<lparr>b_id := v\<rparr>)
      else if fld = ''Name'' then Inr (b\<lparr>b_name := v\<rparr>)
      else if fld = ''Owner'' then Inr (b\<lparr>b_owner := v\<rparr>)
      else if fld = ''ModifiedBy'' then Inr (b\<lparr>b_modified_by := v\<rparr>)
      else Inl (validation_err (''unknown field: '' @ fld) []))"
| "base_set b fld (VTime v) =
     (if fld = ''CreatedAt'' then Inr (b\<lparr>b_created_at := v\<rparr>)
      else if fld = ''UpdatedAt'' then Inr (b\<lparr>b_updated_at := v\<rparr>)
      else Inl (validation_err (''unknown field: '' @ fld) []))"
| "base_set b fld (VInt v) =
     (if fld = ''DocStatus'' then Inr (b\<lparr>b_doc_status := v\<rparr>)
      else Inl (validation_err (''unknown field: '' @ fld) []))"
| "base_set b fld (VBool v) =
     (if fld = ''Deleted'' then Inr (b\<lparr>b_deleted := v\<rparr>)
      else Inl (validation_err (''unknown field: '' @ fld) []))"
| "base_set b fld v = Inl (validation_err (''unknown field: '' @ fld) [])"

record base_child =
  bc_id :: string
  bc_parent_id :: string
  bc_idx :: int

definition child_get :: "base_child \<Rightarrow> string \<Rightarrow> val" where
  "child_get c fld =
     (if fld = ''ID'' then VStr (bc_id c)
      else if fld = ''ParentID'' then VStr (bc_parent_id c)
      else if fld = ''Idx'' then VInt (bc_idx c)
      else VNil)"

fun child_set :: "base_child \<Rightarrow> string \<Rightarrow> val \<Rightarrow> gerror + base_child" where
  "child_set c fld (VStr v) =
     (if fld = ''ID'' then Inr (c\<lparr>bc_id := v\<rparr>)
      else if fld = ''ParentID'' then Inr (c\<lparr>bc_parent_id := v\<rparr>)
      else Inl (validation_err (''unknown child field: '' @ fld) []))"
| "child_set c fld (VInt v) =
     (if fld = ''Idx'' then Inr (c\<lparr>bc_idx := v\<rparr>)
      else Inl (validation_err (''unknown child field: '' @ fld) []))"
| "child_set c fld v = Inl (validation_err (''unknown child field: '' @ fld) [])"

text \<open>A successful \<open>Set\<close> is read back by \<open>Get\<close> and touches no other field.\<close>

lemma base_get_frame:
  "g \<noteq> ''ID'' \<Longrightarrow> base_get (b\<lparr>b_id := s\<rparr>) g = base_get b g"
  "g \<noteq> ''Name'' \<Longrightarrow> base_get (b\<lparr>b_name := s\<rparr>) g = base_get b g"
  "g \<noteq> ''Owner'' \<Longrightarrow> base_get (b\<lparr>b_owner := s\<rparr>) g = base_get b g"
  "g \<noteq> ''CreatedAt'' \<Longrightarrow> base_get (b\<lparr>b_created_at := t\<rparr>) g = base_get b g"
  "g \<noteq> ''UpdatedAt'' \<Longrightarrow> base_get (b\<lparr>b_updated_at := t\<rparr>) g = base_get b g"
  "g \<noteq> ''ModifiedBy'' \<Longrightarrow> base_get (b\<lparr>b_modified_by := s\<rparr>) g = base_get b g"
  "g \<noteq> ''DocStatus'' \<Longrightarrow> base_get (b\<lparr>b_doc_status := t\<rparr>) g = base_get b g"
  "g \<noteq> ''Deleted'' \<Longrightarrow> base_get (b\<lparr>b_deleted := x\<rparr>) g = base_get b g"
  by (simp_all add: base_get_def)

lemma base_get_updated:
  "base_get (b\<lparr>b_id := s\<rparr>) ''ID'' = VStr s"
  "base_get (b\<lparr>b_name := s\<rparr>) ''Name'' = VStr s"
  "base_get (b\<lparr>b_owner := s\<rparr>) ''Owner'' = VStr s"
  "base_get (b\<lparr>b_created_at := t\<rparr>) ''CreatedAt'' = VTime t"
  "base_get (b\<lparr>b_updated_at := t\<rparr>) ''UpdatedAt'' = VTime t"
  "base_get (b\<lparr>b_modified_by := s\<rparr>) ''ModifiedBy'' = VStr s"
  "base_get (b\<lparr>b_doc_status := t\<rparr>) ''DocStatus'' = VInt t"
  "base_get (b\<lparr>b_deleted := x\<rparr>) ''Deleted'' = VBool x"
  by (simp_all add: base_get_def)

lemma base_set_get:
  assumes "base_set b fld v = Inr b'"
  shows "base_get b' fld = v \<and> (\<forall>g. g \<noteq> fld \<longrightarrow> base_get b' g = base_get b g)"
  using assms
  by (cases v) (auto simp: base_get_frame base_get_updated split: if_split_asm)

lemma child_set_get:
  assumes "child_set c fld v = Inr c'"
  shows "child_get c' fld = v \<and> (\<forall>g. g \<noteq> fld \<longrightarrow> child_get c' g = child_get c g)"
  using assms by (cases v) (auto simp: child_get_def split: if_split_asm)

lemma base_set_error: "base_set b fld v = Inl e \<Longrightarrow> err_code e = Some CodeValidation"
  by (cases v) (auto split: if_splits)

section \<open>Validators\<close>

text \<open>\<open>RegisterValidator\<close> panics (\<^const>\<open>None\<close>) on a duplicate name.\<close>

type_synonym 'v validator_registry = "(string \<times> 'v) list"

definition register_validator ::
    "string \<Rightarrow> 'v \<Rightarrow> 'v validator_registry \<Rightarrow> 'v validator_registry option" where
  "register_validator name v reg =
     (case map_of reg name of Some _ \<Rightarrow> None | None \<Rightarrow> Some (AList.update name v reg))"

definition lookup_validator :: "'v validator_registry \<Rightarrow> string \<Rightarrow> 'v option" where
  "lookup_validator reg name = map_of reg name"

lemma register_lookup:
  "register_validator n v reg = Some reg' \<Longrightarrow>
     lookup_validator reg' n = Some v \<and>
     (\<forall>m. m \<noteq> n \<longrightarrow> lookup_validator reg' m = lookup_validator reg m)"
  by (auto simp: register_validator_def lookup_validator_def row_simps split: option.splits)

end
