(* ===== verification/Auth.thy ===== *)
theory Auth
  imports Schema
begin

text \<open>
  Identities and the request context (\<open>auth/identity.go\<close>), and the built-in JWT provider
  (\<open>auth/jwt.go\<close>). The JWT library, bcrypt and the clock are parameters; the provider's own state
  is the set of revoked refresh-token ids.
\<close>

section \<open>Identity and context\<close>

record identity =
  i_user_id :: string
  i_email :: string
  i_full_name :: string
  i_roles :: "string list"
  i_tenant :: string
  i_source :: string

definition zero_identity :: identity where
  "zero_identity = \<lparr>i_user_id = [], i_email = [], i_full_name = [], i_roles = [], i_tenant = [],
     i_source = []\<rparr>"

record user_info =
  u_user_id :: string
  u_email :: string
  u_full_name :: string
  u_roles :: "string list"
  u_tenant :: string
  u_source :: string

text \<open>
  The values that the framework attaches to a \<open>context.Context\<close>: the identity, the agent metadata
  of audit entries, the request id and the agent session of the safety layer. A missing string is
  the empty string, as the two-result type assertions read it.
\<close>

record ctx =
  cx_identity :: "identity option"
  cx_via_agent :: bool
  cx_agent_session :: string
  cx_agent_prompt :: string
  cx_request_id :: string
  cx_session :: string

definition background_ctx :: ctx where
  "background_ctx = \<lparr>cx_identity = None, cx_via_agent = False, cx_agent_session = [],
     cx_agent_prompt = [], cx_request_id = [], cx_session = []\<rparr>"

definition auth_new_context :: "ctx \<Rightarrow> identity \<Rightarrow> ctx" where
  "auth_new_context cx i = cx\<lparr>cx_identity := Some i\<rparr>"

definition auth_from_context :: "ctx \<Rightarrow> identity" where
  "auth_from_context cx = (case cx_identity cx of Some i \<Rightarrow> i | None \<Rightarrow> zero_identity)"

lemma auth_from_new_context [simp]: "auth_from_context (auth_new_context cx i) = i"
  by (simp add: auth_from_context_def auth_new_context_def)

section \<open>JWT provider\<close>

record claims =
  c_subject :: string
  c_issued_at :: int
  c_expires_at :: int
  c_jti :: string
  c_email :: string
  c_full_name :: string
  c_roles :: "string list"
  c_tenant :: string
  c_source :: string
  c_type :: string

text \<open>
  What the provider calls of the JWT library: signing, the check that a token's signing method is
  HMAC, and parsing under a key at a time (no result for a bad signature or an expired token).
  \<open>j_date\<close> is the precision of numeric dates.
\<close>

record jwt_lib =
  j_sign :: "string \<Rightarrow> claims \<Rightarrow> string option"
  j_is_hmac :: "string \<Rightarrow> bool"
  j_parse :: "string \<Rightarrow> int \<Rightarrow> string \<Rightarrow> claims option"
  j_date :: "int \<Rightarrow> int"

record jwt_provider =
  jp_secret :: string
  jp_access_ttl :: int
  jp_refresh_ttl :: int
  jp_revoked :: "string list"

definition minute :: int where "minute = 60000000000"

definition new_jwt_provider :: "string \<Rightarrow> int \<Rightarrow> int \<Rightarrow> jwt_provider" where
  "new_jwt_provider secret attl rttl =
     \<lparr>jp_secret = secret,
      jp_access_ttl = (if attl \<le> 0 then 15 * minute else attl),
      jp_refresh_ttl = (if rttl \<le> 0 then 7 * 24 * 60 * minute else rttl),
      jp_revoked = []\<rparr>"

definition token_claims :: "jwt_lib \<Rightarrow> identity \<Rightarrow> int \<Rightarrow> int \<Rightarrow> string \<Rightarrow> string \<Rightarrow> claims" where
  "token_claims L i now ttl jti ty =
     \<lparr>c_subject = i_user_id i, c_issued_at = j_date L now, c_expires_at = j_date L (now + ttl),
      c_jti = jti, c_email = i_email i, c_full_name = i_full_name i, c_roles = i_roles i,
      c_tenant = i_tenant i, c_source = i_source i, c_type = ty\<rparr>"

text \<open>\<open>GenerateTokenPair\<close>; \<open>j1\<close> and \<open>j2\<close> are the two ULIDs it draws.\<close>

definition generate_token_pair ::
    "jwt_lib \<Rightarrow> jwt_provider \<Rightarrow> int \<Rightarrow> string \<Rightarrow> string \<Rightarrow> identity \<Rightarrow> gerror + (string \<times> string)" where
  "generate_token_pair L p now j1 j2 i =
     (case j_sign L (jp_secret p) (token_claims L i now (jp_access_ttl p) j1 ''access'') of
        None \<Rightarrow> Inl (internal_err ''failed to sign access token'' None)
      | Some a \<Rightarrow>
          (case j_sign L (jp_secret p) (token_claims L i now (jp_refresh_ttl p) j2 ''refresh'') of
             None \<Rightarrow> Inl (internal_err ''failed to sign refresh token'' None)
           | Some r \<Rightarrow> Inr (a, r)))"

definition parse_claims :: "jwt_lib \<Rightarrow> jwt_provider \<Rightarrow> int \<Rightarrow> string \<Rightarrow> gerror + claims" where
  "parse_claims L p now tok =
     (if \<not> j_is_hmac L tok then Inl (auth_err ''invalid or expired token'')
      else case j_parse L (jp_secret p) now tok of
             None \<Rightarrow> Inl (auth_err ''invalid or expired token'')
           | Some c \<Rightarrow> Inr c)"

definition claims_identity :: "claims \<Rightarrow> identity" where
  "claims_identity c =
     \<lparr>i_user_id = c_subject c, i_email = c_email c, i_full_name = c_full_name c,
      i_roles = c_roles c, i_tenant = c_tenant c, i_source = c_source c\<rparr>"

definition validate_token :: "jwt_lib \<Rightarrow> jwt_provider \<Rightarrow> int \<Rightarrow> string \<Rightarrow> gerror + identity" where
  "validate_token L p now tok =
     bind_r (parse_claims L p now tok) (\<lambda>c.
       if c_type c \<noteq> ''access'' then Inl (auth_err ''token is not an access token'')
       else Inr (claims_identity c))"

definition get_user_info :: "jwt_lib \<Rightarrow> jwt_provider \<Rightarrow> int \<Rightarrow> string \<Rightarrow> gerror + user_info" where
  "get_user_info L p now tok =
     bind_r (validate_token L p now tok) (\<lambda>i.
       Inr \<lparr>u_user_id = i_user_id i, u_email = i_email i, u_full_name = i_full_name i,
            u_roles = i_roles i, u_tenant = i_tenant i, u_source = i_source i\<rparr>)"

text \<open>
  \<open>RefreshToken\<close>: the check and the revocation happen under one lock, so the step is atomic. The
  token stays revoked when signing the new pair fails.
\<close>

definition refresh_token ::
    "jwt_lib \<Rightarrow> int \<Rightarrow> string \<Rightarrow> string \<Rightarrow> string \<Rightarrow> (jwt_provider, gerror, string \<times> string) step" where
  "refresh_token L now j1 j2 tok = (\<lambda>p.
     case parse_claims L p now tok of
       Inl e \<Rightarrow> (Inl e, p)
     | Inr c \<Rightarrow>
         if c_type c \<noteq> ''refresh'' then (Inl (auth_err ''token is not a refresh token''), p)
         else if c_jti c = [] then (Inl (auth_err ''refresh token missing JTI''), p)
         else if c_jti c \<in> set (jp_revoked p)
           then (Inl (auth_err ''refresh token has been revoked or reused''), p)
         else let p' = p\<lparr>jp_revoked := c_jti c # jp_revoked p\<rparr>
              in (generate_token_pair L p' now j1 j2 (claims_identity c), p'))"

subsection \<open>Runs of the provider\<close>

text \<open>One call of \<open>RefreshToken\<close>: when it is made, the ULIDs it draws and the token presented.\<close>

record refresh_call =
  rc_now :: int
  rc_j1 :: string
  rc_j2 :: string
  rc_token :: string

text \<open>A sequence of calls on one provider, with what each returned.\<close>

fun refresh_run ::
    "jwt_lib \<Rightarrow> refresh_call list \<Rightarrow> jwt_provider \<Rightarrow> (gerror + (string \<times> string)) list \<times> jwt_provider" where
  "refresh_run L [] p = ([], p)"
| "refresh_run L (c # cs) p =
     (let (r, p') = refresh_token L (rc_now c) (rc_j1 c) (rc_j2 c) (rc_token c) p;
          (rs, p'') = refresh_run L cs p'
      in (r # rs, p''))"

lemma refresh_token_secret [simp]:
  "jp_secret (snd (refresh_token L now j1 j2 tok p)) = jp_secret p"
  by (auto simp: refresh_token_def Let_def split: sum.splits)

lemma refresh_token_revoked_mono:
  "set (jp_revoked p) \<subseteq> set (jp_revoked (snd (refresh_token L now j1 j2 tok p)))"
  by (auto simp: refresh_token_def Let_def split: sum.splits)

text \<open>What a successful refresh shows of the token and leaves in the provider.\<close>

lemma refresh_token_ok:
  assumes "refresh_token L now j1 j2 tok p = (Inr ar, p')"
  obtains c where "parse_claims L p now tok = Inr c" "c_type c = ''refresh''" "c_jti c \<noteq> []"
    "c_jti c \<notin> set (jp_revoked p)" "p' = p\<lparr>jp_revoked := c_jti c # jp_revoked p\<rparr>"
    "generate_token_pair L p' now j1 j2 (claims_identity c) = Inr ar"
  using assms by (auto simp: refresh_token_def Let_def split: sum.splits if_splits)

lemma refresh_token_revoked_fails:
  assumes "c_jti c \<in> set (jp_revoked p)" and "parse_claims L p now tok = Inr c"
  shows "\<exists>e. refresh_token L now j1 j2 tok p = (Inl e, p) \<and> err_code e = Some CodeAuth"
  using assms by (auto simp: refresh_token_def)

lemma refresh_run_length [simp]: "length (fst (refresh_run L cs p)) = length cs"
  by (induction cs arbitrary: p) (simp_all add: Let_def case_prod_unfold)

text \<open>
  A token is bound to an id by a library whose parse result does not change with time except by
  expiring: \<open>jti_of\<close> names that id.
\<close>

definition stable_parse :: "jwt_lib \<Rightarrow> string \<Rightarrow> bool" where
  "stable_parse L k \<longleftrightarrow>
     (\<forall>tok t u c d. j_parse L k t tok = Some c \<longrightarrow> j_parse L k u tok = Some d \<longrightarrow> c = d)"

lemma revoked_run_fails:
  assumes "stable_parse L (jp_secret p)"
    and "j_parse L (jp_secret p) t tok = Some c" and "c_jti c \<in> set (jp_revoked p)"
    and "i < length cs" and "rc_token (cs ! i) = tok"
  shows "\<exists>e. fst (refresh_run L cs p) ! i = Inl e"
  using assms
proof (induction cs arbitrary: p i)
  case Nil
  then show ?case by simp
next
  case (Cons x xs)
  obtain r p' where step: "refresh_token L (rc_now x) (rc_j1 x) (rc_j2 x) (rc_token x) p = (r, p')"
    by (cases "refresh_token L (rc_now x) (rc_j1 x) (rc_j2 x) (rc_token x) p")
  obtain rs q where rest: "refresh_run L xs p' = (rs, q)" by (cases "refresh_run L xs p'")
  from step rest have run: "fst (refresh_run L (x # xs) p) = r # rs" by simp
  have sec: "jp_secret p' = jp_secret p"
    and rev: "set (jp_revoked p) \<subseteq> set (jp_revoked p')"
    using refresh_token_secret refresh_token_revoked_mono step by (metis snd_conv)+
  show ?case
  proof (cases i)
    case 0
    with Cons.prems have tok: "rc_token x = tok" by simp
    have "\<exists>e. r = Inl e"
    proof (rule ccontr)
      assume "\<nexists>e. r = Inl e"
      then obtain ar where "r = Inr ar" by (cases r) auto
      with step tok obtain c' where "parse_claims L p (rc_now x) tok = Inr c'"
        and "c_jti c' \<notin> set (jp_revoked p)"
        by (metis refresh_token_ok)
      moreover from this(1) have "j_parse L (jp_secret p) (rc_now x) tok = Some c'"
        by (auto simp: parse_claims_def split: if_splits option.splits)
      ultimately show False
        using Cons.prems(1-3) unfolding stable_parse_def by metis
    qed
    with run 0 show ?thesis by simp
  next
    case (Suc j)
    have "\<exists>e. fst (refresh_run L xs p') ! j = Inl e"
      using Cons.IH [of p' j] Cons.prems sec rev Suc by auto
    with run rest Suc show ?thesis by simp
  qed
qed

lemma refresh_run_single_use:
  assumes "stable_parse L (jp_secret p)" and "i < j" and "j < length cs"
    and "rc_token (cs ! i) = rc_token (cs ! j)" and "fst (refresh_run L cs p) ! i = Inr ar"
  shows "\<exists>e. fst (refresh_run L cs p) ! j = Inl e"
  using assms
proof (induction cs arbitrary: p i j)
  case Nil
  then show ?case by simp
next
  case (Cons x xs)
  obtain r p' where step: "refresh_token L (rc_now x) (rc_j1 x) (rc_j2 x) (rc_token x) p = (r, p')"
    by (cases "refresh_token L (rc_now x) (rc_j1 x) (rc_j2 x) (rc_token x) p")
  have run: "fst (refresh_run L (x # xs) p) = r # fst (refresh_run L xs p')"
    using step by (simp add: Let_def case_prod_unfold)
  have sec: "jp_secret p' = jp_secret p" using refresh_token_secret step by (metis snd_conv)
  obtain j' where j: "j = Suc j'" using Cons.prems(2) by (cases j) auto
  show ?case
  proof (cases i)
    case 0
    with Cons.prems(5) run have "r = Inr ar" by simp
    with step obtain c where c: "parse_claims L p (rc_now x) (rc_token x) = Inr c"
      and p': "p' = p\<lparr>jp_revoked := c_jti c # jp_revoked p\<rparr>"
      by (metis refresh_token_ok)
    from c have "j_parse L (jp_secret p') (rc_now x) (rc_token x) = Some c"
      by (auto simp: sec parse_claims_def split: if_splits option.splits)
    then have "\<exists>e. fst (refresh_run L xs p') ! j' = Inl e"
      using Cons.prems 0 j sec p' by (intro revoked_run_fails) auto
    then show ?thesis using run j by simp
  next
    case (Suc i')
    have "\<exists>e. fst (refresh_run L xs p') ! j' = Inl e"
      using Cons.prems sec run Suc j by (intro Cons.IH [of p' i' j']) auto
    then show ?thesis using run j by simp
  qed
qed

section \<open>Properties\<close>

text \<open>
  What the JWT library documents: a token it signed verifies under the same key until it expires,
  and yields the claims that were signed.
\<close>

definition sign_parse_law :: "jwt_lib \<Rightarrow> string \<Rightarrow> bool" where
  "sign_parse_law L k \<longleftrightarrow>
     (\<forall>c tok t. j_sign L k c = Some tok \<longrightarrow> t < c_expires_at c \<longrightarrow>
        j_is_hmac L tok \<and> j_parse L k t tok = Some c)"

lemma issued_tokens:
  assumes "sign_parse_law L (jp_secret p)" and "generate_token_pair L p now j1 j2 i = Inr (acc, rfr)"
  shows "t < j_date L (now + jp_access_ttl p) \<Longrightarrow> validate_token L p t acc = Inr i"
    and "t < j_date L (now + jp_refresh_ttl p) \<Longrightarrow>
      validate_token L p t rfr = Inl (auth_err ''token is not an access token'')"
proof -
  have "j_sign L (jp_secret p) (token_claims L i now (jp_access_ttl p) j1 ''access'') = Some acc"
    "j_sign L (jp_secret p) (token_claims L i now (jp_refresh_ttl p) j2 ''refresh'') = Some rfr"
    using assms(2) by (auto simp: generate_token_pair_def split: option.splits)
  then show "t < j_date L (now + jp_access_ttl p) \<Longrightarrow> validate_token L p t acc = Inr i"
    "t < j_date L (now + jp_refresh_ttl p) \<Longrightarrow>
      validate_token L p t rfr = Inl (auth_err ''token is not an access token'')"
    using assms(1)
    by (auto simp: sign_parse_law_def validate_token_def parse_claims_def token_claims_def claims_identity_def)
qed

text \<open>C17: A freshly issued access token authenticates as the identity it was issued for until it
  expires, and the refresh token issued with it is never accepted in its place.\<close>

theorem token_roundtrip:
  assumes "sign_parse_law L (jp_secret p)" and "generate_token_pair L p now j1 j2 i = Inr (acc, rfr)"
  shows "(t < j_date L (now + jp_access_ttl p) \<longrightarrow> validate_token L p t acc = Inr i) \<and>
    (t < j_date L (now + jp_refresh_ttl p) \<longrightarrow>
       validate_token L p t rfr = Inl (auth_err ''token is not an access token''))"
  using issued_tokens [OF assms] by blast

text \<open>A library that signs the two tokens of one login.\<close>

definition demo_claims :: "string \<Rightarrow> string \<Rightarrow> int \<Rightarrow> claims" where
  "demo_claims ty jti ex =
     \<lparr>c_subject = ''u1'', c_issued_at = 0, c_expires_at = ex, c_jti = jti, c_email = [],
      c_full_name = [], c_roles = [''User''], c_tenant = [], c_source = [], c_type = ty\<rparr>"

definition demo_jwt :: jwt_lib where
  "demo_jwt =
     (let a = demo_claims ''access'' ''a'' 50; r = demo_claims ''refresh'' ''r'' 90
      in \<lparr>j_sign = (\<lambda>k c. if c = a then Some ''A'' else if c = r then Some ''R'' else None),
          j_is_hmac = (\<lambda>tok. True),
          j_parse = (\<lambda>k t tok. if tok = ''A'' \<and> t < 50 then Some a
                               else if tok = ''R'' \<and> t < 90 then Some r else None),
          j_date = (\<lambda>t. t)\<rparr>)"

definition demo_provider :: jwt_provider where
  "demo_provider = new_jwt_provider ''key'' 50 90"

definition demo_identity :: identity where
  "demo_identity = zero_identity\<lparr>i_user_id := ''u1'', i_roles := [''User'']\<rparr>"

lemma demo_sign_parse: "sign_parse_law demo_jwt ''key''"
  by (auto simp: sign_parse_law_def demo_jwt_def demo_claims_def Let_def split: if_splits)

lemma demo_stable_parse: "stable_parse demo_jwt ''key''"
  by (auto simp: stable_parse_def demo_jwt_def Let_def split: if_splits)

theorem token_roundtrip_witness:
  "validate_token demo_jwt demo_provider 10 ''A'' = Inr demo_identity \<and>
   validate_token demo_jwt demo_provider 10 ''R'' = Inl (auth_err ''token is not an access token'')"
proof -
  have g: "generate_token_pair demo_jwt demo_provider 0 ''a'' ''r'' demo_identity = Inr (''A'', ''R'')"
    by code_simp
  have "jp_secret demo_provider = ''key''" "jp_access_ttl demo_provider = 50"
    "jp_refresh_ttl demo_provider = 90" "j_date demo_jwt = (\<lambda>t. t)"
    by (simp_all add: demo_provider_def new_jwt_provider_def demo_jwt_def Let_def)
  with token_roundtrip [OF _ g, of 10] demo_sign_parse show ?thesis by simp
qed

text \<open>C16: Refresh-token rotation: in any sequence of refreshes on one provider, a token that was
  exchanged once is refused ever after.\<close>

theorem refresh_single_use:
  assumes "stable_parse L (jp_secret p)" and "i < j" and "j < length cs"
    and "rc_token (cs ! i) = rc_token (cs ! j)" and "fst (refresh_run L cs p) ! i = Inr ar"
  shows "\<exists>e. fst (refresh_run L cs p) ! j = Inl e"
  using assms by (rule refresh_run_single_use)

definition demo_calls :: "refresh_call list" where
  "demo_calls = [\<lparr>rc_now = 0, rc_j1 = ''a'', rc_j2 = ''r'', rc_token = ''R''\<rparr>,
                 \<lparr>rc_now = 5, rc_j1 = ''x'', rc_j2 = ''y'', rc_token = ''R''\<rparr>]"

theorem refresh_single_use_witness:
  "fst (refresh_run demo_jwt demo_calls demo_provider) ! 0 = Inr (''A'', ''R'') \<and>
   (\<exists>e. fst (refresh_run demo_jwt demo_calls demo_provider) ! 1 = Inl e)"
proof -
  have k: "jp_secret demo_provider = ''key''"
    by (simp add: demo_provider_def new_jwt_provider_def)
  have r: "fst (refresh_run demo_jwt demo_calls demo_provider) ! 0 = Inr (''A'', ''R'')"
    by code_simp
  have "length demo_calls = 2" "rc_token (demo_calls ! 0) = rc_token (demo_calls ! 1)"
    by (simp_all add: demo_calls_def)
  with refresh_single_use [OF _ _ _ _ r, of 1] demo_stable_parse k r show ?thesis by simp
qed

end
