(* ===== verification/Safety.thy ===== *)
theory Safety
  imports Cache Auth
begin

text \<open>
  The agent safety layer (\<open>agent/safety/safety.go\<close>): the approval evaluation with its fixed order and
  fail-closed end, the sliding-window rate limit over a cache store, the token budget and the tool
  allowlist.
\<close>

section \<open>Policy\<close>

record rate_limit =
  rl_per_minute :: int
  rl_scope :: string

record safety_policy =
  sp_auto :: "string list"
  sp_require :: "string list"
  sp_always :: "string list"
  sp_max_bulk :: int
  sp_roles :: "(string \<times> string list) list"
  sp_rate :: rate_limit
  sp_budget :: int
  sp_allowlist :: "string list"

datatype approval_reason = AlwaysReason | BulkReason | RoleReason | RequireReason

record approval =
  ap_required :: bool
  ap_reason :: "approval_reason option"
  ap_count :: int

record tool_call =
  tc_verb :: string
  tc_tool :: string
  tc_args :: row
  tc_count :: int

definition new_layer :: "safety_policy \<Rightarrow> safety_policy" where
  "new_layer p =
     (let p = (if sp_max_bulk p = 0 then p\<lparr>sp_max_bulk := 5\<rparr> else p);
          p = (if rl_per_minute (sp_rate p) = 0 then p\<lparr>sp_rate := (sp_rate p)\<lparr>rl_per_minute := 60\<rparr>\<rparr> else p)
      in if rl_scope (sp_rate p) = [] then p\<lparr>sp_rate := (sp_rate p)\<lparr>rl_scope := ''user''\<rparr>\<rparr> else p)"

section \<open>Approval\<close>

definition contains_fold :: "string list \<Rightarrow> string \<Rightarrow> bool" where
  "contains_fold xs v = list_ex (\<lambda>s. equal_fold s v) xs"

definition verb_for :: "string \<Rightarrow> row \<Rightarrow> string" where
  "verb_for tool args =
     (if has_prefix tool ''execute_action_''
      then (let a = str_of (map_of args ''action'') in if a \<noteq> [] then to_lower a else ''execute_action'')
      else case index_byte tool (CHR ''_'') of
             Some i \<Rightarrow>
               if 0 < i then (let verb = take i tool in if verb = ''get'' then ''read'' else verb) else tool
           | None \<Rightarrow> tool)"

definition role_overrides :: "identity \<Rightarrow> (string \<times> string list) list \<Rightarrow> string \<Rightarrow> bool" where
  "role_overrides i m verb =
     list_ex (\<lambda>role. case map_of m role of
                       None \<Rightarrow> False
                     | Some verbs \<Rightarrow> verbs = [] \<or> contains_fold verbs verb) (i_roles i)"

definition bulk_count :: "row \<Rightarrow> int" where
  "bulk_count args =
     fold (\<lambda>(k, v) largest. case v of
             VList xs \<Rightarrow> if largest < int (length xs) then int (length xs) else largest
           | _ \<Rightarrow> largest) args 0"

definition requires_approval_with_reason :: "safety_policy \<Rightarrow> identity \<Rightarrow> tool_call \<Rightarrow> approval" where
  "requires_approval_with_reason p i info =
     (let verb = (if tc_verb info = [] then verb_for (tc_tool info) (tc_args info) else tc_verb info) in
      if has_prefix (tc_tool info) ''delete_'' \<or> contains_fold (sp_always p) verb
      then \<lparr>ap_required = True, ap_reason = Some AlwaysReason, ap_count = tc_count info\<rparr>
      else let count = (if tc_count info = 0 then bulk_count (tc_args info) else tc_count info) in
      if 0 < sp_max_bulk p \<and> sp_max_bulk p < count
      then \<lparr>ap_required = True, ap_reason = Some BulkReason, ap_count = count\<rparr>
      else if role_overrides i (sp_roles p) verb
      then \<lparr>ap_required = True, ap_reason = Some RoleReason, ap_count = count\<rparr>
      else if contains_fold (sp_require p) verb
      then \<lparr>ap_required = True, ap_reason = Some RequireReason, ap_count = count\<rparr>
      else if contains_fold (sp_auto p) verb
      then \<lparr>ap_required = False, ap_reason = None, ap_count = count\<rparr>
      else \<lparr>ap_required = True, ap_reason = Some RequireReason, ap_count = count\<rparr>)"

definition requires_approval :: "safety_policy \<Rightarrow> identity \<Rightarrow> string \<Rightarrow> row \<Rightarrow> bool" where
  "requires_approval p i tool args =
     ap_required (requires_approval_with_reason p i
       \<lparr>tc_verb = verb_for tool args, tc_tool = tool, tc_args = args, tc_count = 0\<rparr>)"

section \<open>Token budget and allowlist\<close>

text \<open>The usage source is optional; it answers with the total tokens of a key.\<close>

definition check_token_budget ::
    "safety_policy \<Rightarrow> (string \<Rightarrow> int) option \<Rightarrow> string \<Rightarrow> int \<Rightarrow> gerror + unit" where
  "check_token_budget p usage sid projected =
     (case usage of
        None \<Rightarrow> Inr ()
      | Some u \<Rightarrow>
          if sp_budget p \<le> 0 then Inr ()
          else if sp_budget p < u sid + projected
          then Inl (validation_err ''agent token budget exceeded for session''
                 [(''session_id'', VStr sid), (''budget'', VInt (sp_budget p))])
          else Inr ())"

definition is_tool_allowed :: "safety_policy \<Rightarrow> string \<Rightarrow> bool" where
  "is_tool_allowed p tool = (sp_allowlist p = [] \<or> contains_fold (sp_allowlist p) tool)"

definition filter_tools :: "safety_policy \<Rightarrow> string list \<Rightarrow> string list" where
  "filter_tools p names = (if sp_allowlist p = [] then names else filter (is_tool_allowed p) names)"

section \<open>Rate limit\<close>

text \<open>
  The stamps are stored as a JSON array of integers. Nothing else is stored under the limiter's keys,
  so decoding is defined on what encoding produces and yields no stamps otherwise.
\<close>

definition encode_stamps :: "int list \<Rightarrow> string" where
  "encode_stamps ts = ''['' @ join_with '','' (map itoa ts) @ '']''"

fun decode_ints :: "string list \<Rightarrow> int list option" where
  "decode_ints [] = Some []"
| "decode_ints (s # ss) =
     (case atoi s of None \<Rightarrow> None
      | Some i \<Rightarrow> (case decode_ints ss of None \<Rightarrow> None | Some is \<Rightarrow> Some (i # is)))"

definition decode_stamps :: "string \<Rightarrow> int list" where
  "decode_stamps s =
     (if has_prefix s ''['' \<and> has_suffix s '']'' \<and> 2 \<le> length s
      then (case decode_ints (split_on (CHR '','') (butlast (tl s))) of Some ts \<Rightarrow> ts | None \<Rightarrow> [])
      else [])"

definition unix_milli :: "int \<Rightarrow> int" where
  "unix_milli t = (t - 62135596800000000000) div 1000000"

definition with_session :: "ctx \<Rightarrow> string \<Rightarrow> ctx" where
  "with_session cx sid = cx\<lparr>cx_session := sid\<rparr>"

definition session_from_context :: "ctx \<Rightarrow> string" where
  "session_from_context cx = cx_session cx"

definition rate_key :: "safety_policy \<Rightarrow> ctx \<Rightarrow> identity \<Rightarrow> string option" where
  "rate_key p cx i =
     (let kid = (if rl_scope (sp_rate p) = ''session'' \<and> session_from_context cx \<noteq> []
                 then session_from_context cx else i_user_id i)
      in if kid = [] then None else Some (''ratelimit:'' @ rl_scope (sp_rate p) @ '':'' @ kid))"

definition rate_limited :: "safety_policy \<Rightarrow> gerror" where
  "rate_limited p = validation_err ''agent rate limit exceeded''
     [(''limit'', VInt (rl_per_minute (sp_rate p))), (''window'', VStr ''1m0s'')]"

text \<open>
  The store is given by its \<open>Get\<close> and \<open>Set\<close>; \<open>now\<close> is the clock reading of the call, from which the
  code takes the cutoff, the new stamp and the expiry.
\<close>

definition check_rate_limit ::
    "(int \<Rightarrow> string \<Rightarrow> 'c \<Rightarrow> string option \<times> 'c) \<Rightarrow> (int \<Rightarrow> string \<Rightarrow> string \<Rightarrow> int \<Rightarrow> 'c \<Rightarrow> 'c)
     \<Rightarrow> safety_policy \<Rightarrow> int \<Rightarrow> ctx \<Rightarrow> identity \<Rightarrow> ('c, gerror, unit) step" where
  "check_rate_limit get put p now cx i = (\<lambda>c.
     if rl_per_minute (sp_rate p) \<le> 0 then (Inr (), c)
     else case rate_key p cx i of
       None \<Rightarrow> (Inr (), c)
     | Some key \<Rightarrow>
         (let cutoff = unix_milli (now - minute);
              (raw, c) = get now key c;
              stamps = (case raw of Some s \<Rightarrow> decode_stamps s | None \<Rightarrow> []);
              valid = filter (\<lambda>t. cutoff < t) stamps
          in if rl_per_minute (sp_rate p) \<le> int (length valid) then (Inl (rate_limited p), c)
             else (Inr (), put now key (encode_stamps (valid @ [unix_milli now])) minute c)))"

section \<open>Encoding\<close>

definition int64 :: "int \<Rightarrow> bool" where
  "int64 i \<longleftrightarrow> - (2 ^ 63) \<le> i \<and> i < 2 ^ 63"

lemma decode_ints_itoa: "\<forall>t \<in> set ts. int64 t \<Longrightarrow> decode_ints (map itoa ts) = Some ts"
  by (induction ts) (auto simp: atoi_itoa int64_def)

lemma decode_encode:
  assumes "ts \<noteq> []" and "\<forall>t \<in> set ts. int64 t"
  shows "decode_stamps (encode_stamps ts) = ts"
proof -
  have "split_on (CHR '','') (join_with [CHR '',''] (map itoa ts)) = map itoa ts"
    using assms(1) itoa_no_comma by (intro split_join) auto
  moreover have "has_suffix (encode_stamps ts) '']''" "has_prefix (encode_stamps ts) ''[''"
    by (simp_all add: encode_stamps_def has_suffix_def has_prefix_def)
  ultimately show ?thesis
    using assms(2) by (simp add: decode_stamps_def encode_stamps_def butlast_append decode_ints_itoa)
qed

lemma unix_milli_mono: "s \<le> t \<Longrightarrow> unix_milli s \<le> unix_milli t"
  by (simp add: unix_milli_def zdiv_mono1)

section \<open>The limiter as a function of its stamps\<close>

text \<open>
  What the limiter decides: the stamps of the last minute are kept, and a call passes when there are
  fewer of them than the limit.
\<close>

definition recent :: "int \<Rightarrow> int list \<Rightarrow> int list" where
  "recent now stamps = filter (\<lambda>t. unix_milli (now - minute) < t) stamps"

definition limiter_spec :: "int \<Rightarrow> int \<Rightarrow> int list \<Rightarrow> bool \<times> int list" where
  "limiter_spec limit now stamps =
     (if limit \<le> int (length (recent now stamps)) then (False, stamps)
      else (True, recent now stamps @ [unix_milli now]))"

fun spec_run :: "int \<Rightarrow> int list \<Rightarrow> int list \<Rightarrow> bool list" where
  "spec_run limit stamps [] = []"
| "spec_run limit stamps (t # ts) =
     (let (ok, stamps') = limiter_spec limit t stamps in ok # spec_run limit stamps' ts)"

text \<open>The stamps of the calls that pass within the minute that ends at \<open>u\<close>.\<close>

definition passed_within :: "int \<Rightarrow> int list \<Rightarrow> bool list \<Rightarrow> int list" where
  "passed_within u ts oks =
     map fst (filter (\<lambda>(t, ok). ok \<and> t \<le> u \<and> unix_milli (u - minute) < unix_milli t) (zip ts oks))"

lemma recent_mono: "t \<le> u \<Longrightarrow> recent u (recent t xs) = recent u xs"
  using unix_milli_mono [of "t - minute" "u - minute"] by (auto simp: recent_def intro: filter_cong)

lemma recent_append: "recent u (xs @ ys) = recent u xs @ recent u ys"
  by (simp add: recent_def)

lemma length_recent: "length (recent u xs) \<le> length xs"
  by (simp add: recent_def)

lemma passed_within_later: "sorted ts \<Longrightarrow> u < hd ts \<Longrightarrow> passed_within u ts oks = []"
proof (induction ts arbitrary: oks)
  case (Cons t ts)
  then show ?case by (cases oks; cases ts) (auto simp: passed_within_def)
qed (simp add: passed_within_def)

lemma spec_run_bound:
  "sorted ts \<Longrightarrow> 0 \<le> limit \<Longrightarrow> int (length (recent u stamps)) \<le> limit \<Longrightarrow>
     int (length (recent u stamps) + length (passed_within u ts (spec_run limit stamps ts))) \<le> limit"
proof (induction ts arbitrary: stamps)
  case Nil
  then show ?case by (simp add: passed_within_def)
next
  case (Cons t ts)
  show ?case
  proof (cases "u < t")
    case True
    then show ?thesis using Cons.prems passed_within_later [of "t # ts" u] by simp
  next
    case tu: False
    show ?thesis
    proof (cases "limit \<le> int (length (recent t stamps))")
      case True
      then show ?thesis using Cons by (simp add: limiter_spec_def passed_within_def)
    next
      case False
      let ?s = "recent t stamps @ [unix_milli t]"
      have r: "recent u ?s = recent u stamps @ recent u [unix_milli t]"
        using tu by (simp add: recent_append recent_mono)
      have "int (length (recent u ?s)) \<le> limit"
        using False length_recent [of u ?s] by simp
      then have "int (length (recent u ?s) + length (passed_within u ts (spec_run limit ?s ts))) \<le> limit"
        using Cons.IH [of ?s] Cons.prems by simp
      then show ?thesis
        using False tu unfolding r by (simp add: limiter_spec_def passed_within_def recent_def split: if_splits)
    qed
  qed
qed

section \<open>The limiter over a cache store\<close>

definition stamps_of :: "string option \<Rightarrow> int list" where
  "stamps_of raw = (case raw of Some s \<Rightarrow> decode_stamps s | None \<Rightarrow> [])"

text \<open>The outcomes of consecutive calls of one caller at the clock readings \<open>ts\<close>.\<close>

fun rate_run ::
    "(int \<Rightarrow> string \<Rightarrow> 'c \<Rightarrow> string option \<times> 'c) \<Rightarrow> (int \<Rightarrow> string \<Rightarrow> string \<Rightarrow> int \<Rightarrow> 'c \<Rightarrow> 'c)
     \<Rightarrow> safety_policy \<Rightarrow> ctx \<Rightarrow> identity \<Rightarrow> int list \<Rightarrow> 'c \<Rightarrow> bool list" where
  "rate_run get put p cx i [] c = []"
| "rate_run get put p cx i (t # ts) c =
     (let (r, c') = check_rate_limit get put p t cx i c in (r = Inr ()) # rate_run get put p cx i ts c')"

lemma check_rate_limit_unfold:
  assumes "0 < rl_per_minute (sp_rate p)" and "rate_key p cx i = Some key"
  shows "check_rate_limit get put p now cx i c =
    (let v = recent now (stamps_of (fst (get now key c)))
     in if rl_per_minute (sp_rate p) \<le> int (length v) then (Inl (rate_limited p), snd (get now key c))
        else (Inr (), put now key (encode_stamps (v @ [unix_milli now])) minute (snd (get now key c))))"
  using assms by (simp add: check_rate_limit_def recent_def stamps_of_def Let_def split: prod.splits)

context cache_contract begin

definition limiter_view :: "string \<Rightarrow> int \<Rightarrow> 'c \<Rightarrow> int list \<Rightarrow> bool" where
  "limiter_view key since c stamps \<longleftrightarrow>
     st_ok c \<and> (\<forall>u \<ge> since. recent u (stamps_of (fst (st_get u key c))) = recent u stamps) \<and>
     (\<forall>t \<in> set stamps. int64 t \<and> t \<le> unix_milli since)"

lemma view_rejected:
  assumes "limiter_view key since c stamps" and "since \<le> now"
  shows "limiter_view key now (snd (st_get now key c)) stamps"
  using assms unix_milli_mono [OF assms(2)] by (auto simp: limiter_view_def ok_get get_get)

lemma view_passed:
  assumes view: "limiter_view key since c stamps" and "since \<le> now" and "0 < now" and "int64 (unix_milli now)"
  shows "limiter_view key now
    (st_set now key (encode_stamps (recent now stamps @ [unix_milli now])) minute (snd (st_get now key c)))
    (recent now stamps @ [unix_milli now])"
    (is "limiter_view key now ?c ?s")
  unfolding limiter_view_def
proof (intro conjI allI impI)
  have ok: "st_ok (snd (st_get now key c))" using view by (simp add: limiter_view_def ok_get)
  then show "st_ok ?c" by (rule ok_set)
  have late: "\<forall>t \<in> set stamps. int64 t \<and> t \<le> unix_milli now"
    using view unix_milli_mono [OF assms(2)] by (auto simp: limiter_view_def)
  then show bound: "\<forall>t \<in> set ?s. int64 t \<and> t \<le> unix_milli now"
    using assms(4) by (auto simp: recent_def)
  fix u assume u: "now \<le> u"
  show "recent u (stamps_of (fst (st_get u key ?c))) = recent u ?s"
  proof (cases "u \<le> now + minute")
    case True
    then show ?thesis using bound by (simp add: set_get ok stamps_of_def decode_encode)
  next
    case False
    then have "unix_milli now \<le> unix_milli (u - minute)" by (intro unix_milli_mono) simp
    then have "recent u ?s = []" using bound by (fastforce simp: recent_def filter_empty_conv)
    moreover have "fst (st_get u key ?c) = None"
      using False ok assms(3) by (intro set_get_expired) (simp_all add: minute_def)
    ultimately show ?thesis by (simp add: stamps_of_def recent_def)
  qed
qed

lemma rate_run_refines:
  assumes "0 < rl_per_minute (sp_rate p)" and "rate_key p cx i = Some key"
  shows "sorted (since # ts) \<Longrightarrow> 0 < since \<Longrightarrow> \<forall>t \<in> set ts. int64 (unix_milli t) \<Longrightarrow>
    limiter_view key since c stamps \<Longrightarrow>
    rate_run st_get st_set p cx i ts c = spec_run (rl_per_minute (sp_rate p)) stamps ts"
proof (induction ts arbitrary: since c stamps)
  case (Cons t ts)
  from Cons.prems have t: "since \<le> t" "0 < t" "int64 (unix_milli t)" "sorted (t # ts)" by auto
  have same: "recent t (stamps_of (fst (st_get t key c))) = recent t stamps"
    using Cons.prems(4) t(1) by (simp add: limiter_view_def)
  show ?case
  proof (cases "rl_per_minute (sp_rate p) \<le> int (length (recent t stamps))")
    case True
    then show ?thesis
      using Cons.IH [OF t(4,2)] Cons.prems view_rejected [OF Cons.prems(4) t(1)]
      by (simp add: check_rate_limit_unfold [OF assms] same limiter_spec_def)
  next
    case False
    then show ?thesis
      using Cons.IH [OF t(4,2)] Cons.prems view_passed [OF Cons.prems(4) t(1,2,3)]
      by (simp add: check_rate_limit_unfold [OF assms] same limiter_spec_def)
  qed
qed simp

end

section \<open>Which calls need no approval\<close>

lemma bulk_count_fold:
  "fold (\<lambda>(k, v) largest. case v of
             VList xs \<Rightarrow> if largest < int (length xs) then int (length xs) else largest
           | _ \<Rightarrow> largest) args n \<le> m \<longleftrightarrow>
     n \<le> m \<and> (\<forall>k xs. (k, VList xs) \<in> set args \<longrightarrow> int (length xs) \<le> m)"
proof (induction args arbitrary: n)
  case (Cons kv args)
  then show ?case by (cases kv; cases "snd kv") (auto split: if_splits)
qed simp

lemma bulk_count_le:
  "bulk_count args \<le> m \<longleftrightarrow> 0 \<le> m \<and> (\<forall>k xs. (k, VList xs) \<in> set args \<longrightarrow> int (length xs) \<le> m)"
  unfolding bulk_count_def by (rule bulk_count_fold)

lemma contains_fold_subset: "set xs \<subseteq> set ys \<Longrightarrow> contains_fold xs v \<Longrightarrow> contains_fold ys v"
  by (auto simp: contains_fold_def list_ex_iff)

lemma verb_for_nonempty: "tool \<noteq> [] \<Longrightarrow> verb_for tool args \<noteq> []"
  by (auto simp: verb_for_def Let_def to_lower_def split: option.splits)

text \<open>A policy is at least as strict as another when it asks in every case the other asks.\<close>

definition stricter :: "safety_policy \<Rightarrow> safety_policy \<Rightarrow> bool" where
  "stricter p q \<longleftrightarrow>
     set (sp_always q) \<subseteq> set (sp_always p) \<and> set (sp_require q) \<subseteq> set (sp_require p) \<and>
     set (sp_auto p) \<subseteq> set (sp_auto q) \<and>
     (0 < sp_max_bulk q \<longrightarrow> 0 < sp_max_bulk p \<and> sp_max_bulk p \<le> sp_max_bulk q) \<and>
     (\<forall>role vs. map_of (sp_roles q) role = Some vs \<longrightarrow>
        (\<exists>ws. map_of (sp_roles p) role = Some ws \<and> (ws = [] \<or> vs \<noteq> [] \<and> set vs \<subseteq> set ws)))"

lemma role_overrides_iff:
  "role_overrides i m verb \<longleftrightarrow>
     (\<exists>role \<in> set (i_roles i). \<exists>vs. map_of m role = Some vs \<and> (vs = [] \<or> contains_fold vs verb))"
  by (auto simp: role_overrides_def list_ex_iff split: option.splits)

lemma stricter_roles:
  assumes "stricter p q" and "role_overrides i (sp_roles q) verb"
  shows "role_overrides i (sp_roles p) verb"
proof -
  from assms(2) obtain role vs where r: "role \<in> set (i_roles i)" "map_of (sp_roles q) role = Some vs"
      "vs = [] \<or> contains_fold vs verb"
    by (auto simp: role_overrides_iff)
  from assms(1) r(2) obtain ws where "map_of (sp_roles p) role = Some ws" "ws = [] \<or> vs \<noteq> [] \<and> set vs \<subseteq> set ws"
    unfolding stricter_def by blast
  then show ?thesis
    using r contains_fold_subset [of vs ws verb] unfolding role_overrides_iff by blast
qed

lemma approval_cases:
  "ap_required (requires_approval_with_reason p i info) \<longleftrightarrow>
     (let verb = (if tc_verb info = [] then verb_for (tc_tool info) (tc_args info) else tc_verb info);
          count = (if tc_count info = 0 then bulk_count (tc_args info) else tc_count info)
      in has_prefix (tc_tool info) ''delete_'' \<or> contains_fold (sp_always p) verb \<or>
         (0 < sp_max_bulk p \<and> sp_max_bulk p < count) \<or> role_overrides i (sp_roles p) verb \<or>
         contains_fold (sp_require p) verb \<or> \<not> contains_fold (sp_auto p) verb)"
  by (simp add: requires_approval_with_reason_def Let_def)

lemma requires_approval_cases:
  "requires_approval p i tool args \<longleftrightarrow>
     has_prefix tool ''delete_'' \<or> contains_fold (sp_always p) (verb_for tool args) \<or>
     (0 < sp_max_bulk p \<and> sp_max_bulk p < bulk_count args) \<or>
     role_overrides i (sp_roles p) (verb_for tool args) \<or>
     contains_fold (sp_require p) (verb_for tool args) \<or> \<not> contains_fold (sp_auto p) (verb_for tool args)"
  by (simp add: requires_approval_def approval_cases Let_def)


definition demo_policy :: safety_policy where
  "demo_policy = new_layer
     \<lparr>sp_auto = [''read'', ''search'', ''list'', ''delete''], sp_require = [''create'', ''update''], sp_always = [],
      sp_max_bulk = 0, sp_roles = [(''Intern'', [])],
      sp_rate = \<lparr>rl_per_minute = 2, rl_scope = []\<rparr>, sp_budget = 100, sp_allowlist = []\<rparr>"

definition demo_caller :: "string list \<Rightarrow> identity" where
  "demo_caller roles = zero_identity\<lparr>i_user_id := ''u1'', i_roles := roles\<rparr>"


text \<open>tightening a policy never drops an approval: whatever asks for approval under a policy also asks
  under every stricter one, for every caller, tool and argument.\<close>

theorem approval_monotone:
  assumes "stricter p q" and "requires_approval q i tool args"
  shows "requires_approval p i tool args"
  using assms(2) contains_fold_subset [of "sp_always q" "sp_always p"]
    contains_fold_subset [of "sp_require q" "sp_require p"] contains_fold_subset [of "sp_auto p" "sp_auto q"]
    assms(1) stricter_roles [OF assms(1)]
  unfolding requires_approval_cases by (auto simp: stricter_def)

theorem approval_monotone_witness:
  "requires_approval (demo_policy\<lparr>sp_max_bulk := 1\<rparr>) (demo_caller []) ''create_note'' []"
proof (rule approval_monotone)
  show "stricter (demo_policy\<lparr>sp_max_bulk := 1\<rparr>) demo_policy"
    by (simp add: stricter_def demo_policy_def new_layer_def Let_def)
  show "requires_approval demo_policy (demo_caller []) ''create_note'' []" by code_simp
qed

section \<open>The limiter over the memory cache\<close>

lemma limiter_view_fresh:
  assumes "lru_ok c" and "map_of (l_items c) key = None"
  shows "lru.limiter_view key since c []"
  using assms by (simp add: lru.limiter_view_def lru_get_def stamps_of_def recent_def)

lemma spec_run_append:
  "\<exists>st. set st \<subseteq> set stamps \<union> unix_milli ` set ts \<and>
     spec_run limit stamps (ts @ us) = spec_run limit stamps ts @ spec_run limit st us"
proof (induction ts arbitrary: stamps)
  case (Cons t ts)
  let ?s = "snd (limiter_spec limit t stamps)"
  have "set ?s \<subseteq> insert (unix_milli t) (set stamps)" by (auto simp: limiter_spec_def recent_def)
  moreover obtain st where st: "set st \<subseteq> set ?s \<union> unix_milli ` set ts"
      "spec_run limit ?s (ts @ us) = spec_run limit ?s ts @ spec_run limit st us"
    using Cons.IH by blast
  ultimately have "set st \<subseteq> set stamps \<union> unix_milli ` set (t # ts)" by auto
  moreover have "spec_run limit stamps ((t # ts) @ us) = spec_run limit stamps (t # ts) @ spec_run limit st us"
    using st(2) by (simp add: split_beta)
  ultimately show ?case by blast
qed auto

lemma length_spec_run [simp]: "length (spec_run limit stamps ts) = length ts"
  by (induction ts arbitrary: stamps) (auto simp: split_beta)


text \<open>The clock readings of the examples: milliseconds after the Unix epoch.\<close>

definition ms_at :: "int \<Rightarrow> int" where
  "ms_at m = 62135596800000000000 + m * 1000000"


text \<open>the limiter always lets a caller through again. Whatever the caller did before, a call made a
  minute or more after the last of the earlier ones passes.\<close>

theorem rate_limit_recovers:
  assumes "lru_ok c" and "map_of (l_items c) key = None" and "rate_key p cx i = Some key"
    and "0 < rl_per_minute (sp_rate p)"
    and "sorted (t0 # ts @ [u])" and "0 < t0" and "\<forall>t \<in> set (ts @ [u]). int64 (unix_milli t)"
    and "\<forall>t \<in> set ts. t + minute \<le> u"
  shows "last (rate_run lru_get lru_set p cx i (ts @ [u]) c)"
proof -
  let ?l = "rl_per_minute (sp_rate p)"
  have run: "rate_run lru_get lru_set p cx i (ts @ [u]) c = spec_run ?l [] (ts @ [u])"
    using lru.rate_run_refines [OF assms(4,3,5,6,7)] limiter_view_fresh [OF assms(1,2)] by blast
  obtain st where st: "set st \<subseteq> unix_milli ` set ts"
      "spec_run ?l [] (ts @ [u]) = spec_run ?l [] ts @ spec_run ?l st [u]"
    using spec_run_append [of "[]" ts ?l "[u]"] by auto
  have "s \<le> unix_milli (u - minute)" if "s \<in> set st" for s
    using st(1) that assms(8) unix_milli_mono by fastforce
  then have "recent u st = []" by (auto simp: recent_def filter_empty_conv not_less)
  then show ?thesis using assms(4) by (simp add: run st(2) limiter_spec_def)
qed

theorem rate_limit_recovers_witness:
  "last (rate_run lru_get lru_set demo_policy background_ctx (demo_caller []) (map ms_at [100, 200, 300] @ [ms_at 60300])
     (new_lru_store 0))"
proof (rule rate_limit_recovers)
  show "rate_key demo_policy background_ctx (demo_caller []) = Some ''ratelimit:user:u1''" by code_simp
  show "sorted (ms_at 0 # map ms_at [100, 200, 300] @ [ms_at 60300])" by (simp add: ms_at_def)
  show "0 < ms_at 0" by (simp add: ms_at_def)
  show "\<forall>t \<in> set (map ms_at [100, 200, 300] @ [ms_at 60300]). int64 (unix_milli t)"
    by (simp add: ms_at_def unix_milli_def int64_def)
  show "\<forall>t \<in> set (map ms_at [100, 200, 300]). t + minute \<le> ms_at 60300" by (simp add: ms_at_def minute_def)
  show "0 < rl_per_minute (sp_rate demo_policy)" by code_simp
  show "map_of (l_items (new_lru_store 0)) ''ratelimit:user:u1'' = None" by code_simp
qed (rule lru_ok_new)

end
