(* ===== verification/Gateway.thy ===== *)
theory Gateway
  imports Safety
begin

text \<open>
  The provider-agnostic chat types (\<open>agent/llm/llm.go\<close>) and the gateway over several providers
  (\<open>agent/llm/gateway.go\<close>): failover on 5xx errors, one circuit breaker per provider, and the token
  accounting that the safety layer's budget reads.
\<close>

section \<open>Chat types\<close>

record llm_call =
  lc_id :: string
  lc_name :: string
  lc_arguments :: string

record chat_message =
  cm_role :: string
  cm_content :: string
  cm_name :: string
  cm_call_id :: string
  cm_calls :: "llm_call list"

record tool_definition =
  td_name :: string
  td_description :: string
  td_parameters :: row

record json_format =
  jf_name :: string
  jf_schema :: row

text \<open>The temperature is a float64, \<open>m * 10 ^ e\<close>.\<close>

record chat_request =
  rq_model :: string
  rq_messages :: "chat_message list"
  rq_tools :: "tool_definition list"
  rq_temperature :: "int \<times> int"
  rq_max_tokens :: int
  rq_format :: "json_format option"

record token_usage =
  tu_prompt :: int
  tu_completion :: int
  tu_total :: int

definition no_usage :: token_usage where
  "no_usage = \<lparr>tu_prompt = 0, tu_completion = 0, tu_total = 0\<rparr>"

record chat_response =
  rs_content :: string
  rs_calls :: "llm_call list"
  rs_usage :: token_usage
  rs_finish :: string

record chat_chunk =
  ck_content :: string
  ck_calls :: "llm_call list"
  ck_finish :: string

record model_info =
  mi_name :: string
  mi_tools :: bool
  mi_structured :: bool

section \<open>Provider errors\<close>

text \<open>
  Errors of providers: \<open>*HTTPStatusError\<close> carries the status; the other constructors are those of
  \<^typ>\<open>gerror\<close> with causes of this type.
\<close>

datatype llm_error =
    HTTPStatusError int string
  | LlmOrjError error_code string row "llm_error option"
  | LlmStdError string "llm_error option"

fun to_gerror :: "llm_error \<Rightarrow> gerror" where
  "to_gerror (HTTPStatusError n m) = StdError (''llm provider returned HTTP '' @ itoa n @ '': '' @ m) None"
| "to_gerror (LlmOrjError c m d x) = OrjError c m d (map_option to_gerror x)"
| "to_gerror (LlmStdError m x) = StdError m (map_option to_gerror x)"

text \<open>\<open>errors.As(err, &h)\<close> for \<open>*HTTPStatusError\<close>.\<close>

fun as_http_status :: "llm_error \<Rightarrow> int option" where
  "as_http_status (HTTPStatusError n m) = Some n"
| "as_http_status (LlmOrjError c m d x) = (case x of None \<Rightarrow> None | Some e \<Rightarrow> as_http_status e)"
| "as_http_status (LlmStdError m x) = (case x of None \<Rightarrow> None | Some e \<Rightarrow> as_http_status e)"

definition is_failover_error :: "llm_error \<Rightarrow> bool" where
  "is_failover_error e = (case as_http_status e of Some n \<Rightarrow> 500 \<le> n | None \<Rightarrow> False)"

section \<open>Providers\<close>

text \<open>
  A provider's calls run in the outside world \<open>'s\<close>; a stream is the list of its chunks.
\<close>

record 's provider =
  lp_chat :: "chat_request \<Rightarrow> ('s, llm_error, chat_response) step"
  lp_stream :: "chat_request \<Rightarrow> ('s, llm_error, chat_chunk list) step"
  lp_tools :: bool
  lp_structured :: bool
  lp_info :: model_info

section \<open>The circuit breaker\<close>

record breaker =
  br_threshold :: int
  br_cooldown :: int
  br_failures :: int
  br_open_until :: int

definition breaker_allow :: "int \<Rightarrow> breaker \<Rightarrow> bool" where
  "breaker_allow now b \<longleftrightarrow> \<not> now < br_open_until b"

definition record_failure :: "int \<Rightarrow> breaker \<Rightarrow> breaker" where
  "record_failure now b =
     (let b = b\<lparr>br_failures := br_failures b + 1\<rparr>
      in if br_threshold b \<le> br_failures b
         then b\<lparr>br_open_until := now + br_cooldown b, br_failures := 0\<rparr> else b)"

definition record_success :: "breaker \<Rightarrow> breaker" where
  "record_success b = b\<lparr>br_failures := 0\<rparr>"

section \<open>The gateway\<close>

record gateway =
  gw_threshold :: int
  gw_cooldown :: int
  gw_breakers :: "breaker list"
  gw_tokens :: "(string \<times> token_usage) list"

definition second :: int where "second = 1000000000"

text \<open>\<open>NewGatewayWithOptions\<close>: the number of providers, the primary included, and the options.\<close>

definition new_gateway :: "nat \<Rightarrow> int \<Rightarrow> int \<Rightarrow> gateway" where
  "new_gateway n threshold cooldown =
     (let th = (if threshold \<le> 0 then 3 else threshold);
          cd = (if cooldown \<le> 0 then 30 * second else cooldown)
      in \<lparr>gw_threshold = th, gw_cooldown = cd,
          gw_breakers = replicate n \<lparr>br_threshold = th, br_cooldown = cd, br_failures = 0, br_open_until = 0\<rparr>,
          gw_tokens = []\<rparr>)"

definition all_open :: llm_error where
  "all_open = LlmStdError ''llm: all providers are open by the circuit breaker'' None"

text \<open>
  The failover loop, over the providers with their breakers; \<open>call\<close> is the chat or stream call and
  \<open>clock\<close> reads the time of the world. A breaker whose provider is skipped or answers with another
  error than a failover error keeps its state.
\<close>

fun try_providers ::
    "('s \<Rightarrow> int) \<Rightarrow> ('s provider \<Rightarrow> ('s, llm_error, 'a) step) \<Rightarrow> 's provider list \<Rightarrow> breaker list
     \<Rightarrow> llm_error option \<Rightarrow> 's \<Rightarrow> (llm_error + 'a) \<times> breaker list \<times> 's" where
  "try_providers clock call (p # ps) (b # bs) last_err s =
     (if \<not> breaker_allow (clock s) b
      then let (r, bs', s') = try_providers clock call ps bs last_err s in (r, b # bs', s')
      else case call p s of
        (Inr a, s') \<Rightarrow> (Inr a, record_success b # bs, s')
      | (Inl e, s') \<Rightarrow>
          if \<not> is_failover_error e then (Inl e, b # bs, s')
          else let (r, bs', t) = try_providers clock call ps bs (Some e) s'
               in (r, record_failure (clock s') b # bs', t))"
| "try_providers clock call ps bs last_err s =
     (Inl (case last_err of Some e \<Rightarrow> e | None \<Rightarrow> all_open), bs, s)"

definition add_usage :: "token_usage \<Rightarrow> token_usage \<Rightarrow> token_usage" where
  "add_usage u v = \<lparr>tu_prompt = tu_prompt u + tu_prompt v, tu_completion = tu_completion u + tu_completion v,
     tu_total = tu_total u + tu_total v\<rparr>"

definition usage_for :: "gateway \<Rightarrow> string \<Rightarrow> token_usage" where
  "usage_for g key = (case map_of (gw_tokens g) key of Some u \<Rightarrow> u | None \<Rightarrow> no_usage)"

definition track :: "string \<Rightarrow> token_usage \<Rightarrow> gateway \<Rightarrow> gateway" where
  "track key u g =
     (if tu_total u = 0 then g
      else g\<lparr>gw_tokens := AList.update key (add_usage (usage_for g key) u) (gw_tokens g)\<rparr>)"

definition track_usage :: "string \<Rightarrow> token_usage \<Rightarrow> gateway \<Rightarrow> gateway" where
  "track_usage key u g = track key u g"

definition total_usage :: "gateway \<Rightarrow> token_usage" where
  "total_usage g = fold (\<lambda>(k, u) total. add_usage total u) (gw_tokens g) no_usage"

definition gw_chat ::
    "('s \<Rightarrow> int) \<Rightarrow> 's provider list \<Rightarrow> chat_request \<Rightarrow> gateway \<times> 's \<Rightarrow> (llm_error + chat_response) \<times> gateway \<times> 's" where
  "gw_chat clock ps rq = (\<lambda>(g, s).
     let (r, bs, s') = try_providers clock (\<lambda>p. lp_chat p rq) ps (gw_breakers g) None s;
         g' = g\<lparr>gw_breakers := bs\<rparr>
     in case r of
          Inr resp \<Rightarrow> (Inr resp, track [] (rs_usage resp) g', s')
        | Inl e \<Rightarrow> (Inl e, g', s'))"

definition gw_stream ::
    "('s \<Rightarrow> int) \<Rightarrow> 's provider list \<Rightarrow> chat_request \<Rightarrow> gateway \<times> 's \<Rightarrow> (llm_error + chat_chunk list) \<times> gateway \<times> 's" where
  "gw_stream clock ps rq = (\<lambda>(g, s).
     let (r, bs, s') = try_providers clock (\<lambda>p. lp_stream p rq) ps (gw_breakers g) None s
     in (r, g\<lparr>gw_breakers := bs\<rparr>, s'))"

definition gw_supports_tools :: "'s provider list \<Rightarrow> bool" where
  "gw_supports_tools ps = lp_tools (hd ps)"

definition gw_supports_structured :: "'s provider list \<Rightarrow> bool" where
  "gw_supports_structured ps = lp_structured (hd ps)"

definition gw_model_info :: "'s provider list \<Rightarrow> model_info" where
  "gw_model_info ps = lp_info (hd ps)"

section \<open>Failover\<close>

text \<open>
  \<open>passes ps bs s\<close>: the states and last errors reached after none of the given providers served the
  call, each one skipped by its open breaker or failing with a failover error.
\<close>

inductive passed_over ::
    "('s \<Rightarrow> int) \<Rightarrow> ('s provider \<Rightarrow> ('s, llm_error, 'a) step) \<Rightarrow> 's provider list \<Rightarrow> breaker list
     \<Rightarrow> llm_error option \<Rightarrow> 's \<Rightarrow> llm_error option \<Rightarrow> 's \<Rightarrow> bool" for clock call where
  none: "passed_over clock call [] [] l s l s"
| skipped: "\<not> breaker_allow (clock s) b \<Longrightarrow> passed_over clock call ps bs l s l' t \<Longrightarrow>
    passed_over clock call (p # ps) (b # bs) l s l' t"
| failed: "breaker_allow (clock s) b \<Longrightarrow> call p s = (Inl e, s') \<Longrightarrow> is_failover_error e \<Longrightarrow>
    passed_over clock call ps bs (Some e) s' l' t \<Longrightarrow> passed_over clock call (p # ps) (b # bs) l s l' t"

inductive_simps passed_over_Nil [simp]: "passed_over clock call [] bs l s l' t"

lemma passed_over_try:
  assumes "passed_over clock call ps bs l s l' t"
  shows "fst (try_providers clock call (ps @ qs) (bs @ cs) l s) = fst (try_providers clock call qs cs l' t) \<and>
    snd (snd (try_providers clock call (ps @ qs) (bs @ cs) l s)) = snd (snd (try_providers clock call qs cs l' t))"
  using assms by (induction rule: passed_over.induct) (auto split: prod.splits)

lemma passed_over_longest:
  assumes "length bs = length ps"
  shows "\<exists>k l' t. k \<le> length ps \<and> passed_over clock call (take k ps) (take k bs) l s l' t \<and>
    (k < length ps \<longrightarrow> breaker_allow (clock t) (bs ! k) \<and>
       (\<forall>e t'. call (ps ! k) t = (Inl e, t') \<longrightarrow> \<not> is_failover_error e))"
  using assms
proof (induction ps arbitrary: bs l s)
  case Nil
  then show ?case by simp
next
  case (Cons p ps)
  then obtain b cs where bs: "bs = b # cs" "length cs = length ps" by (cases bs) auto
  have step: ?case if "passed_over clock call (p # take k ps) (b # take k cs) l s l' t" "k \<le> length ps"
      "k < length ps \<longrightarrow> breaker_allow (clock t) (cs ! k) \<and>
         (\<forall>e t'. call (ps ! k) t = (Inl e, t') \<longrightarrow> \<not> is_failover_error e)" for k l' t
    using that by (intro exI [of _ "Suc k"] exI [of _ l'] exI [of _ t]) (simp add: bs)
  obtain r s' where c: "call p s = (r, s')" by (cases "call p s")
  consider (open_) "\<not> breaker_allow (clock s) b"
    | (fails) e where "breaker_allow (clock s) b" "r = Inl e" "is_failover_error e"
    | (stops) "breaker_allow (clock s) b" "\<forall>e. r = Inl e \<longrightarrow> \<not> is_failover_error e" by blast
  then show ?case
  proof cases
    case open_
    obtain k l' t where k: "k \<le> length ps" "passed_over clock call (take k ps) (take k cs) l s l' t"
      "k < length ps \<longrightarrow> breaker_allow (clock t) (cs ! k) \<and>
         (\<forall>e t'. call (ps ! k) t = (Inl e, t') \<longrightarrow> \<not> is_failover_error e)"
      using Cons.IH [OF bs(2)] by blast
    show ?thesis by (rule step [OF passed_over.skipped [OF open_ k(2)] k(1,3)])
  next
    case fails
    obtain k l' t where k: "k \<le> length ps" "passed_over clock call (take k ps) (take k cs) (Some e) s' l' t"
      "k < length ps \<longrightarrow> breaker_allow (clock t) (cs ! k) \<and>
         (\<forall>e t'. call (ps ! k) t = (Inl e, t') \<longrightarrow> \<not> is_failover_error e)"
      using Cons.IH [OF bs(2)] by blast
    show ?thesis
      using step [OF passed_over.failed [OF fails(1) _ fails(3) k(2)] k(1,3)] c fails(2) by blast
  next
    case stops
    then show ?thesis using c by (intro exI [of _ 0]) (auto simp: bs)
  qed
qed

text \<open>C32: failover. Of the providers, in their order, a maximal first part was skipped by open breakers or
  failed with an error of status 500 or more; the next one, whose breaker is not open, gave the answer of the
  gateway, a success or another error, and the providers after it were not called. When no provider is left
  the answer is the last failure, or that all providers are open.\<close>

theorem gateway_failover:
  assumes "length bs = length ps" and "try_providers clock call ps bs None s = (r, bs', t')"
  shows "\<exists>k l t. passed_over clock call (take k ps) (take k bs) None s l t \<and>
    (k < length ps \<and> breaker_allow (clock t) (bs ! k) \<and> call (ps ! k) t = (r, t') \<and>
       (\<forall>e. r = Inl e \<longrightarrow> \<not> is_failover_error e) \<or>
     k = length ps \<and> t' = t \<and> r = Inl (case l of Some e \<Rightarrow> e | None \<Rightarrow> all_open))"
proof -
  obtain k l t where k: "k \<le> length ps" "passed_over clock call (take k ps) (take k bs) None s l t"
    "k < length ps \<Longrightarrow> breaker_allow (clock t) (bs ! k)"
    "\<And>e t'. k < length ps \<Longrightarrow> call (ps ! k) t = (Inl e, t') \<Longrightarrow> \<not> is_failover_error e"
    using passed_over_longest [OF assms(1)] by blast
  have same: "r = fst (try_providers clock call (drop k ps) (drop k bs) l t)"
      "t' = snd (snd (try_providers clock call (drop k ps) (drop k bs) l t))"
    using passed_over_try [OF k(2), of "drop k ps" "drop k bs"] assms(2) by simp_all
  show ?thesis
  proof (cases "k < length ps")
    case False
    then have "k = length ps \<and> t' = t \<and> r = Inl (case l of Some e \<Rightarrow> e | None \<Rightarrow> all_open)"
      using same k(1) by simp
    then show ?thesis using k(2) by blast
  next
    case True
    then have d: "drop k ps = ps ! k # drop (Suc k) ps" "drop k bs = bs ! k # drop (Suc k) bs"
      using assms(1) by (simp_all add: Cons_nth_drop_Suc)
    obtain r0 s0 where c: "call (ps ! k) t = (r0, s0)" by (cases "call (ps ! k) t")
    have "fst (try_providers clock call (drop k ps) (drop k bs) l t) = r0 \<and>
        snd (snd (try_providers clock call (drop k ps) (drop k bs) l t)) = s0"
      using k(3,4) [OF True] c by (cases r0) (simp_all add: d)
    then have "r = r0 \<and> t' = s0" using same by simp
    moreover have "\<forall>e. r0 = Inl e \<longrightarrow> \<not> is_failover_error e" using k(4) [OF True] c by simp
    ultimately have "k < length ps \<and> breaker_allow (clock t) (bs ! k) \<and> call (ps ! k) t = (r, t') \<and>
        (\<forall>e. r = Inl e \<longrightarrow> \<not> is_failover_error e)"
      using True k(3) [OF True] c by simp
    then show ?thesis using k(2) by - (rule exI [of _ k], rule exI [of _ l], rule exI [of _ t], simp)
  qed
qed

text \<open>An example world: the time and the names of the providers that were called.\<close>

definition demo_answer :: chat_response where
  "demo_answer = \<lparr>rs_content = ''ok'', rs_calls = [], rs_usage = \<lparr>tu_prompt = 3, tu_completion = 4, tu_total = 7\<rparr>,
     rs_finish = ''stop''\<rparr>"

definition demo_provider :: "string \<Rightarrow> llm_error + chat_response \<Rightarrow> (int \<times> string list) provider" where
  "demo_provider name answer =
     \<lparr>lp_chat = (\<lambda>rq (now, log). (answer, (now + 1, log @ [name]))),
      lp_stream = (\<lambda>rq (now, log). (map_sum id (\<lambda>_. []) answer, (now + 1, log @ [name]))),
      lp_tools = True, lp_structured = True,
      lp_info = \<lparr>mi_name = name, mi_tools = True, mi_structured = True\<rparr>\<rparr>"

definition demo_request :: chat_request where
  "demo_request = \<lparr>rq_model = [], rq_messages = [], rq_tools = [], rq_temperature = (0, 0), rq_max_tokens = 0,
     rq_format = None\<rparr>"

definition demo_fallback :: "(int \<times> string list) provider list" where
  "demo_fallback = [demo_provider ''a'' (Inl (LlmOrjError CodeInternal ''x'' [] (Some (HTTPStatusError 503 ''busy'')))),
     demo_provider ''b'' (Inr demo_answer), demo_provider ''c'' (Inr demo_answer)]"

theorem gateway_failover_witness:
  "\<exists>k l t. passed_over fst (\<lambda>p. lp_chat p demo_request) (take k demo_fallback)
      (take k (gw_breakers (new_gateway 3 1 5))) None (10, []) l t \<and>
    (k < length demo_fallback \<and> breaker_allow (fst t) (gw_breakers (new_gateway 3 1 5) ! k) \<and>
       lp_chat (demo_fallback ! k) demo_request t = (Inr demo_answer, (12, [''a'', ''b''])) \<or>
     k = length demo_fallback \<and> (12, [''a'', ''b'']) = t \<and>
       (Inr demo_answer :: llm_error + chat_response) = Inl (case l of Some e \<Rightarrow> e | None \<Rightarrow> all_open))"
proof -
  let ?bs = "gw_breakers (new_gateway 3 1 5)"
  let ?r = "try_providers fst (\<lambda>p. lp_chat p demo_request) demo_fallback ?bs None (10, [])"
  have len: "length ?bs = length demo_fallback" by code_simp
  have "fst ?r = Inr demo_answer" "snd (snd ?r) = (12, [''a'', ''b''])" by code_simp+
  then have r: "?r = (Inr demo_answer, fst (snd ?r), (12, [''a'', ''b'']))" by (simp add: prod_eq_iff)
  show ?thesis using gateway_failover [OF len r] by simp
qed

section \<open>The breaker as a state machine\<close>

lemma below_threshold:
  "int (length ts) < br_threshold b - br_failures b \<Longrightarrow>
     fold record_failure ts b = b\<lparr>br_failures := br_failures b + int (length ts)\<rparr>"
proof (induction ts arbitrary: b)
  case (Cons t ts)
  let ?b = "b\<lparr>br_failures := br_failures b + 1\<rparr>"
  have "record_failure t b = ?b" using Cons.prems by (simp add: record_failure_def Let_def)
  moreover have "fold record_failure ts ?b = ?b\<lparr>br_failures := br_failures ?b + int (length ts)\<rparr>"
    using Cons.prems by (intro Cons.IH) simp
  ultimately show ?case by (simp add: add.assoc)
qed simp

text \<open>the circuit. From a closed breaker, fewer failures in a row than the threshold leave it as it was;
  the failure that reaches the threshold opens it for exactly the cooldown, and from then on calls are
  admitted again. A success between failures starts the count anew. After the cooldown a single failing
  probe does not open it again (for a threshold above one): the count starts from zero there too.\<close>

theorem breaker_cycle:
  assumes "br_failures b = 0" and "int (length ts) + 1 = br_threshold b"
  shows "breaker_allow now (fold record_failure (take k ts) b) = breaker_allow now b \<and>
    breaker_allow now (fold record_failure (ts @ [t]) b) = (t + br_cooldown b \<le> now) \<and>
    breaker_allow now (fold record_failure ts (record_success (fold record_failure (take k ts) b))) =
      breaker_allow now b \<and>
    (1 < br_threshold b \<longrightarrow>
      breaker_allow now (record_failure u (fold record_failure (ts @ [t]) b)) = (t + br_cooldown b \<le> now))"
proof (intro conjI impI)
  have part: "fold record_failure (take k ts) b = b\<lparr>br_failures := int (length (take k ts))\<rparr>"
    using assms by (subst below_threshold) auto
  then show "breaker_allow now (fold record_failure (take k ts) b) = breaker_allow now b"
    by (simp add: breaker_allow_def)
  have full: "fold record_failure (ts @ [t]) b = b\<lparr>br_open_until := t + br_cooldown b, br_failures := 0\<rparr>"
    using assms below_threshold [of ts b] by (simp add: record_failure_def Let_def)
  then show "breaker_allow now (fold record_failure (ts @ [t]) b) = (t + br_cooldown b \<le> now)"
    by (auto simp: breaker_allow_def)
  show "breaker_allow now (fold record_failure ts (record_success (fold record_failure (take k ts) b))) =
      breaker_allow now b"
    unfolding part using assms by (subst below_threshold) (auto simp: record_success_def breaker_allow_def)
  show "breaker_allow now (record_failure u (fold record_failure (ts @ [t]) b)) = (t + br_cooldown b \<le> now)"
    if "1 < br_threshold b"
    unfolding full using that by (auto simp: record_failure_def breaker_allow_def Let_def)
qed

theorem breaker_cycle_witness:
  "breaker_allow 35 (fold record_failure [10, 20, 30] \<lparr>br_threshold = 3, br_cooldown = 9, br_failures = 0, br_open_until = 0\<rparr>) = False \<and>
   breaker_allow 39 (fold record_failure [10, 20, 30] \<lparr>br_threshold = 3, br_cooldown = 9, br_failures = 0, br_open_until = 0\<rparr>) = True"
  using breaker_cycle [of "\<lparr>br_threshold = 3, br_cooldown = 9, br_failures = 0, br_open_until = 0\<rparr>" "[10, 20]" _ 0 30]
  by simp

section \<open>Token accounting\<close>

lemma add_usage_commute: "add_usage (add_usage a b) c = add_usage (add_usage a c) b"
  by (simp add: add_usage_def)

lemma fold_usage_add:
  "fold (\<lambda>(k, u) total. add_usage total u) xs (add_usage a b) = add_usage (fold (\<lambda>(k, u) total. add_usage total u) xs a) b"
  by (induction xs arbitrary: a) (auto simp: add_usage_commute)

lemma total_update:
  "fold (\<lambda>(k, u) total. add_usage total u)
     (AList.update key (add_usage (case map_of xs key of Some v \<Rightarrow> v | None \<Rightarrow> no_usage) u) xs) a =
   add_usage (fold (\<lambda>(k, u) total. add_usage total u) xs a) u"
proof (induction xs arbitrary: a)
  case Nil
  then show ?case by (simp add: add_usage_def no_usage_def)
next
  case (Cons kv xs)
  obtain j v where kv: "kv = (j, v)" by (cases kv)
  show ?case
  proof (cases "j = key")
    case True
    have "add_usage a (add_usage v u) = add_usage (add_usage a v) u" by (simp add: add_usage_def add.assoc)
    then show ?thesis using True by (simp add: kv fold_usage_add)
  next
    case False
    then show ?thesis using Cons.IH by (simp add: kv)
  qed
qed

text \<open>
  Tracking adds to the key's usage and to the total, and to no other key. A completion without total
  tokens is not recorded.
\<close>

lemma track_accounts:
  assumes "tu_total u \<noteq> 0"
  shows "usage_for (track key u g) key = add_usage (usage_for g key) u"
    and "j \<noteq> key \<Longrightarrow> usage_for (track key u g) j = usage_for g j"
    and "total_usage (track key u g) = add_usage (total_usage g) u"
  using assms by (simp_all add: track_def usage_for_def map_of_update total_usage_def total_update)

end
