(* ===== verification/Session.thy ===== *)
theory Session
  imports Gateway
begin

text \<open>
  Agent sessions (\<open>agent/runtime/session.go\<close>): the transcript, the document types seen and the record
  count of the last listing, and the manager that evicts untouched sessions. Sessions are shared by
  pointer; here the manager's map holds them, and whoever changes one stores it back.
\<close>

record session =
  se_id :: string
  se_user :: string
  se_transcript :: "chat_message list"
  se_seen :: "(string \<times> bool) list"
  se_target_count :: int
  se_target_doc :: string
  se_last :: int

definition new_session :: "string \<Rightarrow> int \<Rightarrow> identity \<Rightarrow> session" where
  "new_session sid now i =
     \<lparr>se_id = sid, se_user = i_user_id i, se_transcript = [], se_seen = [], se_target_count = 0,
      se_target_doc = [], se_last = now\<rparr>"

definition add_message :: "chat_message \<Rightarrow> session \<Rightarrow> session" where
  "add_message m s = s\<lparr>se_transcript := se_transcript s @ [m]\<rparr>"

definition mark_seen :: "string \<Rightarrow> session \<Rightarrow> session" where
  "mark_seen dt s = (if dt = [] then s else s\<lparr>se_seen := AList.update dt True (se_seen s)\<rparr>)"

definition seen_doc_type :: "session \<Rightarrow> string \<Rightarrow> bool" where
  "seen_doc_type s dt = (map_of (se_seen s) dt = Some True)"

definition set_target_count :: "string \<Rightarrow> int \<Rightarrow> session \<Rightarrow> session" where
  "set_target_count dt n s = s\<lparr>se_target_doc := dt, se_target_count := n\<rparr>"

definition target_count :: "session \<Rightarrow> string \<Rightarrow> int" where
  "target_count s dt = (if dt = [] \<or> se_target_doc s \<noteq> dt then 0 else se_target_count s)"

section \<open>The manager\<close>

record session_manager =
  sm_sessions :: "(string \<times> session) list"
  sm_ttl :: int

definition new_session_manager :: "int \<Rightarrow> session_manager" where
  "new_session_manager ttl = \<lparr>sm_sessions = [], sm_ttl = ttl\<rparr>"

definition session_expired :: "session_manager \<Rightarrow> int \<Rightarrow> session \<Rightarrow> bool" where
  "session_expired m now s \<longleftrightarrow> 0 < sm_ttl m \<and> sm_ttl m < now - se_last s"

definition evict_expired :: "int \<Rightarrow> session_manager \<Rightarrow> int \<times> session_manager" where
  "evict_expired now m =
     (if sm_ttl m \<le> 0 then (0, m)
      else let keep = filter (\<lambda>(k, s). \<not> session_expired m now s) (sm_sessions m)
           in (int (length (sm_sessions m)) - int (length keep), m\<lparr>sm_sessions := keep\<rparr>))"

definition manager_new :: "string \<Rightarrow> int \<Rightarrow> identity \<Rightarrow> session_manager \<Rightarrow> session \<times> session_manager" where
  "manager_new sid now i m =
     (let s = new_session sid now i; m = snd (evict_expired now m)
      in (s, m\<lparr>sm_sessions := AList.update sid s (sm_sessions m)\<rparr>))"

definition manager_get :: "int \<Rightarrow> string \<Rightarrow> session_manager \<Rightarrow> session option \<times> session_manager" where
  "manager_get now sid m =
     (case map_of (sm_sessions m) sid of
        None \<Rightarrow> (None, m)
      | Some s \<Rightarrow>
          if session_expired m now s then (None, m\<lparr>sm_sessions := AList.delete sid (sm_sessions m)\<rparr>)
          else let s = s\<lparr>se_last := now\<rparr>
               in (Some s, m\<lparr>sm_sessions := AList.update sid s (sm_sessions m)\<rparr>))"

definition manager_remove :: "string \<Rightarrow> session_manager \<Rightarrow> session_manager" where
  "manager_remove sid m = m\<lparr>sm_sessions := AList.delete sid (sm_sessions m)\<rparr>"

definition manager_len :: "session_manager \<Rightarrow> nat" where
  "manager_len m = length (sm_sessions m)"

definition manager_reset :: "session_manager \<Rightarrow> session_manager" where
  "manager_reset m = m\<lparr>sm_sessions := []\<rparr>"

text \<open>\<open>sessionFor\<close>: the session named on the context when it is live and the caller's or anonymous.\<close>

definition session_for ::
    "string \<Rightarrow> int \<Rightarrow> ctx \<Rightarrow> identity \<Rightarrow> session_manager \<Rightarrow> session \<times> session_manager" where
  "session_for fresh now cx i m =
     (let sid = session_from_context cx in
      if sid = [] then manager_new fresh now i m
      else case manager_get now sid m of
             (Some s, m') \<Rightarrow>
               if se_user s = [] \<or> se_user s = i_user_id i then (s, m') else manager_new fresh now i m'
           | (None, m') \<Rightarrow> manager_new fresh now i m')"

section \<open>Invariant\<close>

text \<open>Sessions are stored once each, under their own id.\<close>

definition manager_ok :: "session_manager \<Rightarrow> bool" where
  "manager_ok m \<longleftrightarrow> wf_map (sm_sessions m) \<and> (\<forall>(k, s) \<in> set (sm_sessions m). se_id s = k)"

lemma manager_ok_lookup: "manager_ok m \<Longrightarrow> map_of (sm_sessions m) k = Some s \<Longrightarrow> se_id s = k"
  by (auto simp: manager_ok_def dest: map_of_SomeD)

lemma manager_ok_new: "manager_ok (new_session_manager ttl)"
  by (simp add: manager_ok_def new_session_manager_def wf_map_def)

lemma manager_ok_put:
  "manager_ok m \<Longrightarrow> se_id s = k \<Longrightarrow> manager_ok (m\<lparr>sm_sessions := AList.update k s (sm_sessions m)\<rparr>)"
  using set_update_subset [of k s "sm_sessions m"] by (auto simp: manager_ok_def wf_map_update)

lemma wf_map_filter: "wf_map m \<Longrightarrow> wf_map (filter P m)"
  by (simp add: wf_map_def distinct_map_filter)

lemma manager_ok_delete: "manager_ok m \<Longrightarrow> manager_ok (m\<lparr>sm_sessions := AList.delete k (sm_sessions m)\<rparr>)"
  by (auto simp: manager_ok_def AList.delete_eq wf_map_filter)

lemma manager_ok_evict: "manager_ok m \<Longrightarrow> manager_ok (snd (evict_expired now m))"
  by (auto simp: evict_expired_def manager_ok_def wf_map_filter Let_def)

lemma manager_ok_steps:
  assumes "manager_ok m"
  shows "manager_ok (snd (manager_new sid now i m))" "manager_ok (snd (manager_get now sid m))"
    "manager_ok (manager_remove sid m)" "manager_ok (snd (session_for sid now cx i m))"
proof -
  have n: "manager_ok (snd (manager_new sid now i m'))" if "manager_ok m'" for m'
    using manager_ok_evict [OF that] by (simp add: manager_new_def Let_def manager_ok_put new_session_def)
  have g: "manager_ok (snd (manager_get now k m))" for k
    using assms manager_ok_lookup [OF assms]
    by (auto simp: manager_get_def Let_def manager_ok_delete manager_ok_put split: option.splits)
  show "manager_ok (snd (manager_new sid now i m))" by (rule n [OF assms])
  show "manager_ok (snd (manager_get now sid m))" by (rule g)
  show "manager_ok (manager_remove sid m)" by (simp add: manager_remove_def manager_ok_delete assms)
  show "manager_ok (snd (session_for sid now cx i m))"
    using n [OF assms] n [of "snd (manager_get now (session_from_context cx) m)"] g [of "session_from_context cx"]
    by (auto simp: session_for_def Let_def split: option.splits prod.splits)
qed

text \<open>the session of a turn belongs to the caller or is anonymous, it is live and was touched now; an
  expired or foreign session on the context is never used, a fresh one with an empty transcript is.\<close>

theorem session_isolation:
  assumes "manager_ok m" and "session_for fresh now cx i m = (s, m')"
  shows "(se_user s = [] \<or> se_user s = i_user_id i) \<and> se_last s = now \<and>
    map_of (sm_sessions m') (se_id s) = Some s \<and>
    (s = new_session fresh now i \<or>
     (\<exists>old. map_of (sm_sessions m) (session_from_context cx) = Some old \<and> s = old\<lparr>se_last := now\<rparr> \<and>
        (sm_ttl m \<le> 0 \<or> now - se_last old \<le> sm_ttl m)))"
proof -
  let ?k = "session_from_context cx"
  have fresh: "?thesis" if "manager_new fresh now i n = (s, m')" for n
    using that by (auto simp: manager_new_def Let_def new_session_def map_of_update)
  show ?thesis
  proof (cases "?k = [] \<or> fst (manager_get now ?k m) = None")
    case True
    have "manager_new fresh now i (if ?k = [] then m else snd (manager_get now ?k m)) = (s, m')"
      using True assms(2)
      by (cases "manager_get now ?k m") (auto simp: session_for_def Let_def split: if_splits)
    then show ?thesis by (rule fresh)
  next
    case False
    then obtain t n where g: "manager_get now ?k m = (Some t, n)" by (cases "manager_get now ?k m") auto
    then obtain old where old: "map_of (sm_sessions m) ?k = Some old" "\<not> session_expired m now old"
      "t = old\<lparr>se_last := now\<rparr>" "n = m\<lparr>sm_sessions := AList.update ?k t (sm_sessions m)\<rparr>"
      by (auto simp: manager_get_def Let_def split: option.splits if_splits)
    show ?thesis
    proof (cases "se_user t = [] \<or> se_user t = i_user_id i")
      case True
      then have "s = t" "m' = n" using assms(2) g False by (auto simp: session_for_def Let_def)
      moreover have "se_id t = ?k" using manager_ok_lookup [OF assms(1) old(1)] old(3) by simp
      ultimately show ?thesis using True old by (auto simp: map_of_update session_expired_def)
    next
      case no: False
      then show ?thesis using assms(2) g False fresh by (auto simp: session_for_def Let_def)
    qed
  qed
qed

theorem session_isolation_witness:
  "se_user (fst (session_for ''s2'' 20 (with_session background_ctx ''s1'') (zero_identity\<lparr>i_user_id := ''eve''\<rparr>)
     (snd (manager_new ''s1'' 10 (zero_identity\<lparr>i_user_id := ''bob''\<rparr>) (new_session_manager 1000))))) = ''eve''"
proof -
  let ?m = "snd (manager_new ''s1'' 10 (zero_identity\<lparr>i_user_id := ''bob''\<rparr>) (new_session_manager 1000))"
  let ?i = "zero_identity\<lparr>i_user_id := ''eve''\<rparr>"
  let ?r = "session_for ''s2'' 20 (with_session background_ctx ''s1'') ?i ?m"
  have ok: "manager_ok ?m" by (intro manager_ok_steps manager_ok_new)
  have "?r = (fst ?r, snd ?r)" by simp
  from session_isolation [OF ok this]
  have "se_user (fst ?r) = [] \<or> se_user (fst ?r) = i_user_id ?i" by blast
  moreover have "se_user (fst ?r) \<noteq> []" by code_simp
  ultimately show ?thesis by simp
qed

text \<open>Eviction removes exactly the sessions untouched for longer than the TTL.\<close>

lemma evict_exact:
  assumes "manager_ok m" and "0 < sm_ttl m"
  shows "map_of (sm_sessions (snd (evict_expired now m))) k = Some s \<longleftrightarrow>
    map_of (sm_sessions m) k = Some s \<and> now - se_last s \<le> sm_ttl m"
proof -
  have d: "distinct (map fst (sm_sessions m))" "distinct (map fst (sm_sessions (snd (evict_expired now m))))"
    using assms(1) manager_ok_evict [OF assms(1), of now] by (simp_all add: manager_ok_def wf_map_def)
  show ?thesis
    using assms(2) d
    by (auto simp: evict_expired_def Let_def session_expired_def map_of_eq_Some_iff)
qed

end
