(* ===== verification/Json.thy ===== *)
theory Json
  imports GoValue
begin

text \<open>
  \<open>json.Unmarshal\<close> into \<open>any\<close>, and the JSON round trip of a value. Numbers become float64 values in
  their canonical decimal form (rounding to 53 bits is not modelled), objects become maps in which a
  repeated key keeps its last value, and bytes from 128 on are taken as they are. Recursion is bounded
  by the length of the input, which every nested call shortens.
\<close>

section \<open>Numbers\<close>

text \<open>The canonical form of \<open>m * 10 ^ e\<close>: no trailing zero in \<open>m\<close>.\<close>

function norm_float :: "int \<Rightarrow> int \<Rightarrow> int \<times> int" where
  "norm_float m e = (if m = 0 then (0, 0) else if m mod 10 = 0 then norm_float (m div 10) (e + 1) else (m, e))"
  by pat_completeness auto
termination
  by (relation "measure (\<lambda>(m, e). nat \<bar>m\<bar>)") auto

declare norm_float.simps [simp del]

definition float_val :: "int \<Rightarrow> int \<Rightarrow> val" where
  "float_val m e = (case norm_float m e of (a, b) \<Rightarrow> VFloat a b)"

section \<open>Lexing\<close>

definition json_space :: "char \<Rightarrow> bool" where
  "json_space c = (let n = (of_char c :: nat) in n = 32 \<or> n = 9 \<or> n = 10 \<or> n = 13)"

definition skip_json :: "string \<Rightarrow> string" where
  "skip_json s = dropWhile json_space s"

definition hex_value :: "char \<Rightarrow> int option" where
  "hex_value c =
     (let n = (of_char c :: int) in
      if 48 \<le> n \<and> n \<le> 57 then Some (n - 48)
      else if 97 \<le> n \<and> n \<le> 102 then Some (n - 87)
      else if 65 \<le> n \<and> n \<le> 70 then Some (n - 55) else None)"

fun hex4 :: "string \<Rightarrow> (int \<times> string) option" where
  "hex4 (a # b # c # d # s) =
     (case (hex_value a, hex_value b, hex_value c, hex_value d) of
        (Some w, Some x, Some y, Some z) \<Rightarrow> Some (4096 * w + 256 * x + 16 * y + z, s)
      | _ \<Rightarrow> None)"
| "hex4 _ = None"

definition utf8 :: "int \<Rightarrow> string" where
  "utf8 n =
     (if n < 128 then [char_of n]
      else if n < 2048 then [char_of (192 + n div 64), char_of (128 + n mod 64)]
      else if n < 65536
      then [char_of (224 + n div 4096), char_of (128 + n div 64 mod 64), char_of (128 + n mod 64)]
      else [char_of (240 + n div 262144), char_of (128 + n div 4096 mod 64),
            char_of (128 + n div 64 mod 64), char_of (128 + n mod 64)])"

definition high_surrogate :: "int \<Rightarrow> bool" where
  "high_surrogate n \<longleftrightarrow> 55296 \<le> n \<and> n < 56320"

definition low_surrogate :: "int \<Rightarrow> bool" where
  "low_surrogate n \<longleftrightarrow> 56320 \<le> n \<and> n < 57344"

text \<open>After \<open>\u\<close>: the bytes of the rune and the rest; a lone surrogate is the replacement character.\<close>

definition unicode_escape :: "string \<Rightarrow> (string \<times> string) option" where
  "unicode_escape s =
     (case hex4 s of
        None \<Rightarrow> None
      | Some (n, rest) \<Rightarrow>
          if high_surrogate n
          then (case rest of
                  b # u # rest' \<Rightarrow>
                    (if b = CHR 0x5C \<and> u = CHR ''u''
                     then (case hex4 rest' of
                             Some (m, rest'') \<Rightarrow>
                               if low_surrogate m then Some (utf8 (65536 + 1024 * (n - 55296) + (m - 56320)), rest'')
                               else Some (utf8 65533, rest)
                           | None \<Rightarrow> Some (utf8 65533, rest))
                     else Some (utf8 65533, rest))
                | _ \<Rightarrow> Some (utf8 65533, rest))
          else if low_surrogate n then Some (utf8 65533, rest) else Some (utf8 n, rest))"

definition simple_escape :: "char \<Rightarrow> string option" where
  "simple_escape c =
     (if c \<in> {CHR 0x22, CHR 0x5C, CHR ''/''} then Some [c]
      else if c = CHR ''b'' then Some [char_of (8 :: nat)] else if c = CHR ''f'' then Some [char_of (12 :: nat)]
      else if c = CHR ''n'' then Some [char_of (10 :: nat)] else if c = CHR ''r'' then Some [char_of (13 :: nat)]
      else if c = CHR ''t'' then Some [char_of (9 :: nat)] else None)"

text \<open>The rest of a string literal after its opening quote.\<close>

fun json_string :: "nat \<Rightarrow> string \<Rightarrow> (string \<times> string) option" where
  "json_string 0 s = None"
| "json_string (Suc k) [] = None"
| "json_string (Suc k) (c # s) =
     (if c = CHR 0x22 then Some ([], s)
      else if c = CHR 0x5C
      then (case s of
              [] \<Rightarrow> None
            | d # s' \<Rightarrow>
                (case (if d = CHR ''u'' then unicode_escape s' else map_option (\<lambda>x. (x, s')) (simple_escape d)) of
                   None \<Rightarrow> None
                 | Some (x, rest) \<Rightarrow> map_option (\<lambda>(t, r). (x @ t, r)) (json_string k rest)))
      else if (of_char c :: nat) < 32 then None
      else map_option (\<lambda>(t, r). (c # t, r)) (json_string k s))"

definition digits_prefix :: "string \<Rightarrow> string \<times> string" where
  "digits_prefix s = (takeWhile is_digit s, dropWhile is_digit s)"

definition nat_of_digits :: "string \<Rightarrow> int" where
  "nat_of_digits ds = fold (\<lambda>c n. 10 * n + (of_char c - 48)) ds 0"

text \<open>A number: sign, integer part without leading zeros, fraction and exponent.\<close>

definition json_number :: "string \<Rightarrow> (val \<times> string) option" where
  "json_number s =
     (let (neg, s) = (case s of c # t \<Rightarrow> if c = CHR ''-'' then (True, t) else (False, s) | [] \<Rightarrow> (False, s));
          (ip, s) = digits_prefix s;
          frac = (case s of c # t \<Rightarrow> if c = CHR ''.'' then Some (digits_prefix t) else None | [] \<Rightarrow> None);
          (fp, s) = (case frac of Some (d, t) \<Rightarrow> (d, t) | None \<Rightarrow> ([], s));
          exp = (case s of
                   c # t \<Rightarrow>
                     if c = CHR ''e'' \<or> c = CHR ''E''
                     then (case t of
                             g # u \<Rightarrow> if g = CHR ''+'' then Some (False, digits_prefix u)
                                     else if g = CHR ''-'' then Some (True, digits_prefix u)
                                     else Some (False, digits_prefix t)
                           | [] \<Rightarrow> Some (False, ([], [])))
                     else None
                 | [] \<Rightarrow> None);
          (eneg, ep, s) = (case exp of Some (n, (d, t)) \<Rightarrow> (n, d, t) | None \<Rightarrow> (False, ''0'', s))
      in if ip = [] \<or> (1 < length ip \<and> hd ip = CHR ''0'') \<or> (frac \<noteq> None \<and> fp = []) \<or> ep = [] then None
         else let m = nat_of_digits (ip @ fp); e = nat_of_digits ep
              in Some (float_val (if neg then - m else m) ((if eneg then - e else e) - int (length fp)), s))"

section \<open>Values\<close>

fun json_value :: "nat \<Rightarrow> string \<Rightarrow> (val \<times> string) option"
  and json_elements :: "nat \<Rightarrow> string \<Rightarrow> (val list \<times> string) option"
  and json_members :: "nat \<Rightarrow> row \<Rightarrow> string \<Rightarrow> (row \<times> string) option" where
  "json_value 0 s = None"
| "json_value (Suc k) s =
     (case skip_json s of
        [] \<Rightarrow> None
      | c # t \<Rightarrow>
          if c = CHR 0x22 then map_option (\<lambda>(x, r). (VStr x, r)) (json_string k t)
          else if c = CHR ''['' then
            (case skip_json t of
               d # r \<Rightarrow> if d = CHR '']'' then Some (VList [], r)
                        else map_option (\<lambda>(xs, r). (VList xs, r)) (json_elements k t)
             | [] \<Rightarrow> None)
          else if c = CHR ''{'' then
            (case skip_json t of
               d # r \<Rightarrow> if d = CHR ''}'' then Some (VMap [], r)
                        else map_option (\<lambda>(m, r). (VMap m, r)) (json_members k [] t)
             | [] \<Rightarrow> None)
          else if has_prefix (c # t) ''true'' then Some (VBool True, drop 4 (c # t))
          else if has_prefix (c # t) ''false'' then Some (VBool False, drop 5 (c # t))
          else if has_prefix (c # t) ''null'' then Some (VNil, drop 4 (c # t))
          else json_number (c # t))"
| "json_elements 0 s = None"
| "json_elements (Suc k) s =
     (case json_value k s of
        None \<Rightarrow> None
      | Some (v, r) \<Rightarrow>
          (case skip_json r of
             c # r' \<Rightarrow>
               if c = CHR '']'' then Some ([v], r')
               else if c = CHR '','' then map_option (\<lambda>(vs, r''). (v # vs, r'')) (json_elements k r')
               else None
           | [] \<Rightarrow> None))"
| "json_members 0 m s = None"
| "json_members (Suc k) m s =
     (case skip_json s of
        c # t \<Rightarrow>
          if c \<noteq> CHR 0x22 then None
          else (case json_string k t of
                  None \<Rightarrow> None
                | Some (key, r) \<Rightarrow>
                    (case skip_json r of
                       d # r' \<Rightarrow>
                         if d \<noteq> CHR '':'' then None
                         else (case json_value k r' of
                                 None \<Rightarrow> None
                               | Some (v, r'') \<Rightarrow>
                                   (case skip_json r'' of
                                      g # u \<Rightarrow>
                                        if g = CHR ''}'' then Some (AList.update key v m, u)
                                        else if g = CHR '','' then json_members k (AList.update key v m) u
                                        else None
                                    | [] \<Rightarrow> None))
                     | [] \<Rightarrow> None))
      | [] \<Rightarrow> None)"

definition json_decode :: "string \<Rightarrow> val option" where
  "json_decode s =
     (case json_value (2 * length s + 2) s of
        Some (v, r) \<Rightarrow> if skip_json r = [] then Some v else None
      | None \<Rightarrow> None)"

text \<open>Decoding into a \<open>map[string]any\<close> that was empty: \<open>null\<close> leaves it, other values are errors.\<close>

definition json_object :: "string \<Rightarrow> row option" where
  "json_object s =
     (case json_decode s of Some (VMap m) \<Rightarrow> Some m | Some VNil \<Rightarrow> Some [] | _ \<Rightarrow> None)"

text \<open>
  Decoding an object into a struct: a member belongs to the field whose name it folds to, the last one
  counts, \<open>null\<close> leaves the field as it is, and a member of another type is an error. Decoding
  resumes from the zero value \<open>z\<close>; \<open>f\<close> reads the member's type.
\<close>

definition member_as :: "(val \<Rightarrow> 'a option) \<Rightarrow> 'a \<Rightarrow> string \<Rightarrow> row \<Rightarrow> 'a option" where
  "member_as f z name m =
     fold (\<lambda>(k, v) acc.
       if \<not> equal_fold k name then acc
       else case (v, acc) of (_, None) \<Rightarrow> None | (VNil, a) \<Rightarrow> a | _ \<Rightarrow> f v)
     m (Some z)"

definition want_str :: "val \<Rightarrow> string option" where
  "want_str v = (case v of VStr s \<Rightarrow> Some s | _ \<Rightarrow> None)"

definition want_bool :: "val \<Rightarrow> bool option" where
  "want_bool v = (case v of VBool b \<Rightarrow> Some b | _ \<Rightarrow> None)"

definition want_row :: "val \<Rightarrow> row option" where
  "want_row v = (case v of VMap m \<Rightarrow> Some m | _ \<Rightarrow> None)"

definition want_list :: "val \<Rightarrow> val list option" where
  "want_list v = (case v of VList vs \<Rightarrow> Some vs | _ \<Rightarrow> None)"

text \<open>An \<open>int\<close> field takes a number without fraction in the range of 64 bits.\<close>

definition want_int :: "val \<Rightarrow> int option" where
  "want_int v =
     (case v of
        VFloat m e \<Rightarrow>
          (let n = m * 10 ^ nat e in if 0 \<le> e \<and> - (2 ^ 63) \<le> n \<and> n < 2 ^ 63 then Some n else None)
      | _ \<Rightarrow> None)"

text \<open>Elements of a list and members that are structs, \<open>null\<close> standing for the zero value \<open>z\<close>.\<close>

definition elem_as :: "(val \<Rightarrow> 'a option) \<Rightarrow> 'a \<Rightarrow> val \<Rightarrow> 'a option" where
  "elem_as f z v = (case v of VNil \<Rightarrow> Some z | _ \<Rightarrow> f v)"

definition want_all :: "(val \<Rightarrow> 'a option) \<Rightarrow> 'a \<Rightarrow> val \<Rightarrow> 'a list option" where
  "want_all f z v = (case v of VList vs \<Rightarrow> those (map (elem_as f z) vs) | _ \<Rightarrow> None)"

text \<open>The member a struct field named \<open>name\<close> is decoded from.\<close>

definition json_member :: "row \<Rightarrow> string \<Rightarrow> val" where
  "json_member m name =
     (case find (\<lambda>(k, v). equal_fold k name) (rev m) of Some (k, v) \<Rightarrow> v | None \<Rightarrow> VNil)"

text \<open>
  What \<open>json.NewDecoder(body).Decode\<close> finds: nothing but space, no JSON value, or one; what follows
  the value is not read. Decoding into a map accepts an object or \<open>null\<close>.
\<close>

datatype body_value = BodyEOF | BodyBad | BodyValue val

definition read_body :: "string \<Rightarrow> body_value" where
  "read_body s =
     (if skip_json s = [] then BodyEOF
      else case json_value (2 * length s + 2) s of Some (v, r) \<Rightarrow> BodyValue v | None \<Rightarrow> BodyBad)"

definition body_object :: "body_value \<Rightarrow> row option" where
  "body_object b = (case b of BodyValue (VMap m) \<Rightarrow> Some m | BodyValue VNil \<Rightarrow> Some [] | _ \<Rightarrow> None)"

lemma json_decode_examples:
  "json_decode (''{'' @ [CHR 0x22] @ ''a'' @ [CHR 0x22] @ '': [1.50, true, null, -20]} '') =
     Some (VMap [(''a'', VList [VFloat 15 (- 1), VBool True, VNil, VFloat (- 2) 1])])"
  "json_decode ''[1,]'' = None" "json_decode ''01'' = None" "json_decode ''{}'' = Some (VMap [])"
  "json_decode ([CHR 0x22] @ ''a'' @ [CHR 0x5C] @ ''u00e9'' @ [CHR 0x22]) = Some (VStr (''a'' @ [CHR 0xC3, CHR 0xA9]))"
  by code_simp+

section \<open>The round trip of a value\<close>

fun json_copy :: "val \<Rightarrow> val"
  and json_copies :: "val list \<Rightarrow> val list"
  and json_copy_kvs :: "(string \<times> val) list \<Rightarrow> (string \<times> val) list" where
  "json_copy (VInt i) = float_val i 0"
| "json_copy (VInt64 i) = float_val i 0"
| "json_copy (VStrs ss) = VList (map VStr ss)"
| "json_copy (VMap kvs) = VMap (json_copy_kvs kvs)"
| "json_copy (VList vs) = VList (json_copies vs)"
| "json_copy VNil = VNil"
| "json_copy (VStr s) = VStr s"
| "json_copy (VFloat m e) = VFloat m e"
| "json_copy (VBool b) = VBool b"
| "json_copy (VTime t) = VTime t"
| "json_copies [] = []"
| "json_copies (v # vs) = json_copy v # json_copies vs"
| "json_copy_kvs [] = []"
| "json_copy_kvs ((k, v) # kvs) = (k, json_copy v) # json_copy_kvs kvs"

lemma map_of_json_copy: "map_of (json_copy_kvs m) k = map_option json_copy (map_of m k)"
  by (induction m) (auto split: prod.splits)

lemma json_copies_strings: "json_copies (map VStr xs) = map VStr xs"
  by (induction xs) auto

end
