(* ===== verification/Planner.thy ===== *)
theory Planner
  imports Json Errors
begin

text \<open>
  The planning contract (\<open>agent/planner/planner.go\<close>): the decoded plan and its validation against the
  tool schemas of the turn. Error values of \<open>fmt.Errorf\<close> are their texts; \<open>jm\<close> renders the decoder's own
  message, and \<open>ft\<close> a time under \<open>%v\<close>.
\<close>

section \<open>Plans\<close>

record plan_step =
  ps_operation :: string
  ps_args :: row
  ps_depends :: "int list"

record plan =
  pl_steps :: "plan_step list"

text \<open>
  \<open>json.Unmarshal\<close> into a \<open>Plan\<close>: object keys match field names in any case, \<open>null\<close> keeps a zero value,
  a value of another type is an error.
\<close>

fun int_values :: "val list \<Rightarrow> int list option" where
  "int_values [] = Some []"
| "int_values (v # vs) =
     (case v of
        VFloat m e \<Rightarrow> if 0 \<le> e then map_option (\<lambda>is. m * 10 ^ nat e # is) (int_values vs) else None
      | VNil \<Rightarrow> map_option (\<lambda>is. 0 # is) (int_values vs)
      | _ \<Rightarrow> None)"

definition step_of_val :: "val \<Rightarrow> plan_step option" where
  "step_of_val v =
     (case v of
        VNil \<Rightarrow> Some \<lparr>ps_operation = [], ps_args = [], ps_depends = []\<rparr>
      | VMap m \<Rightarrow>
          (case (case json_member m ''operation'' of VNil \<Rightarrow> Some [] | VStr s \<Rightarrow> Some s | _ \<Rightarrow> None,
                 case json_member m ''args'' of VNil \<Rightarrow> Some [] | VMap a \<Rightarrow> Some a | _ \<Rightarrow> None,
                 case json_member m ''depends_on'' of VNil \<Rightarrow> Some [] | VList vs \<Rightarrow> int_values vs | _ \<Rightarrow> None) of
             (Some op, Some args, Some deps) \<Rightarrow> Some \<lparr>ps_operation = op, ps_args = args, ps_depends = deps\<rparr>
           | _ \<Rightarrow> None)
      | _ \<Rightarrow> None)"

fun steps_of_vals :: "val list \<Rightarrow> plan_step list option" where
  "steps_of_vals [] = Some []"
| "steps_of_vals (v # vs) =
     (case (step_of_val v, steps_of_vals vs) of (Some s, Some ss) \<Rightarrow> Some (s # ss) | _ \<Rightarrow> None)"

definition plan_of_val :: "val \<Rightarrow> plan option" where
  "plan_of_val v =
     (case v of
        VNil \<Rightarrow> Some \<lparr>pl_steps = []\<rparr>
      | VMap m \<Rightarrow>
          (case json_member m ''steps'' of
             VNil \<Rightarrow> Some \<lparr>pl_steps = []\<rparr>
           | VList vs \<Rightarrow> map_option (\<lambda>ss. \<lparr>pl_steps = ss\<rparr>) (steps_of_vals vs)
           | _ \<Rightarrow> None)
      | _ \<Rightarrow> None)"

definition plan_unmarshal :: "(string \<Rightarrow> string) \<Rightarrow> string \<Rightarrow> string + plan" where
  "plan_unmarshal jm text =
     (case Option.bind (json_decode text) plan_of_val of
        Some p \<Rightarrow> Inr p
      | None \<Rightarrow> Inl (''model output is not a valid plan: '' @ jm text))"

section \<open>Values against a schema\<close>

definition is_empty_value :: "val \<Rightarrow> bool" where
  "is_empty_value v = (case v of VNil \<Rightarrow> True | VStr s \<Rightarrow> s = [] | VMap m \<Rightarrow> m = [] | VList xs \<Rightarrow> xs = [] | _ \<Rightarrow> False)"

text \<open>\<open>%T\<close>.\<close>

definition go_type_name :: "val \<Rightarrow> string" where
  "go_type_name v =
     (case v of VNil \<Rightarrow> ''<nil>'' | VStr _ \<Rightarrow> ''string'' | VInt _ \<Rightarrow> ''int'' | VInt64 _ \<Rightarrow> ''int64''
      | VFloat _ _ \<Rightarrow> ''float64'' | VBool _ \<Rightarrow> ''bool'' | VTime _ \<Rightarrow> ''time.Time''
      | VMap _ \<Rightarrow> ''map[string]interface {}'' | VList _ \<Rightarrow> ''[]interface {}'' | VStrs _ \<Rightarrow> ''[]string'')"

definition has_json_type :: "string \<Rightarrow> val \<Rightarrow> bool" where
  "has_json_type typ v =
     (if typ = ''string'' then (case v of VStr _ \<Rightarrow> True | _ \<Rightarrow> False)
      else if typ = ''integer'' \<or> typ = ''number''
        then (case v of VInt _ \<Rightarrow> True | VInt64 _ \<Rightarrow> True | VFloat _ _ \<Rightarrow> True | _ \<Rightarrow> False)
      else if typ = ''boolean'' then (case v of VBool _ \<Rightarrow> True | _ \<Rightarrow> False)
      else if typ = ''object'' then (case v of VMap _ \<Rightarrow> True | _ \<Rightarrow> False)
      else if typ = ''array'' then (case v of VList _ \<Rightarrow> True | _ \<Rightarrow> False)
      else False)"

definition arg_prefix :: "string \<Rightarrow> string \<Rightarrow> string" where
  "arg_prefix op key = ''operation '' @ go_quote op @ '' argument '' @ go_quote key"

definition check_type :: "string \<Rightarrow> string \<Rightarrow> string \<Rightarrow> val \<Rightarrow> string option" where
  "check_type op key typ v =
     (if has_json_type typ v then None
      else Some (arg_prefix op key @ '' has type '' @ go_type_name v @ '', want '' @ go_quote typ))"

definition check_enum :: "(int \<Rightarrow> string) \<Rightarrow> string \<Rightarrow> string \<Rightarrow> row \<Rightarrow> val \<Rightarrow> string option" where
  "check_enum ft op key prop v =
     (case map_of prop ''enum'' of
        Some (VList (e # es)) \<Rightarrow>
          if list_ex (\<lambda>x. fmt_v ft x = fmt_v ft v) (e # es) then None
          else Some (arg_prefix op key @ '' = '' @ go_quote (fmt_v ft v) @ '' is not one of the allowed options'')
      | _ \<Rightarrow> None)"

definition required_keys :: "row \<Rightarrow> string list" where
  "required_keys sch =
     (case map_of sch ''required'' of
        Some (VList vs) \<Rightarrow> filter (\<lambda>k. k \<noteq> []) (map (\<lambda>v. str_of (Some v)) vs)
      | _ \<Rightarrow> [])"

definition arg_missing :: "row \<Rightarrow> string \<Rightarrow> bool" where
  "arg_missing args k = (case map_of args k of None \<Rightarrow> True | Some v \<Rightarrow> is_empty_value v)"

definition check_required :: "string \<Rightarrow> row \<Rightarrow> row \<Rightarrow> string option" where
  "check_required op args sch =
     (case find (arg_missing args) (required_keys sch) of
        Some k \<Rightarrow> Some (''operation '' @ go_quote op @ '' missing required argument '' @ go_quote k)
      | None \<Rightarrow> None)"

definition schema_properties :: "row \<Rightarrow> row" where
  "schema_properties sch = (case map_of sch ''properties'' of Some (VMap m) \<Rightarrow> m | _ \<Rightarrow> [])"

definition item_schema :: "row \<Rightarrow> row option" where
  "item_schema prop = (case map_of prop ''items'' of Some (VMap m) \<Rightarrow> Some m | _ \<Rightarrow> None)"

definition or_else :: "string option \<Rightarrow> string option \<Rightarrow> string option" where
  "or_else a b = (case a of None \<Rightarrow> b | Some e \<Rightarrow> Some e)"

text \<open>
  \<open>validateArgs\<close> and \<open>checkValue\<close>: \<open>check_args\<close> is the loop over the arguments, \<open>check_items\<close> the loop over
  the elements of an array with an item schema. The loops stop at the first error.
\<close>

fun check_value :: "(int \<Rightarrow> string) \<Rightarrow> string \<Rightarrow> string \<Rightarrow> row \<Rightarrow> val \<Rightarrow> string option"
  and check_items :: "(int \<Rightarrow> string) \<Rightarrow> string \<Rightarrow> string \<Rightarrow> row \<Rightarrow> val list \<Rightarrow> string option"
  and check_args :: "(int \<Rightarrow> string) \<Rightarrow> string \<Rightarrow> row \<Rightarrow> (string \<times> val) list \<Rightarrow> string option" where
  "check_value ft op key prop v =
     or_else (check_enum ft op key prop v)
       (or_else (let typ = str_of (map_of prop ''type'') in if typ = [] then None else check_type op key typ v)
         (case v of
            VList xs \<Rightarrow> (case item_schema prop of Some sch \<Rightarrow> check_items ft op key sch xs | None \<Rightarrow> None)
          | _ \<Rightarrow> None))"
| "check_items ft op key sch [] = None"
| "check_items ft op key sch (x # xs) =
     or_else
       (case x of
          VMap m \<Rightarrow> map_option (\<lambda>e. arg_prefix op key @ '': '' @ e)
                     (or_else (check_required op m sch) (check_args ft op (schema_properties sch) m))
        | _ \<Rightarrow> None)
       (check_items ft op key sch xs)"
| "check_args ft op props [] = None"
| "check_args ft op props ((k, v) # args) =
     or_else
       (if is_empty_value v then None
        else case map_of props k of
               Some (VMap prop) \<Rightarrow> check_value ft op k prop v
             | _ \<Rightarrow> None)
       (check_args ft op props args)"

definition validate_args :: "(int \<Rightarrow> string) \<Rightarrow> string \<Rightarrow> row \<Rightarrow> row \<Rightarrow> string option" where
  "validate_args ft op args sch =
     or_else (check_required op args sch) (check_args ft op (schema_properties sch) args)"

definition validate_step_args :: "(int \<Rightarrow> string) \<Rightarrow> string \<Rightarrow> row \<Rightarrow> row option \<Rightarrow> string option" where
  "validate_step_args ft op args sch =
     (case sch of
        None \<Rightarrow> Some (''operation '' @ go_quote op @ '' has no projected schema for this turn'')
      | Some s \<Rightarrow> validate_args ft op args s)"

section \<open>Plan validation\<close>

definition step_no :: "nat \<Rightarrow> string" where
  "step_no i = ''step '' @ itoa (int i + 1)"

definition check_depends :: "nat \<Rightarrow> int list \<Rightarrow> string option" where
  "check_depends i deps =
     (case find (\<lambda>d. d < 0 \<or> int i \<le> d) deps of
        Some d \<Rightarrow> Some (step_no i @ '' depends_on '' @ itoa d @ '' is not a prior step (cycle or self-reference)'')
      | None \<Rightarrow> None)"

definition check_step :: "(int \<Rightarrow> string) \<Rightarrow> (string \<times> row) list \<Rightarrow> nat \<Rightarrow> plan_step \<Rightarrow> string option" where
  "check_step ft schemas i s =
     (if ps_operation s = [] then Some (step_no i @ '' has an empty operation'')
      else case map_of schemas (ps_operation s) of
        None \<Rightarrow> Some (step_no i @ '' references unknown operation '' @ go_quote (ps_operation s))
      | Some sch \<Rightarrow>
          or_else (map_option (\<lambda>e. step_no i @ '': '' @ e) (validate_args ft (ps_operation s) (ps_args s) sch))
            (check_depends i (ps_depends s)))"

fun check_steps :: "(int \<Rightarrow> string) \<Rightarrow> (string \<times> row) list \<Rightarrow> nat \<Rightarrow> plan_step list \<Rightarrow> string option" where
  "check_steps ft schemas i [] = None"
| "check_steps ft schemas i (s # ss) = or_else (check_step ft schemas i s) (check_steps ft schemas (Suc i) ss)"

definition plan_validate :: "(int \<Rightarrow> string) \<Rightarrow> plan option \<Rightarrow> (string \<times> row) list \<Rightarrow> string option" where
  "plan_validate ft p schemas =
     (case p of
        None \<Rightarrow> Some ''plan is empty: no steps were produced''
      | Some p \<Rightarrow>
          if pl_steps p = [] then Some ''plan is empty: no steps were produced''
          else check_steps ft schemas 0 (pl_steps p))"

definition sorted_operations :: "(string \<times> row) list \<Rightarrow> string list" where
  "sorted_operations schemas = sort (map fst schemas)"

definition plan_format :: row where
  "plan_format =
     [(''type'', VStr ''object''),
      (''properties'', VMap [(''steps'', VMap [(''type'', VStr ''array''),
         (''items'', VMap [(''type'', VStr ''object''),
            (''properties'', VMap [(''operation'', VMap [(''type'', VStr ''string'')]),
               (''args'', VMap [(''type'', VStr ''object''), (''additionalProperties'', VBool True)]),
               (''depends_on'', VMap [(''type'', VStr ''array''), (''items'', VMap [(''type'', VStr ''integer'')])])]),
            (''required'', VList [VStr ''operation'', VStr ''args''])])])]),
      (''required'', VList [VStr ''steps''])]"

section \<open>What validation guarantees\<close>

lemma or_else_None [simp]: "or_else a b = None \<longleftrightarrow> a = None \<and> b = None"
  by (simp add: or_else_def split: option.splits)

lemma check_required_None: "check_required op args sch = None \<longleftrightarrow> (\<forall>k \<in> set (required_keys sch). \<not> arg_missing args k)"
  by (auto simp: check_required_def find_None_iff split: option.splits dest: find_SomeD)

lemma check_args_None:
  "check_args ft op props args = None \<longleftrightarrow>
     (\<forall>(k, v) \<in> set args. \<forall>prop. \<not> is_empty_value v \<longrightarrow> map_of props k = Some (VMap prop) \<longrightarrow>
        check_value ft op k prop v = None)"
proof (induction args)
  case (Cons kv args)
  obtain k v where kv: "kv = (k, v)" by (cases kv)
  have "(if is_empty_value v then None
        else case map_of props k of Some (VMap prop) \<Rightarrow> check_value ft op k prop v | _ \<Rightarrow> None) = None \<longleftrightarrow>
      (\<forall>prop. \<not> is_empty_value v \<longrightarrow> map_of props k = Some (VMap prop) \<longrightarrow> check_value ft op k prop v = None)"
    by (auto split: option.splits val.splits)
  then show ?case using Cons.IH by (simp del: check_value.simps add: kv)
qed simp

lemma check_steps_None:
  "check_steps ft schemas i ss = None \<longleftrightarrow> (\<forall>j < length ss. check_step ft schemas (i + j) (ss ! j) = None)"
proof (induction ss arbitrary: i)
  case (Cons s ss)
  have "(\<forall>j < length (s # ss). check_step ft schemas (i + j) ((s # ss) ! j) = None) \<longleftrightarrow>
      check_step ft schemas i s = None \<and> (\<forall>j < length ss. check_step ft schemas (Suc i + j) (ss ! j) = None)"
    by (simp add: All_less_Suc2)
  then show ?case using Cons.IH by simp
qed simp

text \<open>
  A value fits a property schema: it is one of the enumerated values, has the type, and the objects in
  it fit the item schema. Only non-empty arguments are looked at.
\<close>

definition fits_type :: "row \<Rightarrow> val \<Rightarrow> bool" where
  "fits_type prop v \<longleftrightarrow> str_of (map_of prop ''type'') = [] \<or> has_json_type (str_of (map_of prop ''type'')) v"

definition fits_enum :: "(int \<Rightarrow> string) \<Rightarrow> row \<Rightarrow> val \<Rightarrow> bool" where
  "fits_enum ft prop v \<longleftrightarrow>
     (\<forall>e es. map_of prop ''enum'' = Some (VList (e # es)) \<longrightarrow> (\<exists>x \<in> set (e # es). fmt_v ft x = fmt_v ft v))"

lemma check_value_None:
  assumes "check_value ft op k prop v = None"
  shows "fits_type prop v \<and> fits_enum ft prop v"
proof -
  have e: "check_enum ft op k prop v = None"
    and t: "(let typ = str_of (map_of prop ''type'') in if typ = [] then None else check_type op k typ v) = None"
    using assms by simp_all
  have "fits_enum ft prop v" using e by (auto simp: fits_enum_def check_enum_def list_ex_iff split: if_splits)
  moreover have "fits_type prop v" using t by (auto simp: fits_type_def check_type_def Let_def split: if_splits)
  ultimately show ?thesis by blast
qed

lemma check_depends_None: "check_depends i deps = None \<longleftrightarrow> (\<forall>d \<in> set deps. 0 \<le> d \<and> d < int i)"
  by (auto simp: check_depends_def find_None_iff not_less not_le split: option.splits dest!: find_SomeD)

definition plan_edges :: "plan \<Rightarrow> (nat \<times> nat) set" where
  "plan_edges p = {(i, j). i < length (pl_steps p) \<and> int j \<in> set (ps_depends (pl_steps p ! i))}"

text \<open>a validated plan can run in the order it is written. It is not empty; every step names a tool of
  the turn and gives all its required arguments a non-empty value; every non-empty argument that the schema
  knows has the schema's type and one of its enumerated values; and every step depends on earlier steps
  only, so the dependencies have no cycle. Any violation rejects the plan as a whole.\<close>

theorem validated_plan:
  assumes "plan_validate ft (Some p) schemas = None"
  shows "pl_steps p \<noteq> [] \<and> acyclic (plan_edges p) \<and>
    (\<forall>i < length (pl_steps p). \<exists>sch. map_of schemas (ps_operation (pl_steps p ! i)) = Some sch \<and>
       (\<forall>k \<in> set (required_keys sch). \<not> arg_missing (ps_args (pl_steps p ! i)) k) \<and>
       (\<forall>k v prop. (k, v) \<in> set (ps_args (pl_steps p ! i)) \<longrightarrow> \<not> is_empty_value v \<longrightarrow>
          map_of (schema_properties sch) k = Some (VMap prop) \<longrightarrow> fits_type prop v \<and> fits_enum ft prop v) \<and>
       (\<forall>d \<in> set (ps_depends (pl_steps p ! i)). 0 \<le> d \<and> d < int i))"
proof (intro conjI allI impI)
  have ne: "pl_steps p \<noteq> []" and steps: "check_steps ft schemas 0 (pl_steps p) = None"
    using assms by (auto simp: plan_validate_def split: if_splits)
  show "pl_steps p \<noteq> []" by (rule ne)
  have step: "check_step ft schemas i (pl_steps p ! i) = None" if "i < length (pl_steps p)" for i
    using steps that by (simp add: check_steps_None)
  have deps: "\<forall>d \<in> set (ps_depends (pl_steps p ! i)). 0 \<le> d \<and> d < int i" if "i < length (pl_steps p)" for i
    using step [OF that] by (auto simp: check_step_def check_depends_None split: if_splits option.splits)
  have "(i, j) \<in> (plan_edges p)\<^sup>+ \<Longrightarrow> j < i" for i j
  proof (induction rule: trancl_induct)
    case (base j)
    then show ?case using deps [of i] by (fastforce simp: plan_edges_def)
  next
    case (step j k)
    then show ?case using deps [of j] by (fastforce simp: plan_edges_def)
  qed
  then show "acyclic (plan_edges p)" by (auto simp: acyclic_def)
  fix i assume i: "i < length (pl_steps p)"
  obtain sch where sch: "map_of schemas (ps_operation (pl_steps p ! i)) = Some sch"
    and va: "validate_args ft (ps_operation (pl_steps p ! i)) (ps_args (pl_steps p ! i)) sch = None"
    using step [OF i] by (auto simp: check_step_def split: if_splits option.splits)
  have req: "\<forall>k \<in> set (required_keys sch). \<not> arg_missing (ps_args (pl_steps p ! i)) k"
    using va by (simp add: validate_args_def check_required_None)
  have fits: "fits_type prop v \<and> fits_enum ft prop v"
    if "(k, v) \<in> set (ps_args (pl_steps p ! i))" "\<not> is_empty_value v"
      "map_of (schema_properties sch) k = Some (VMap prop)" for k v "prop"
  proof -
    have "check_args ft (ps_operation (pl_steps p ! i)) (schema_properties sch) (ps_args (pl_steps p ! i)) = None"
      using va by (simp add: validate_args_def)
    then have "check_value ft (ps_operation (pl_steps p ! i)) k prop v = None"
      using that unfolding check_args_None by blast
    then show ?thesis by (rule check_value_None)
  qed
  show "\<exists>sch. map_of schemas (ps_operation (pl_steps p ! i)) = Some sch \<and>
       (\<forall>k \<in> set (required_keys sch). \<not> arg_missing (ps_args (pl_steps p ! i)) k) \<and>
       (\<forall>k v prop. (k, v) \<in> set (ps_args (pl_steps p ! i)) \<longrightarrow> \<not> is_empty_value v \<longrightarrow>
          map_of (schema_properties sch) k = Some (VMap prop) \<longrightarrow> fits_type prop v \<and> fits_enum ft prop v) \<and>
       (\<forall>d \<in> set (ps_depends (pl_steps p ! i)). 0 \<le> d \<and> d < int i)"
    using sch req fits deps [OF i] by blast
qed

definition demo_schemas :: "(string \<times> row) list" where
  "demo_schemas = [(''create_note'', [(''properties'', VMap [(''text'', VMap [(''type'', VStr ''string'')])]),
     (''required'', VList [VStr ''text''])])]"

definition demo_plan :: "int \<Rightarrow> plan" where
  "demo_plan dep = \<lparr>pl_steps =
     [\<lparr>ps_operation = ''create_note'', ps_args = [(''text'', VStr ''a'')], ps_depends = []\<rparr>,
      \<lparr>ps_operation = ''create_note'', ps_args = [(''text'', VStr ''ref:0'')], ps_depends = [dep]\<rparr>]\<rparr>"

theorem validated_plan_witness:
  "acyclic (plan_edges (demo_plan 0)) \<and> plan_validate itoa (Some (demo_plan 1)) demo_schemas \<noteq> None"
proof -
  have "plan_validate itoa (Some (demo_plan 0)) demo_schemas = None" by code_simp
  from validated_plan [OF this] have "acyclic (plan_edges (demo_plan 0))" by blast
  moreover have "plan_validate itoa (Some (demo_plan 1)) demo_schemas \<noteq> None" by code_simp
  ultimately show ?thesis by blast
qed

text \<open>
  Enumerations are only checked when the schema holds them as \<open>[]any\<close>. The tool registry stores a field's
  options as \<open>[]string\<close>, and unless the schema was copied for a gated field they are never looked at.
\<close>

lemma string_options_unchecked: "map_of prop ''enum'' = Some (VStrs opts) \<Longrightarrow> check_enum ft op k prop v = None"
  by (simp add: check_enum_def)

end
