(* ===== verification/Naming.thy ===== *)
theory Naming
  imports Schema
begin

text \<open>
  Name derivations: \<open>camelToSnake\<close>, \<open>pluralizeTableName\<close>, \<open>humanizeLabel\<close> and \<open>parseTag\<close> of
  \<open>schema/parser.go\<close>, and the second, simpler \<open>snakeCase\<close> that the agent's tool registry and
  runtime use. Names are ASCII, as Go identifiers in the framework's conventions are.
\<close>

text \<open>
  The word-boundary test of \<open>camelToSnake\<close> and \<open>humanizeLabel\<close>: an upper-case letter that is not the
  first begins a word when its predecessor is a lower-case letter or digit or its successor is a
  lower-case letter.
\<close>

definition word_break :: "char option \<Rightarrow> char \<Rightarrow> string \<Rightarrow> bool" where
  "word_break prev c rest =
     (case prev of
        None \<Rightarrow> False
      | Some p \<Rightarrow> is_upper c \<and>
          (is_lower p \<or> is_digit p \<or> (case rest of [] \<Rightarrow> False | n # _ \<Rightarrow> is_lower n)))"

fun camel_to_snake_from :: "char option \<Rightarrow> string \<Rightarrow> string" where
  "camel_to_snake_from prev [] = []"
| "camel_to_snake_from prev (c # cs) =
     (if word_break prev c cs then [CHR ''_''] else []) @ ascii_lower c #
     camel_to_snake_from (Some c) cs"

definition camel_to_snake :: "string \<Rightarrow> string" where
  "camel_to_snake s = camel_to_snake_from None s"

definition pluralize_table_name :: "string \<Rightarrow> string" where
  "pluralize_table_name s = camel_to_snake s @ ''s''"

fun humanize_from :: "char option \<Rightarrow> string \<Rightarrow> string" where
  "humanize_from prev [] = []"
| "humanize_from prev (c # cs) =
     (if word_break prev c cs then [CHR '' ''] else []) @ c # humanize_from (Some c) cs"

definition humanize_label :: "string \<Rightarrow> string" where
  "humanize_label s = humanize_from None s"

text \<open>\<open>snakeCase\<close> of \<open>agent/tools\<close> and \<open>agent/runtime\<close>: every upper-case letter but the first.\<close>

fun snake_case_from :: "bool \<Rightarrow> string \<Rightarrow> string" where
  "snake_case_from first [] = []"
| "snake_case_from first (c # cs) =
     (if \<not> first \<and> is_upper c then [CHR ''_''] else []) @ ascii_lower c # snake_case_from False cs"

definition snake_case :: "string \<Rightarrow> string" where
  "snake_case s = snake_case_from True s"

text \<open>The names on which the two derivations agree: every later upper-case letter begins a word.\<close>

fun all_caps_break :: "char option \<Rightarrow> string \<Rightarrow> bool" where
  "all_caps_break prev [] = True"
| "all_caps_break prev (c # cs) =
     ((prev \<noteq> None \<and> is_upper c \<longrightarrow> word_break prev c cs) \<and> all_caps_break (Some c) cs)"

lemma ascii_lower_not_underscore_upper:
  "is_upper c \<Longrightarrow> ascii_lower c \<noteq> CHR ''_''"
  by (auto simp: is_upper_def ascii_lower_def Let_def dest!: arg_cong [where f = "of_char :: char \<Rightarrow> nat"])

lemma not_upper_ascii_lower [simp]: "\<not> is_upper (ascii_lower c)"
  by (auto simp: is_upper_def ascii_lower_def Let_def)

lemma ascii_lower_id: "\<not> is_upper c \<Longrightarrow> ascii_lower c = c"
  by (auto simp: is_upper_def ascii_lower_def Let_def)

lemma word_break_upper: "word_break prev c cs \<Longrightarrow> is_upper c"
  by (auto simp: word_break_def split: option.splits)

lemma snake_eq_camel_from:
  "camel_to_snake_from prev s = snake_case_from (prev = None) s \<longleftrightarrow> all_caps_break prev s"
proof (induction s arbitrary: prev)
  case Nil
  then show ?case by simp
next
  case (Cons c cs)
  have rest: "camel_to_snake_from (Some c) cs = snake_case_from False cs \<longleftrightarrow> all_caps_break (Some c) cs"
    using Cons.IH [of "Some c"] by simp
  show ?case
  proof (cases "prev \<noteq> None \<and> is_upper c")
    case True
    then show ?thesis
      using rest ascii_lower_not_underscore_upper [of c] by auto
  next
    case False
    then have "\<not> word_break prev c cs"
      by (auto simp: word_break_def split: option.splits)
    with False rest show ?thesis by auto
  qed
qed

lemma snake_eq_camel: "snake_case s = camel_to_snake s \<longleftrightarrow> all_caps_break None s"
  using snake_eq_camel_from [of None s] by (auto simp: snake_case_def camel_to_snake_def)

lemma not_upper_underscore [simp]: "\<not> is_upper (CHR ''_'')"
  by (simp add: is_upper_def)

lemma camel_to_snake_from_no_upper: "c \<in> set (camel_to_snake_from prev s) \<Longrightarrow> \<not> is_upper c"
  by (induction s arbitrary: prev) (auto split: if_splits)

lemma camel_to_snake_from_lower:
  "(\<forall>c \<in> set s. \<not> is_upper c) \<Longrightarrow> camel_to_snake_from prev s = s"
  by (induction s arbitrary: prev) (auto dest: word_break_upper simp: ascii_lower_id)

text \<open>Columns are already in column form, so deriving twice changes nothing.\<close>

lemma camel_to_snake_idem: "camel_to_snake (camel_to_snake s) = camel_to_snake s"
  unfolding camel_to_snake_def
  by (rule camel_to_snake_from_lower) (blast dest: camel_to_snake_from_no_upper)

section \<open>Struct tags\<close>

definition put_tag :: "(string \<times> string) list \<Rightarrow> string \<Rightarrow> (string \<times> string) list" where
  "put_tag m part =
     (let part = trim_space part in
      if part = [] then m
      else case index_byte part (CHR ''='') of
             Some i \<Rightarrow> AList.update (take i part) (drop (Suc i) part) m
           | None \<Rightarrow> AList.update part ''true'' m)"

definition parse_tag :: "string \<Rightarrow> (string \<times> string) list" where
  "parse_tag tag =
     (if tag = [] \<or> tag = ''-'' then [] else fold (\<lambda>part m. put_tag m part) (split_on (CHR '','') tag) [])"

definition tag_get :: "(string \<times> string) list \<Rightarrow> string \<Rightarrow> string" where
  "tag_get m k = (case map_of m k of None \<Rightarrow> [] | Some v \<Rightarrow> v)"

definition tag_true :: "(string \<times> string) list \<Rightarrow> string \<Rightarrow> bool" where
  "tag_true m k = (tag_get m k = ''true'')"

lemma wf_map_parse_tag: "wf_map (parse_tag tag)"
proof -
  have "wf_map (fold (\<lambda>part m. put_tag m part) ps m)" if "wf_map m" for ps m
    using that
    by (induction ps arbitrary: m) (auto simp: put_tag_def Let_def wf_map_update split: option.splits)
  then show ?thesis by (simp add: parse_tag_def wf_map_def)
qed

section \<open>Properties\<close>

text \<open>Deriving a column from a column changes nothing, and the tool layer's \<open>snakeCase\<close> gives the
  column of a field exactly when every later capital of the name begins a word.\<close>

theorem column_names:
  "camel_to_snake (camel_to_snake s) = camel_to_snake s \<and>
   (snake_case s = camel_to_snake s \<longleftrightarrow> all_caps_break None s)"
  using camel_to_snake_idem snake_eq_camel by blast

end
