(* ===== verification/Registry.thy ===== *)
theory Registry
  imports Naming
begin

text \<open>
  Compilation of documents: field extraction by reflection (\<open>schema/parser.go\<close>) over a model of Go
  types, and the registry with its one-shot \<open>Compile\<close> (\<open>schema/registry.go\<close>).
\<close>

section \<open>Go types as the reflection code sees them\<close>

text \<open>
  A named type carries its package path, its \<open>String()\<close> and its name over an underlying type; a
  struct type is identified by an id, and an environment gives the members of each id, so types may
  be recursive.
\<close>

datatype prim_kind = KString | KInt | KInt64 | KFloat64 | KBool | KUint8 | KOther

datatype gotype =
    TNamed string string string gotype
  | TPrim prim_kind
  | TSlice gotype
  | TPtr gotype
  | TStruct string

record sfield =
  sf_name :: string
  sf_anonymous :: bool
  sf_tag :: string
  sf_type :: gotype

type_synonym type_env = "(string \<times> sfield list) list"

fun underlying :: "gotype \<Rightarrow> gotype" where
  "underlying (TNamed p s n t) = underlying t"
| "underlying t = t"

definition type_pkg :: "gotype \<Rightarrow> string" where
  "type_pkg t = (case t of TNamed p s n u \<Rightarrow> p | _ \<Rightarrow> [])"

definition type_string :: "gotype \<Rightarrow> string" where
  "type_string t = (case t of TNamed p s n u \<Rightarrow> s | _ \<Rightarrow> [])"

definition type_name :: "gotype \<Rightarrow> string" where
  "type_name t = (case t of TNamed p s n u \<Rightarrow> n | _ \<Rightarrow> [])"

definition struct_id :: "gotype \<Rightarrow> string option" where
  "struct_id t = (case underlying t of TStruct i \<Rightarrow> Some i | _ \<Rightarrow> None)"

definition slice_elem :: "gotype \<Rightarrow> gotype option" where
  "slice_elem t = (case underlying t of TSlice e \<Rightarrow> Some e | _ \<Rightarrow> None)"

definition get_field_type :: "gotype \<Rightarrow> field_type" where
  "get_field_type t =
     (if type_pkg t = ''time'' \<and> type_name t = ''Time'' then FTDateTime
      else let s = type_string t in
      if s = ''schema.Link'' \<or> s = ''Link'' then FTLink
      else if s = ''schema.Date'' \<or> s = ''Date'' then FTDate
      else if s = ''schema.DateTime'' \<or> s = ''DateTime'' then FTDateTime
      else if s = ''schema.Currency'' \<or> s = ''Currency'' then FTCurrency
      else if s = ''schema.Text'' \<or> s = ''Text'' then FTText
      else if s = ''schema.RichText'' \<or> s = ''RichText'' then FTRichText
      else if s = ''schema.DynamicLink'' \<or> s = ''DynamicLink'' then FTDynamicLink
      else if s = ''schema.Attachment'' \<or> s = ''Attachment'' then FTAttachment
      else if s = ''schema.JSON'' \<or> s = ''JSON'' then FTJSON
      else case underlying t of
             TPrim KString \<Rightarrow> FTString
           | TPrim KInt \<Rightarrow> FTInt
           | TPrim KInt64 \<Rightarrow> FTInt64
           | TPrim KFloat64 \<Rightarrow> FTFloat64
           | TPrim KBool \<Rightarrow> FTBool
           | TSlice e \<Rightarrow>
               (case underlying e of
                  TPrim KUint8 \<Rightarrow> FTJSON
                | TStruct i \<Rightarrow> FTChildTable
                | _ \<Rightarrow> FTString)
           | _ \<Rightarrow> FTString)"

section \<open>Field extraction\<close>

definition build_field :: "sfield \<Rightarrow> (string \<times> string) list \<Rightarrow> field_type \<Rightarrow> field" where
  "build_field f tags ty =
     zero_field\<lparr>
       f_name := sf_name f,
       f_db_column := camel_to_snake (sf_name f),
       f_type := ty,
       f_required := tag_true tags ''required'',
       f_unique := tag_true tags ''unique'',
       f_searchable := tag_true tags ''searchable'',
       f_label := (if tag_get tags ''label'' = [] then humanize_label (sf_name f)
                   else tag_get tags ''label''),
       f_default := tag_get tags ''default'',
       f_format := tag_get tags ''format'',
       f_link_target := tag_get tags ''link'',
       f_hidden := tag_true tags ''hidden'',
       f_read_only := tag_true tags ''readonly'',
       f_computed := tag_true tags ''computed'',
       f_agent_hint := tag_get tags ''agent_hint'',
       f_agent_hidden := tag_true tags ''agent_hidden'',
       f_options := (case map_of tags ''options'' of
                       Some v \<Rightarrow> split_on (CHR ''|'') v | None \<Rightarrow> []),
       f_precision := (case map_of tags ''precision'' of
                         Some v \<Rightarrow> (case atoi v of Some p \<Rightarrow> p | None \<Rightarrow> 0) | None \<Rightarrow> 0),
       f_permission_role := tag_get tags ''permission'',
       f_validator_name := tag_get tags ''validator''\<rparr>"

definition member_type :: "sfield \<Rightarrow> (string \<times> string) list \<Rightarrow> field_type" where
  "member_type f tags =
     (let ty = get_field_type (sf_type f) in
      if tag_true tags ''child_table'' \<and> ty \<noteq> FTChildTable \<and>
         (case slice_elem (sf_type f) of Some e \<Rightarrow> struct_id e \<noteq> None | None \<Rightarrow> False)
      then FTChildTable else ty)"

definition deref :: "gotype \<Rightarrow> gotype" where
  "deref t = (case underlying t of TPtr u \<Rightarrow> u | _ \<Rightarrow> t)"

text \<open>
  \<open>parseFieldsInternal\<close>: \<open>visited\<close> holds the struct types on the path from the root; meeting one of
  them again is the circular child-table error. An id without members is an empty struct.
\<close>

function parse_struct ::
    "type_env \<Rightarrow> string list \<Rightarrow> gotype \<Rightarrow> gerror + (field list \<times> compiled_child list)"
  and parse_members ::
    "type_env \<Rightarrow> string list \<Rightarrow> sfield list \<Rightarrow> gerror + (field list \<times> compiled_child list)" where
  "parse_struct env visited t =
     (let t = deref t in
      case struct_id t of
        None \<Rightarrow> Inr ([], [])
      | Some sid \<Rightarrow>
          if sid \<in> set visited
          then Inl (validation_err (''circular child table definition detected: '' @ type_name t) [])
          else case map_of env sid of
                 None \<Rightarrow> Inr ([], [])
               | Some fs \<Rightarrow> parse_members env (sid # visited) fs)"
| "parse_members env visited [] = Inr ([], [])"
| "parse_members env visited (f # fs) =
     (if sf_anonymous f \<and> (sf_name f = ''BaseDocument'' \<or> sf_name f = ''BaseChild'')
      then parse_members env visited fs
      else if sf_tag f = ''-'' then parse_members env visited fs
      else let tags = parse_tag (sf_tag f); ty = member_type f tags in
        if ty = FTChildTable then
          (let elem = (case slice_elem (sf_type f) of Some e \<Rightarrow> e | None \<Rightarrow> sf_type f);
               tn = type_name elem
           in case parse_struct env visited elem of
                Inl e \<Rightarrow> Inl e
              | Inr (cfs, _) \<Rightarrow>
                  (case parse_members env visited fs of
                     Inl e \<Rightarrow> Inl e
                   | Inr (rest, ch) \<Rightarrow>
                       Inr (rest, \<lparr>cc_field_name = sf_name f, cc_type_name = tn,
                                   cc_doc_type = camel_to_snake tn,
                                   cc_table_name = pluralize_table_name tn,
                                   cc_fields = cfs\<rparr> # ch)))
        else
          (case parse_members env visited fs of
             Inl e \<Rightarrow> Inl e
           | Inr (rest, ch) \<Rightarrow> Inr (build_field f tags ty # rest, ch)))"
  by pat_completeness auto
termination
proof (relation "measures
    [\<lambda>x. case x of Inl (env, v, t) \<Rightarrow> card (set (map fst env) - set v)
                 | Inr (env, v, fs) \<Rightarrow> card (set (map fst env) - set v),
     \<lambda>x. case x of Inl (env, v, t) \<Rightarrow> 0 | Inr (env, v, fs) \<Rightarrow> length fs]", goal_cases)
  case (2 env visited t x sid fs)
  then have "(sid, fs) \<in> set env" and "sid \<notin> set visited" by (auto dest: map_of_SomeD)
  then have sid: "sid \<in> set (map fst env) - set visited" by force
  have "set (map fst env) - set (sid # visited) = set (map fst env) - set visited - {sid}"
    by auto
  then have "card (set (map fst env) - set (sid # visited)) < card (set (map fst env) - set visited)"
    using card_Diff1_less [OF _ sid] by simp
  then show ?case by simp
qed auto

definition parse_fields :: "type_env \<Rightarrow> gotype \<Rightarrow> gerror + (field list \<times> compiled_child list)" where
  "parse_fields env t = parse_struct env [] t"

section \<open>The schema registry\<close>

text \<open>A registered document: what \<open>DocMeta()\<close> and \<open>reflect.TypeOf\<close> return for it.\<close>

record go_doc =
  gd_meta :: meta
  gd_type :: gotype

record registry =
  rg_docs :: "(string \<times> compiled_doc) list"
  rg_registered :: "(string \<times> go_doc) list"
  rg_compiled :: bool
  rg_app_deps :: "(string \<times> string list) list"

definition new_registry :: registry where
  "new_registry = \<lparr>rg_docs = [], rg_registered = [], rg_compiled = False, rg_app_deps = []\<rparr>"

definition register_dependency :: "registry \<Rightarrow> string \<Rightarrow> string \<Rightarrow> registry" where
  "register_dependency r app dep =
     r\<lparr>rg_app_deps := AList.update app
         ((case map_of (rg_app_deps r) app of None \<Rightarrow> [] | Some ds \<Rightarrow> ds) @ [dep]) (rg_app_deps r)\<rparr>"

definition registry_register :: "string \<Rightarrow> go_doc \<Rightarrow> (registry, gerror, unit) step" where
  "registry_register app doc = (\<lambda>r.
     if rg_compiled r
     then (Inl (new_error CodeConflict
             ''cannot register document: registry is compiled and locked'' [] None), r)
     else if m_name (gd_meta doc) = []
     then (Inl (new_error CodeValidation ''document Meta.Name cannot be empty'' [] None), r)
     else (Inr (), r\<lparr>rg_registered := rg_registered r @ [(app, doc)]\<rparr>))"

definition base_document_fields :: "field list" where
  "base_document_fields =
     [zero_field\<lparr>f_name := ''ID'', f_db_column := ''id'', f_type := FTString, f_required := True,
        f_label := ''ID'', f_hidden := True, f_system := True\<rparr>,
      zero_field\<lparr>f_name := ''Name'', f_db_column := ''name'', f_type := FTString, f_label := ''Name''\<rparr>,
      zero_field\<lparr>f_name := ''Owner'', f_db_column := ''owner'', f_type := FTString,
        f_label := ''Owner'', f_hidden := True, f_system := True\<rparr>,
      zero_field\<lparr>f_name := ''CreatedAt'', f_db_column := ''created_at'', f_type := FTDateTime,
        f_label := ''Created At'', f_hidden := True, f_system := True\<rparr>,
      zero_field\<lparr>f_name := ''UpdatedAt'', f_db_column := ''updated_at'', f_type := FTDateTime,
        f_label := ''Updated At'', f_hidden := True, f_system := True\<rparr>,
      zero_field\<lparr>f_name := ''ModifiedBy'', f_db_column := ''modified_by'', f_type := FTString,
        f_label := ''Modified By'', f_hidden := True, f_system := True\<rparr>,
      zero_field\<lparr>f_name := ''DocStatus'', f_db_column := ''doc_status'', f_type := FTInt,
        f_label := ''Doc Status'', f_hidden := True, f_system := True\<rparr>,
      zero_field\<lparr>f_name := ''Deleted'', f_db_column := ''deleted'', f_type := FTBool,
        f_label := ''Deleted'', f_hidden := True, f_system := True\<rparr>]"

definition base_child_fields :: "field list" where
  "base_child_fields =
     [zero_field\<lparr>f_name := ''ID'', f_db_column := ''id'', f_type := FTString, f_required := True,
        f_label := ''ID'', f_system := True\<rparr>,
      zero_field\<lparr>f_name := ''ParentID'', f_db_column := ''parent_id'', f_type := FTString,
        f_required := True, f_label := ''Parent ID'', f_system := True\<rparr>,
      zero_field\<lparr>f_name := ''Idx'', f_db_column := ''idx'', f_type := FTInt, f_required := True,
        f_label := ''Idx'', f_system := True\<rparr>]"

subsection \<open>Compile\<close>

text \<open>Pass 1: an application's documents come after the first document of each dependency.\<close>

fun first_index :: "nat \<Rightarrow> string \<Rightarrow> (string \<times> go_doc) list \<Rightarrow> nat option" where
  "first_index i app [] = None"
| "first_index i app ((a, d) # rs) = (if a = app then Some i else first_index (Suc i) app rs)"

definition dep_violation :: "(string \<times> go_doc) list \<Rightarrow> nat \<Rightarrow> string \<Rightarrow> bool" where
  "dep_violation regs idx dep = (case first_index 0 dep regs of None \<Rightarrow> False | Some j \<Rightarrow> idx < j)"

fun check_app_order ::
    "(string \<times> string list) list \<Rightarrow> (string \<times> go_doc) list \<Rightarrow> nat \<Rightarrow> (string \<times> go_doc) list \<Rightarrow> gerror option" where
  "check_app_order deps regs idx [] = None"
| "check_app_order deps regs idx ((app, d) # rs) =
     (case filter (dep_violation regs idx) (case map_of deps app of None \<Rightarrow> [] | Some ds \<Rightarrow> ds) of
        [] \<Rightarrow> check_app_order deps regs (Suc idx) rs
      | dep # _ \<Rightarrow> Some (new_error CodeValidation
          (''app-dependency-ordered registration violation: app '' @ go_quote app @ '' depends on '' @
           go_quote dep @ '', but '' @ go_quote dep @ '' documents were registered after '' @ go_quote app)
          [] None))"

text \<open>Pass 2: one compiled document per registration; base fields come first.\<close>

definition compile_doc :: "type_env \<Rightarrow> string \<Rightarrow> go_doc \<Rightarrow> gerror + compiled_doc" where
  "compile_doc env app doc =
     bind_r (parse_fields env (gd_type doc)) (\<lambda>(fields, children).
       let m = gd_meta doc in
       Inr \<lparr>d_name = m_name m, d_app = app, d_module = m_module m,
            d_table_name = pluralize_table_name (m_name m),
            d_searchable = m_searchable m, d_submittable = m_submittable m, d_icon = m_icon m,
            d_description = m_description m, d_title_field = m_title_field m,
            d_sort_field = m_sort_field m, d_sort_order = m_sort_order m,
            d_fields = base_document_fields @ fields,
            d_permissions = m_permissions m,
            d_child_tables = map (\<lambda>c. c\<lparr>cc_fields := base_child_fields @ cc_fields c\<rparr>) children,
            d_agent_hidden = m_agent_hidden m\<rparr>)"

fun compile_docs ::
    "type_env \<Rightarrow> (string \<times> go_doc) list \<Rightarrow> ((string \<times> compiled_doc) list, gerror, unit) step" where
  "compile_docs env [] docs = (Inr (), docs)"
| "compile_docs env ((app, doc) # rs) docs =
     (let name = m_name (gd_meta doc) in
      if map_of docs name \<noteq> None
      then (Inl (new_error CodeValidation (''duplicate Document name registered: '' @ go_quote name) [] None), docs)
      else case compile_doc env app doc of
             Inl e \<Rightarrow> (Inl e, docs)
           | Inr c \<Rightarrow> compile_docs env rs (AList.update name c docs))"

text \<open>Pass 3: every link points to a compiled document.\<close>

definition link_error :: "(string \<times> compiled_doc) list \<Rightarrow> string \<Rightarrow> field \<Rightarrow> gerror option" where
  "link_error docs place f =
     (if f_type f \<noteq> FTLink then None
      else if f_link_target f = []
      then Some (new_error CodeValidation
             (''Link field '' @ go_quote (f_name f) @ '' in '' @ place @ '' lacks a link target'') [] None)
      else if map_of docs (f_link_target f) = None
      then Some (new_error CodeValidation
             (''Link field '' @ go_quote (f_name f) @ '' in '' @ place @
              '' references non-existent DocType '' @ go_quote (f_link_target f)) [] None)
      else None)"

definition doc_links :: "compiled_doc \<Rightarrow> (string \<times> field) list" where
  "doc_links d =
     map (\<lambda>f. (go_quote (d_name d), f)) (d_fields d) @
     concat (map (\<lambda>c. map (\<lambda>f. (''child table '' @ go_quote (cc_type_name c) @ '' of '' @
                                  go_quote (d_name d), f)) (cc_fields c)) (d_child_tables d))"

definition check_links :: "(string \<times> compiled_doc) list \<Rightarrow> gerror option" where
  "check_links docs =
     (case concat (map (\<lambda>(n, d). List.map_filter (\<lambda>(pl, f). link_error docs pl f) (doc_links d)) docs) of
        [] \<Rightarrow> None | e # _ \<Rightarrow> Some e)"

definition registry_compile :: "type_env \<Rightarrow> (registry, gerror, unit) step" where
  "registry_compile env = (\<lambda>r.
     if rg_compiled r then (Inl (new_error CodeConflict ''registry is already compiled'' [] None), r)
     else case check_app_order (rg_app_deps r) (rg_registered r) 0 (rg_registered r) of
       Some e \<Rightarrow> (Inl e, r)
     | None \<Rightarrow>
         (case compile_docs env (rg_registered r) (rg_docs r) of
            (Inl e, docs) \<Rightarrow> (Inl e, r\<lparr>rg_docs := docs\<rparr>)
          | (Inr _, docs) \<Rightarrow>
              (case check_links docs of
                 Some e \<Rightarrow> (Inl e, r\<lparr>rg_docs := docs\<rparr>)
               | None \<Rightarrow> (Inr (), r\<lparr>rg_docs := docs, rg_compiled := True\<rparr>))))"

subsection \<open>Lookups\<close>

definition registry_get :: "registry \<Rightarrow> string \<Rightarrow> gerror + compiled_doc" where
  "registry_get r dt =
     (case map_of (rg_docs r) dt of
        None \<Rightarrow> Inl (new_error CodeNotFound (''DocType '' @ go_quote dt @ '' not found in Registry'') [] None)
      | Some d \<Rightarrow> Inr d)"

definition registry_list :: "registry \<Rightarrow> compiled_doc list" where
  "registry_list r = map snd (rg_docs r)"

definition link_rels :: "compiled_doc \<Rightarrow> relationship list" where
  "link_rels d =
     map (\<lambda>f. \<lparr>r_from_doc = d_name d, r_from_field = f_name f, r_to_doc = f_link_target f,
               r_is_child_table = False\<rparr>)
       (filter (\<lambda>f. f_type f = FTLink) (d_fields d))"

definition registry_relationships :: "registry \<Rightarrow> string \<Rightarrow> relationship list" where
  "registry_relationships r dt =
     (case map_of (rg_docs r) dt of
        None \<Rightarrow> []
      | Some d \<Rightarrow>
          map (\<lambda>f. \<lparr>r_from_doc = dt, r_from_field = f_name f, r_to_doc = f_link_target f,
                    r_is_child_table = False\<rparr>) (filter (\<lambda>f. f_type f = FTLink) (d_fields d)) @
          map (\<lambda>c. \<lparr>r_from_doc = dt, r_from_field = cc_field_name c, r_to_doc = cc_doc_type c,
                    r_is_child_table = True\<rparr>) (d_child_tables d)) @
     concat (map (\<lambda>d. filter (\<lambda>x. r_to_doc x = dt) (link_rels d))
               (filter (\<lambda>d. d_name d \<noteq> dt) (registry_list r)))"

section \<open>What a successful Compile establishes\<close>

lemma registry_compile_Inr:
  assumes "registry_compile env r = (Inr u, r')"
  shows "\<not> rg_compiled r \<and> check_app_order (rg_app_deps r) (rg_registered r) 0 (rg_registered r) = None \<and>
    (\<exists>docs. compile_docs env (rg_registered r) (rg_docs r) = (Inr (), docs) \<and> check_links docs = None \<and>
       r' = r\<lparr>rg_docs := docs, rg_compiled := True\<rparr>)"
  using assms
  by (auto simp: registry_compile_def split: if_splits option.splits prod.splits sum.splits)

lemma check_links_None:
  assumes "check_links docs = None" and "(n, d) \<in> set docs" and "(pl, f) \<in> set (doc_links d)"
  shows "link_error docs pl f = None"
proof (rule ccontr)
  assume "link_error docs pl f \<noteq> None"
  then obtain e where "link_error docs pl f = Some e" by blast
  then have "e \<in> set (List.map_filter (\<lambda>(pl, f). link_error docs pl f) (doc_links d))"
    using assms(3) by (force simp: List.map_filter_def)
  then have "e \<in> set (concat (map (\<lambda>(n, d). List.map_filter (\<lambda>(pl, f). link_error docs pl f) (doc_links d)) docs))"
    using assms(2) by auto
  then show False using assms(1) unfolding check_links_def by (auto split: list.splits)
qed

lemma link_error_None:
  "link_error docs pl f = None \<Longrightarrow> f_type f = FTLink \<Longrightarrow>
     f_link_target f \<noteq> [] \<and> f_link_target f \<in> set (map_keys docs)"
  by (auto simp: link_error_def map_of_eq_None_iff split: if_splits)

definition doc_fields_all :: "compiled_doc \<Rightarrow> field list" where
  "doc_fields_all d = d_fields d @ concat (map cc_fields (d_child_tables d))"

lemma doc_links_all: "f \<in> set (doc_fields_all d) \<longleftrightarrow> (\<exists>pl. (pl, f) \<in> set (doc_links d))"
  by (auto simp: doc_fields_all_def doc_links_def)

text \<open>The documents are the registrations, compiled in order, under distinct names.\<close>

lemma compile_docs_Inr:
  "compile_docs env regs docs = (Inr u, docs') \<Longrightarrow> wf_map docs \<Longrightarrow>
     wf_map docs' \<and> map_keys docs' = map_keys docs @ map (\<lambda>(a, d). m_name (gd_meta d)) regs \<and>
     (\<forall>n c. map_of docs' n = Some c \<longrightarrow>
        map_of docs n = Some c \<or>
        (\<exists>a d. (a, d) \<in> set regs \<and> n = m_name (gd_meta d) \<and> compile_doc env a d = Inr c))"
proof (induction env regs docs rule: compile_docs.induct)
  case (1 env docs)
  then show ?case by simp
next
  case (2 env app doc rs docs)
  define name where "name = m_name (gd_meta doc)"
  obtain c where c: "map_of docs name = None" "compile_doc env app doc = Inr c"
    "compile_docs env rs (AList.update name c docs) = (Inr u, docs')"
    using 2(2) by (auto simp: name_def Let_def split: if_splits sum.splits)
  have fresh: "name \<notin> set (map_keys docs)" using c(1) by (simp add: map_of_eq_None_iff)
  then have upd: "AList.update name c docs = docs @ [(name, c)]" by (rule update_fresh)
  have "wf_map (AList.update name c docs)" using 2(3) by (rule wf_map_update)
  with 2(1) [OF name_def _ c(2,3)] c(1)
  have *: "wf_map docs'"
    "map_keys docs' = map_keys (AList.update name c docs) @ map (\<lambda>(a, d). m_name (gd_meta d)) rs"
    "\<forall>n x. map_of docs' n = Some x \<longrightarrow> map_of (AList.update name c docs) n = Some x \<or>
        (\<exists>a d. (a, d) \<in> set rs \<and> n = m_name (gd_meta d) \<and> compile_doc env a d = Inr x)"
    by auto
  have "map_of docs n = Some x \<or>
      (\<exists>a d. (a, d) \<in> set ((app, doc) # rs) \<and> n = m_name (gd_meta d) \<and> compile_doc env a d = Inr x)"
    if n: "map_of docs' n = Some x" for n x
  proof (cases "map_of (AList.update name c docs) n = Some x")
    case True
    then show ?thesis using c(2) by (cases "n = name") (auto simp: map_of_update name_def)
  next
    case False
    with *(3) n obtain a d where "(a, d) \<in> set rs" "n = m_name (gd_meta d)" "compile_doc env a d = Inr x"
      by blast
    then have "(a, d) \<in> set ((app, doc) # rs) \<and> n = m_name (gd_meta d) \<and> compile_doc env a d = Inr x"
      by simp
    then show ?thesis by blast
  qed
  moreover have "map_keys (AList.update name c docs) = map_keys docs @ [name]" by (simp add: upd)
  ultimately show ?case using *(1,2) by (simp add: name_def)
qed

lemma compile_doc_Inr:
  "compile_doc env app doc = Inr c \<Longrightarrow>
     d_name c = m_name (gd_meta doc) \<and> d_app c = app \<and>
     d_table_name c = pluralize_table_name (m_name (gd_meta doc)) \<and>
     (\<exists>fields children. parse_fields env (gd_type doc) = Inr (fields, children) \<and>
        d_fields c = base_document_fields @ fields \<and>
        d_child_tables c = map (\<lambda>x. x\<lparr>cc_fields := base_child_fields @ cc_fields x\<rparr>) children)"
  by (auto simp: compile_doc_def bind_r_Inr Let_def split: prod.splits)

lemma build_field_simps [simp]:
  "f_type (build_field f tags ty) = ty"
  "f_name (build_field f tags ty) = sf_name f"
  "f_db_column (build_field f tags ty) = camel_to_snake (sf_name f)"
  by (simp_all add: build_field_def)

text \<open>Fields of a document never have the child-table type: those became child tables.\<close>

lemma parse_members_Cons:
  assumes "parse_members env v (m # ms) = Inr (fs, ch)"
  shows "\<exists>fs' ch'. parse_members env v ms = Inr (fs', ch') \<and>
    (fs = fs' \<or> (\<exists>tags ty. ty \<noteq> FTChildTable \<and> fs = build_field m tags ty # fs'))"
  using assms by (auto simp: Let_def split: if_split_asm sum.splits prod.splits)

lemma parse_members_no_child:
  "parse_members env v ms = Inr (fs, ch) \<Longrightarrow> f \<in> set fs \<Longrightarrow> f_type f \<noteq> FTChildTable"
proof (induction ms arbitrary: fs ch)
  case Nil
  then show ?case by simp
next
  case (Cons m ms)
  from parse_members_Cons [OF Cons.prems(1)] Cons show ?case by fastforce
qed

lemma parse_fields_no_child:
  "parse_fields env t = Inr (fs, ch) \<Longrightarrow> f \<in> set fs \<Longrightarrow> f_type f \<noteq> FTChildTable"
  by (auto simp: parse_fields_def Let_def dest: parse_members_no_child split: option.splits if_splits)

text \<open>An application whose dependency has registered documents comes after the first of them.\<close>

lemma check_app_order_None:
  "check_app_order deps regs k rs = None \<Longrightarrow> i < length rs \<Longrightarrow> rs ! i = (app, d) \<Longrightarrow>
     map_of deps app = Some ds \<Longrightarrow> dep \<in> set ds \<Longrightarrow> \<not> dep_violation regs (k + i) dep"
proof (induction deps regs k rs arbitrary: i rule: check_app_order.induct)
  case (1 deps regs idx)
  then show ?case by simp
next
  case (2 deps regs idx a x rs)
  from 2(2) have here: "filter (dep_violation regs idx) (case map_of deps a of None \<Rightarrow> [] | Some ds \<Rightarrow> ds) = []"
    and rest: "check_app_order deps regs (Suc idx) rs = None"
    by (auto split: list.splits)
  show ?case
  proof (cases i)
    case 0
    with 2 here show ?thesis by (auto simp: filter_empty_conv)
  next
    case (Suc j)
    with 2(1) [OF here rest, of j] 2(3-6) show ?thesis by simp
  qed
qed

lemma first_index_le:
  "j < length rs \<Longrightarrow> fst (rs ! j) = app \<Longrightarrow> \<exists>i. first_index k app rs = Some (k + i) \<and> i \<le> j"
proof (induction k app rs arbitrary: j rule: first_index.induct)
  case (2 i app a d rs)
  show ?case
  proof (cases j)
    case 0
    with 2 show ?thesis by simp
  next
    case (Suc j')
    show ?thesis
    proof (cases "a = app")
      case True
      then show ?thesis by simp
    next
      case False
      with 2(1) [OF False, of j'] 2(2,3) Suc
      obtain x where "first_index (Suc i) app rs = Some (Suc i + x)" "x \<le> j'" by auto
      with False Suc show ?thesis by (intro exI [of _ "Suc x"]) simp
    qed
  qed
qed simp

lemma first_index_hit: "first_index k app rs = Some i \<Longrightarrow> k \<le> i \<and> fst (rs ! (i - k)) = app"
proof (induction k app rs rule: first_index.induct)
  case (2 k app a d rs)
  then show ?case
    by (cases "a = app") (auto simp: nth_Cons' diff_Suc split: nat.splits)
qed simp

section \<open>Properties\<close>

text \<open>C18: After a successful \<open>Compile\<close> the registry holds exactly the registered documents, under
  distinct names, each with the base fields first, and every link field of a document or of one of its
  child tables names a compiled document.\<close>

theorem compile_sound:
  assumes "registry_compile env r = (Inr u, r')" and "rg_docs r = []"
  shows "rg_compiled r' \<and>
    map_keys (rg_docs r') = map (\<lambda>(a, d). m_name (gd_meta d)) (rg_registered r) \<and>
    distinct (map_keys (rg_docs r')) \<and>
    (\<forall>d \<in> set (registry_list r'). (\<exists>fs. d_fields d = base_document_fields @ fs) \<and>
       (\<forall>f \<in> set (doc_fields_all d). f_type f = FTLink \<longrightarrow> f_link_target f \<in> set (map_keys (rg_docs r'))))"
proof -
  obtain docs where c: "compile_docs env (rg_registered r) [] = (Inr (), docs)"
    and l: "check_links docs = None" and r': "r' = r\<lparr>rg_docs := docs, rg_compiled := True\<rparr>"
    using registry_compile_Inr [OF assms(1)] assms(2) by auto
  have "wf_map []" by (simp add: wf_map_def)
  note docs = compile_docs_Inr [OF c this]
  have "(\<exists>fs. d_fields d = base_document_fields @ fs) \<and>
      (\<forall>f \<in> set (doc_fields_all d). f_type f = FTLink \<longrightarrow> f_link_target f \<in> set (map_keys docs))"
    if "(n, d) \<in> set docs" for n d
  proof -
    from docs have "wf_map docs" by blast
    then have "map_of docs n = Some d" using that by (simp add: wf_map_def)
    then obtain a x where "compile_doc env a x = Inr d" using docs by fastforce
    then have "\<exists>fs. d_fields d = base_document_fields @ fs" by (auto dest: compile_doc_Inr)
    moreover have "f_link_target f \<in> set (map_keys docs)"
      if f: "f \<in> set (doc_fields_all d)" "f_type f = FTLink" for f
    proof -
      from f(1) obtain pl where "(pl, f) \<in> set (doc_links d)" by (auto simp: doc_links_all)
      with l \<open>(n, d) \<in> set docs\<close> have "link_error docs pl f = None" by (rule check_links_None)
      then show ?thesis using f(2) link_error_None by blast
    qed
    ultimately show ?thesis by blast
  qed
  with docs r' show ?thesis by (auto simp: registry_list_def wf_map_def)
qed

text \<open>Two documents of two applications; the second links to the first.\<close>

definition demo_meta :: "string \<Rightarrow> meta" where
  "demo_meta n = \<lparr>m_name = n, m_module = [], m_searchable = False, m_submittable = False, m_icon = [],
     m_description = [], m_agent_hidden = False, m_title_field = [], m_sort_field = [],
     m_sort_order = Ascending, m_permissions = []\<rparr>"

definition demo_types :: type_env where
  "demo_types =
     [(''p.Project'', [\<lparr>sf_name = ''BaseDocument'', sf_anonymous = True, sf_tag = [], sf_type = TStruct ''b''\<rparr>,
                     \<lparr>sf_name = ''Code'', sf_anonymous = False, sf_tag = ''required,unique'', sf_type = TPrim KString\<rparr>]),
      (''p.Task'', [\<lparr>sf_name = ''Project'', sf_anonymous = False, sf_tag = ''link=Project'',
                    sf_type = TNamed ''schema'' ''schema.Link'' ''Link'' (TPrim KString)\<rparr>])]"

definition demo_registered :: registry where
  "demo_registered = new_registry
     \<lparr>rg_registered := [(''base'', \<lparr>gd_meta = demo_meta ''Project'', gd_type = TPtr (TStruct ''p.Project'')\<rparr>),
                       (''todo'', \<lparr>gd_meta = demo_meta ''Task'', gd_type = TPtr (TStruct ''p.Task'')\<rparr>)],
      rg_app_deps := [(''todo'', [''base''])]\<rparr>"

definition demo_compiled :: registry where
  "demo_compiled = snd (registry_compile demo_types demo_registered)"

theorem compile_sound_witness:
  "fst (registry_compile demo_types demo_registered) = Inr () \<and> rg_compiled demo_compiled \<and>
   map_keys (rg_docs demo_compiled) = [''Project'', ''Task'']"
proof -
  have f: "fst (registry_compile demo_types demo_registered) = Inr ()" by code_simp
  then have "registry_compile demo_types demo_registered = (Inr (), demo_compiled)"
    by (simp add: demo_compiled_def prod_eq_iff)
  note c = compile_sound [OF this]
  have "rg_docs demo_registered = []"
    "map (\<lambda>(a, d). m_name (gd_meta d)) (rg_registered demo_registered) = [''Project'', ''Task'']"
    by (simp_all add: demo_registered_def demo_meta_def new_registry_def)
  with c f show ?thesis by simp
qed

text \<open>Compilation locks the registry: afterwards both \<open>Register\<close> and a second \<open>Compile\<close> are refused
  with a conflict and change nothing.\<close>

theorem compile_locks:
  assumes "registry_compile env r = (Inr u, r')"
  shows "(\<exists>e. registry_register app doc r' = (Inl e, r') \<and> err_code e = Some CodeConflict) \<and>
    (\<exists>e. registry_compile env' r' = (Inl e, r') \<and> err_code e = Some CodeConflict)"
proof -
  have "rg_compiled r'" using registry_compile_Inr [OF assms] by auto
  then show ?thesis by (simp add: registry_register_def registry_compile_def)
qed

theorem compile_locks_witness:
  "\<exists>e. registry_compile [] demo_compiled = (Inl e, demo_compiled) \<and> err_code e = Some CodeConflict"
proof -
  have "fst (registry_compile demo_types demo_registered) = Inr ()" by code_simp
  then have "registry_compile demo_types demo_registered = (Inr (), demo_compiled)"
    by (simp add: demo_compiled_def prod_eq_iff)
  from compile_locks [OF this] show ?thesis by blast
qed

text \<open>When \<open>Compile\<close> succeeds, every document of an application that depends on another comes
  after the first document of that other application, if it registered any.\<close>

theorem compile_respects_dependencies:
  assumes "registry_compile env r = (Inr u, r')"
    and "i < length (rg_registered r)" and "rg_registered r ! i = (app, d)"
    and "map_of (rg_app_deps r) app = Some ds" and "dep \<in> set ds"
    and "j < length (rg_registered r)" and "fst (rg_registered r ! j) = dep"
  shows "\<exists>k \<le> i. fst (rg_registered r ! k) = dep"
proof -
  have "check_app_order (rg_app_deps r) (rg_registered r) 0 (rg_registered r) = None"
    using registry_compile_Inr [OF assms(1)] by blast
  from check_app_order_None [OF this assms(2-5)]
  have nv: "\<not> dep_violation (rg_registered r) i dep" by simp
  obtain k where k: "first_index 0 dep (rg_registered r) = Some k"
    using first_index_le [OF assms(6,7), of 0] by auto
  with nv have "k \<le> i" by (simp add: dep_violation_def)
  moreover have "fst (rg_registered r ! k) = dep" using first_index_hit [OF k] by simp
  ultimately show ?thesis by blast
qed

theorem compile_respects_dependencies_witness:
  "\<exists>k \<le> 1. fst (rg_registered demo_registered ! k) = ''base''"
proof -
  have "fst (registry_compile demo_types demo_registered) = Inr ()" by code_simp
  then have c: "registry_compile demo_types demo_registered = (Inr (), demo_compiled)"
    by (simp add: demo_compiled_def prod_eq_iff)
  have "length (rg_registered demo_registered) = 2" "fst (rg_registered demo_registered ! 0) = ''base''"
    "fst (rg_registered demo_registered ! 1) = ''todo''"
    "map_of (rg_app_deps demo_registered) ''todo'' = Some [''base'']"
    by (simp_all add: demo_registered_def)
  then show ?thesis
    by (intro compile_respects_dependencies [OF c, of 1 "''todo''" "snd (rg_registered demo_registered ! 1)"
        "[''base'']" _ 0]) (simp_all add: prod_eq_iff)
qed

end
