(* ===== verification/Dal.thy ===== *)
theory Dal
  imports Registry
begin

text \<open>
  The data access layer's interfaces (\<open>dal/dal.go\<close>): the read query \<open>Select\<close>, the SQL engine behind
  \<open>database/sql\<close> as a parameter, the \<open>Database\<close> operations the rest of the framework calls, and the
  transaction combinator.
\<close>

record select =
  s_doc_type :: string
  s_table :: string
  s_fields :: "string list"
  s_filters :: row
  s_ids :: "string list"
  s_order_by :: string
  s_limit :: int
  s_offset :: int
  s_include_deleted :: bool

definition zero_select :: select where
  "zero_select = \<lparr>s_doc_type = [], s_table = [], s_fields = [], s_filters = [], s_ids = [],
     s_order_by = [], s_limit = 0, s_offset = 0, s_include_deleted = False\<rparr>"

section \<open>The SQL engine\<close>

text \<open>
  What \<open>database/sql\<close> and the driver give: a query returns columns, rows and the error that ends
  the iteration, an execution the number of affected rows. Byte slices are kept apart from strings,
  as the driver returns them.
\<close>

datatype sql_val = SqlBytes string | SqlVal val

record sql_rows =
  sr_cols :: "string list"
  sr_rows :: "sql_val list list"
  sr_err :: "gerror option"

record 's sql_engine =
  sql_query :: "string \<Rightarrow> val list \<Rightarrow> ('s, gerror, sql_rows) step"
  sql_exec :: "string \<Rightarrow> val list \<Rightarrow> ('s, gerror, int) step"
  sql_begin :: "('s, gerror, unit) step"
  sql_commit :: "('s, gerror, unit) step"
  sql_rollback :: "'s \<Rightarrow> 's"

section \<open>The database interface\<close>

text \<open>
  \<open>dal.Database\<close>: every client of the data layer is a function of these operations. The operations
  inside a transaction (\<open>dal.Tx\<close>) are the \<open>tx_\<close> fields.
\<close>

record 's dal =
  dal_query :: "select \<Rightarrow> ('s, gerror, row list) step"
  dal_insert :: "string \<Rightarrow> row \<Rightarrow> ('s, gerror, string) step"
  dal_update :: "string \<Rightarrow> string \<Rightarrow> row \<Rightarrow> ('s, gerror, unit) step"
  dal_delete :: "string \<Rightarrow> string \<Rightarrow> ('s, gerror, unit) step"
  tx_query :: "select \<Rightarrow> ('s, gerror, row list) step"
  tx_insert :: "string \<Rightarrow> row \<Rightarrow> ('s, gerror, string) step"
  tx_update :: "string \<Rightarrow> string \<Rightarrow> row \<Rightarrow> ('s, gerror, unit) step"
  tx_delete :: "string \<Rightarrow> string \<Rightarrow> ('s, gerror, unit) step"
  dal_begin :: "('s, gerror, unit) step"
  dal_commit :: "('s, gerror, unit) step"
  dal_rollback :: "'s \<Rightarrow> 's"

text \<open>
  \<open>Transaction(ctx, fn)\<close>: begin, run the body, roll back on its error, commit otherwise. The values a
  Go closure assigns to captured variables are the body's result.
\<close>

definition transaction :: "'s dal \<Rightarrow> ('s, gerror, 'a) step \<Rightarrow> ('s, gerror, 'a) step" where
  "transaction D body = (\<lambda>s.
     case dal_begin D s of
       (Inl e, s1) \<Rightarrow> (Inl (internal_err ''failed to begin transaction'' (Some e)), s1)
     | (Inr _, s1) \<Rightarrow>
         (case body s1 of
            (Inl e, s2) \<Rightarrow> (Inl e, dal_rollback D s2)
          | (Inr a, s2) \<Rightarrow>
              (case dal_commit D s2 of
                 (Inl e, s3) \<Rightarrow> (Inl (internal_err ''failed to commit transaction'' (Some e)), s3)
               | (Inr _, s3) \<Rightarrow> (Inr a, s3))))"

text \<open>\<open>txDB.Transaction\<close> runs its body in the transaction it is already in.\<close>

definition tx_transaction :: "('s, gerror, 'a) step \<Rightarrow> ('s, gerror, 'a) step" where
  "tx_transaction body = body"

text \<open>The states that the operations of an open transaction lead to, whatever they return.\<close>

inductive tx_reach :: "'s dal \<Rightarrow> 's \<Rightarrow> 's \<Rightarrow> bool" for D where
  tx_refl: "tx_reach D s s"
| tx_q: "tx_reach D s t \<Longrightarrow> tx_reach D s (snd (tx_query D q t))"
| tx_i: "tx_reach D s t \<Longrightarrow> tx_reach D s (snd (tx_insert D dt r t))"
| tx_u: "tx_reach D s t \<Longrightarrow> tx_reach D s (snd (tx_update D dt i r t))"
| tx_d: "tx_reach D s t \<Longrightarrow> tx_reach D s (snd (tx_delete D dt i t))"

inductive_simps tx_reach_simps: "tx_reach D s t"

text \<open>The states that reads outside a transaction lead to.\<close>

inductive read_reach :: "'s dal \<Rightarrow> 's \<Rightarrow> 's \<Rightarrow> bool" for D where
  read_refl: "read_reach D s s"
| read_q: "read_reach D s t \<Longrightarrow> read_reach D s (snd (dal_query D q t))"

text \<open>
  The ACID contract the code relies on: a rollback after a successful begin restores the state, and
  so does a begin or a commit that fails.
\<close>

definition rollback_law :: "'s dal \<Rightarrow> bool" where
  "rollback_law D \<longleftrightarrow>
     (\<forall>s e s1. dal_begin D s = (Inl e, s1) \<longrightarrow> s1 = s) \<and>
     (\<forall>s s1 s2. dal_begin D s = (Inr (), s1) \<longrightarrow> tx_reach D s1 s2 \<longrightarrow>
        dal_rollback D s2 = s \<and> (\<forall>e s3. dal_commit D s2 = (Inl e, s3) \<longrightarrow> s3 = s))"

lemma tx_reach_trans: "tx_reach D t u \<Longrightarrow> tx_reach D s t \<Longrightarrow> tx_reach D s u"
  by (induction rule: tx_reach.induct) (auto intro: tx_reach.intros)

lemma tx_reach_rel [simp, intro]: "reflp (tx_reach D)" "transp (tx_reach D)"
  by (auto simp: reflp_def transp_def intro: tx_refl tx_reach_trans)

lemma tx_preserves [simp, intro]:
  "preserves (tx_reach D) (tx_query D q)"
  "preserves (tx_reach D) (tx_insert D dt r)"
  "preserves (tx_reach D) (tx_update D dt i r)"
  "preserves (tx_reach D) (tx_delete D dt i)"
  by (auto simp: preserves_def intro: tx_reach.intros)

lemma read_reach_trans: "read_reach D t u \<Longrightarrow> read_reach D s t \<Longrightarrow> read_reach D s u"
  by (induction rule: read_reach.induct) (auto intro: read_reach.intros)

lemma read_reach_rel [simp, intro]: "reflp (read_reach D)" "transp (read_reach D)"
  by (auto simp: reflp_def transp_def intro: read_refl read_reach_trans)

lemma read_preserves [simp, intro]: "preserves (read_reach D) (dal_query D q)"
  by (auto simp: preserves_def intro: read_reach.intros)

lemma transaction_Inr:
  "transaction D body s = (Inr a, t) \<longleftrightarrow>
     (\<exists>s1 s2. dal_begin D s = (Inr (), s1) \<and> body s1 = (Inr a, s2) \<and> dal_commit D s2 = (Inr (), t))"
  by (auto simp: transaction_def split: prod.splits sum.splits)

lemma transaction_error:
  assumes "rollback_law D" and "preserves (tx_reach D) body" and "transaction D body s = (Inl e, t)"
  shows "t = s"
proof -
  have body: "tx_reach D s1 (snd (body s1))" for s1
    using assms(2) by (simp add: preserves_def)
  show ?thesis
    using assms(3,1) body
    by (auto simp: transaction_def rollback_law_def split: prod.splits sum.splits)
      (metis old.unit.exhaust snd_conv)+
qed

end
