(* ===== verification/Dialect.thy ===== *)
theory Dialect
  imports Dal
begin

text \<open>
  The SQL dialects (\<open>dal/dialect/sqlite/dialect.go\<close>, \<open>dal/dialect/postgres/dialect.go\<close>): rendering of
  queries and DDL, column types and their normalisation. The two files repeat the same rendering
  loops around their placeholder; those loops are the \<open>render_\<close> functions here.
\<close>

section \<open>Rendering shared by the dialects\<close>

definition is_sort_direction :: "string \<Rightarrow> bool" where
  "is_sort_direction tok = (let t = to_upper (trim_space tok) in t = ''ASC'' \<or> t = ''DESC'')"

definition sqlite_placeholder :: "nat \<Rightarrow> string" where
  "sqlite_placeholder n = ''?''"

definition pg_placeholder :: "nat \<Rightarrow> string" where
  "pg_placeholder n = ''$'' @ nat_digits n"

definition order_clause :: "string \<Rightarrow> string" where
  "order_clause ob =
     (if ob = [] then []
      else let parts = split_on (CHR '' '') ob; col = hd parts;
               dir = (if 1 < length parts \<and> is_sort_direction (parts ! 1)
                      then '' '' @ to_upper (parts ! 1) else [])
           in '' ORDER BY '' @ go_quote col @ dir)"

text \<open>
  \<open>SelectSQL\<close>: the soft-delete condition, one equality per filter in key order, the id set, then
  ordering and paging. Placeholders are numbered from 1 in the order of the arguments.
\<close>

definition sorted_keys :: "row \<Rightarrow> string list" where
  "sorted_keys m = sort (map_keys m)"

definition render_select :: "(nat \<Rightarrow> string) \<Rightarrow> select \<Rightarrow> string \<times> val list" where
  "render_select ph q =
     (let cols = (if s_fields q = [] then ''*'' else join_with '', '' (map go_quote (s_fields q)));
          (c1, a1) = (if s_include_deleted q then ([], [])
                      else ([CHR 0x22 # ''deleted'' @ CHR 0x22 # '' = '' @ ph 1], [VBool False]));
          n1 = length a1 + 1;
          keys = sorted_keys (s_filters q);
          c2 = map (\<lambda>(i, k). go_quote k @ '' = '' @ ph (n1 + i)) (List.enumerate 0 keys);
          a2 = map (\<lambda>k. get_or_nil (s_filters q) k) keys;
          n2 = n1 + length keys;
          (c3, a3) = (if s_ids q = [] then ([], [])
                      else ([go_quote ''id'' @ '' IN ('' @
                              join_with '', '' (map (\<lambda>i. ph (n2 + i)) [0..<length (s_ids q)]) @ '')''],
                            map VStr (s_ids q)));
          conds = c1 @ c2 @ c3
      in (''SELECT '' @ cols @ '' FROM '' @ go_quote (s_table q) @
          (if conds = [] then [] else '' WHERE '' @ join_with '' AND '' conds) @
          order_clause (s_order_by q) @
          (if 0 < s_limit q then '' LIMIT '' @ itoa (s_limit q) else []) @
          (if 0 < s_offset q then '' OFFSET '' @ itoa (s_offset q) else []),
          a1 @ a2 @ a3))"

definition render_insert :: "(nat \<Rightarrow> string) \<Rightarrow> string \<Rightarrow> row \<Rightarrow> string \<times> val list" where
  "render_insert ph tn flds =
     (let cols = sorted_keys flds
      in (''INSERT INTO '' @ go_quote tn @ '' ('' @ join_with '', '' (map go_quote cols) @
          '') VALUES ('' @ join_with '', '' (map (\<lambda>i. ph (Suc i)) [0..<length cols]) @ '')'',
          map (get_or_nil flds) cols))"

definition render_sets :: "(nat \<Rightarrow> string) \<Rightarrow> string list \<Rightarrow> string" where
  "render_sets ph cols =
     join_with '', '' (map (\<lambda>(i, c). go_quote c @ '' = '' @ ph (Suc i)) (List.enumerate 0 cols))"

section \<open>SQLite\<close>

definition sqlite_select_sql :: "select \<Rightarrow> string \<times> val list" where
  "sqlite_select_sql q = render_select sqlite_placeholder q"

definition sqlite_insert_sql :: "string \<Rightarrow> row \<Rightarrow> string \<times> val list" where
  "sqlite_insert_sql tn flds = render_insert sqlite_placeholder tn flds"

text \<open>The SQLite update leaves out a column named \<open>id\<close>; the PostgreSQL one below does not.\<close>

definition sqlite_update_sql :: "string \<Rightarrow> string \<Rightarrow> row \<Rightarrow> string \<times> val list" where
  "sqlite_update_sql tn i flds =
     (let cols = sort (filter (\<lambda>k. k \<noteq> ''id'') (map_keys flds))
      in (''UPDATE '' @ go_quote tn @ '' SET '' @ render_sets sqlite_placeholder cols @
          '' WHERE '' @ go_quote ''id'' @ '' = ?'',
          map (get_or_nil flds) cols @ [VStr i]))"

definition sqlite_delete_sql :: "string \<Rightarrow> string \<Rightarrow> string \<times> val list" where
  "sqlite_delete_sql tn i =
     (''DELETE FROM '' @ go_quote tn @ '' WHERE '' @ go_quote ''id'' @ '' = ?'', [VStr i])"

definition sqlite_full_text_search :: "string \<Rightarrow> string \<Rightarrow> string list \<Rightarrow> string \<times> val list" where
  "sqlite_full_text_search tn query flds =
     (''SELECT '' @ go_quote ''id'' @ '' FROM '' @ go_quote tn @ '' WHERE ('' @ go_quote ''deleted'' @
      '' = ? OR '' @ go_quote ''deleted'' @ '' IS NULL)'' @
      (if flds = [] then []
       else '' AND ('' @ join_with '' OR '' (map (\<lambda>f. go_quote f @ '' LIKE ?'') flds) @ '')''),
      VBool False # replicate (length flds) (VStr (''%'' @ query @ ''%'')))"

definition sqlite_type :: "field \<Rightarrow> string" where
  "sqlite_type f =
     (case f_type f of
        FTInt \<Rightarrow> ''INTEGER'' | FTInt64 \<Rightarrow> ''INTEGER'' | FTFloat64 \<Rightarrow> ''REAL'' | FTCurrency \<Rightarrow> ''REAL''
      | FTBool \<Rightarrow> ''INTEGER'' | _ \<Rightarrow> ''TEXT'')"

definition sqlite_normalize_column_type :: "string \<Rightarrow> string" where
  "sqlite_normalize_column_type raw = to_upper (trim_space raw)"

section \<open>PostgreSQL\<close>

definition pg_select_sql :: "select \<Rightarrow> string \<times> val list" where
  "pg_select_sql q = render_select pg_placeholder q"

definition pg_insert_sql :: "string \<Rightarrow> row \<Rightarrow> string \<times> val list" where
  "pg_insert_sql tn flds = render_insert pg_placeholder tn flds"

definition pg_update_sql :: "string \<Rightarrow> string \<Rightarrow> row \<Rightarrow> string \<times> val list" where
  "pg_update_sql tn i flds =
     (let cols = sorted_keys flds
      in (''UPDATE '' @ go_quote tn @ '' SET '' @ render_sets pg_placeholder cols @
          '' WHERE '' @ go_quote ''id'' @ '' = '' @ pg_placeholder (length cols + 1),
          map (get_or_nil flds) cols @ [VStr i]))"

definition pg_delete_sql :: "string \<Rightarrow> string \<Rightarrow> string \<times> val list" where
  "pg_delete_sql tn i =
     (''DELETE FROM '' @ go_quote tn @ '' WHERE '' @ go_quote ''id'' @ '' = $1'', [VStr i])"

definition sq :: string where "sq = [CHR 0x27]"

definition pg_full_text_search :: "string \<Rightarrow> string \<Rightarrow> string list \<Rightarrow> string \<times> val list" where
  "pg_full_text_search tn query flds =
     (if flds = []
      then (''SELECT '' @ go_quote ''id'' @ '' FROM '' @ go_quote tn @ '' WHERE FALSE'', [])
      else let vec = (\<lambda>f. ''to_tsvector('' @ sq @ ''english'' @ sq @ '', COALESCE('' @ go_quote f @
                          ''::text, '' @ sq @ sq @ ''))'')
           in (''SELECT '' @ go_quote ''id'' @ '' FROM '' @ go_quote tn @ '' WHERE '' @
               go_quote ''deleted'' @ '' = FALSE AND (('' @ join_with '' || '' (map vec flds) @
               '') @@ plainto_tsquery('' @ sq @ ''english'' @ sq @ '', $1))'', [VStr query]))"

definition pg_type :: "field \<Rightarrow> string" where
  "pg_type f =
     (case f_type f of
        FTInt \<Rightarrow> ''INTEGER'' | FTInt64 \<Rightarrow> ''BIGINT'' | FTBool \<Rightarrow> ''BOOLEAN''
      | FTFloat64 \<Rightarrow> ''DOUBLE PRECISION'' | FTCurrency \<Rightarrow> ''NUMERIC(20,6)'' | FTDate \<Rightarrow> ''DATE''
      | FTDateTime \<Rightarrow> ''TIMESTAMPTZ'' | FTJSON \<Rightarrow> ''JSONB'' | _ \<Rightarrow> ''TEXT'')"

definition pg_normalize_column_type :: "string \<Rightarrow> string" where
  "pg_normalize_column_type raw =
     (let s = to_upper (trim_space raw);
          s = (case index_byte s (CHR ''('') of Some i \<Rightarrow> take i s | None \<Rightarrow> s)
      in if s \<in> {''CHARACTER VARYING'', ''CHARACTER'', ''VARCHAR'', ''VARCHAR2''} then ''TEXT''
         else if s \<in> {''TIMESTAMP WITH TIME ZONE'', ''TIMESTAMPTZ''} then ''TIMESTAMPTZ''
         else if s \<in> {''TIMESTAMP WITHOUT TIME ZONE'', ''TIMESTAMP''} then ''TIMESTAMP''
         else if s \<in> {''DOUBLE PRECISION'', ''FLOAT8''} then ''DOUBLE PRECISION''
         else s)"

section \<open>DDL\<close>

definition nl :: string where "nl = [CHR 0x0A]"

definition column_def :: "(field \<Rightarrow> string) \<Rightarrow> field \<Rightarrow> string" where
  "column_def ty f =
     ''  '' @ go_quote (f_db_column f) @ '' '' @ ty f @
     (if f_name f = ''ID'' then '' PRIMARY KEY'' else []) @
     (if f_required f \<and> f_name f \<noteq> ''ID'' then '' NOT NULL'' else []) @
     (if f_unique f then '' UNIQUE'' else [])"

definition render_create_table :: "(field \<Rightarrow> string) \<Rightarrow> compiled_doc \<Rightarrow> string" where
  "render_create_table ty doc =
     ''CREATE TABLE IF NOT EXISTS '' @ go_quote (d_table_name doc) @ '' ('' @ nl @
     join_with (CHR '','' # nl) (map (column_def ty) (filter (\<lambda>f. f_type f \<noteq> FTChildTable) (d_fields doc))) @
     nl @ '')''"

definition sqlite_create_table :: "compiled_doc \<Rightarrow> string" where
  "sqlite_create_table doc = render_create_table sqlite_type doc"

definition pg_create_table :: "compiled_doc \<Rightarrow> string" where
  "pg_create_table doc = render_create_table pg_type doc"

definition not_null_default :: "field \<Rightarrow> string" where
  "not_null_default f = (if f_required f then '' NOT NULL DEFAULT '' @ sq @ sq else [])"

definition sqlite_alter_table :: "table_alteration \<Rightarrow> string list" where
  "sqlite_alter_table d =
     map (\<lambda>f. ''ALTER TABLE '' @ go_quote (ta_table_name d) @ '' ADD COLUMN '' @
              go_quote (f_db_column f) @ '' '' @ sqlite_type f @ not_null_default f)
       (filter (\<lambda>f. f_type f \<noteq> FTChildTable) (ta_add_columns d)) @
     map (\<lambda>c. ''ALTER TABLE '' @ go_quote (ta_table_name d) @ '' DROP COLUMN '' @ go_quote c)
       (ta_drop_columns d) @
     map (\<lambda>a. ''-- NOTE (sqlite): ALTER COLUMN TYPE is unsupported; rebuild '' @
              go_quote (ta_table_name d) @ '' manually to change '' @ go_quote (ca_column_name a) @
              '' from '' @ ca_old_column a @ '' to '' @ ca_new_column a @ '' (see TAD '' @
              [CHR 0xC2, CHR 0xA7] @ ''14.1 step 2)'')
       (ta_alter_columns d)"

definition pg_alter_table :: "table_alteration \<Rightarrow> string list" where
  "pg_alter_table d =
     map (\<lambda>f. ''ALTER TABLE '' @ go_quote (ta_table_name d) @ '' ADD COLUMN IF NOT EXISTS '' @
              go_quote (f_db_column f) @ '' '' @ pg_type f @ not_null_default f)
       (filter (\<lambda>f. f_type f \<noteq> FTChildTable) (ta_add_columns d)) @
     map (\<lambda>c. ''ALTER TABLE '' @ go_quote (ta_table_name d) @ '' DROP COLUMN IF EXISTS '' @ go_quote c)
       (ta_drop_columns d) @
     map (\<lambda>a. ''ALTER TABLE '' @ go_quote (ta_table_name d) @ '' ALTER COLUMN '' @
              go_quote (ca_column_name a) @ '' TYPE '' @ ca_new_column a)
       (ta_alter_columns d)"

section \<open>The contract of a dialect\<close>

text \<open>
  What a statement's text may depend on: everything but the values. The shape of a query keeps the
  filter names in order and the number of ids.
\<close>

definition select_shape :: "select \<Rightarrow> string list \<times> string \<times> bool \<times> string list \<times> nat \<times> string \<times> int \<times> int" where
  "select_shape q =
     (s_fields q, s_table q, s_include_deleted q, sorted_keys (s_filters q), length (s_ids q),
      s_order_by q, s_limit q, s_offset q)"

definition select_args :: "select \<Rightarrow> val list" where
  "select_args q =
     (if s_include_deleted q then [] else [VBool False]) @
     map (get_or_nil (s_filters q)) (sorted_keys (s_filters q)) @ map VStr (s_ids q)"

text \<open>Two association lists of the same Go map, in whatever iteration order.\<close>

definition same_map :: "row \<Rightarrow> row \<Rightarrow> bool" where
  "same_map m m' \<longleftrightarrow> wf_map m \<and> wf_map m' \<and> map_of m = map_of m'"

lemma same_map_keys: "same_map m m' \<Longrightarrow> sorted_keys m = sorted_keys m'"
  unfolding same_map_def sorted_keys_def wf_map_def
  by (intro sorted_distinct_set_unique) (auto simp: dom_map_of_conv_image_fst [symmetric])

lemma same_map_get: "same_map m m' \<Longrightarrow> get_or_nil m = get_or_nil m'"
  by (auto simp: same_map_def get_or_nil_def)

lemma set_sorted_keys [simp]: "set (sorted_keys m) = fst ` set m"
  by (simp add: sorted_keys_def)

locale sql_dialect =
  fixes sel :: "select \<Rightarrow> string \<times> val list"
    and ins :: "string \<Rightarrow> row \<Rightarrow> string \<times> val list"
    and upd :: "string \<Rightarrow> string \<Rightarrow> row \<Rightarrow> string \<times> val list"
    and del :: "string \<Rightarrow> string \<Rightarrow> string \<times> val list"
    and upd_cols :: "row \<Rightarrow> string list"
  assumes sel_text: "select_shape q = select_shape q' \<Longrightarrow> fst (sel q) = fst (sel q')"
    and sel_args: "snd (sel q) = select_args q"
    and ins_text: "sorted_keys m = sorted_keys m' \<Longrightarrow> fst (ins tn m) = fst (ins tn m')"
    and ins_args: "snd (ins tn m) = map (get_or_nil m) (sorted_keys m)"
    and upd_cols_keys: "sorted_keys m = sorted_keys m' \<Longrightarrow> upd_cols m = upd_cols m'"
    and upd_cols_sub: "set (upd_cols m) \<subseteq> set (map_keys m)"
    and upd_text: "upd_cols m = upd_cols m' \<Longrightarrow> fst (upd tn i m) = fst (upd tn i' m')"
    and upd_args: "snd (upd tn i m) = map (get_or_nil m) (upd_cols m) @ [VStr i]"
    and del_text: "fst (del tn i) = fst (del tn i')"
    and del_args: "snd (del tn i) = [VStr i]"
begin

lemma insert_order_independent:
  assumes "same_map m m'" shows "ins tn m = ins tn m'"
proof (rule prod_eqI)
  show "fst (ins tn m) = fst (ins tn m')" by (rule ins_text [OF same_map_keys [OF assms]])
  show "snd (ins tn m) = snd (ins tn m')"
    by (simp only: ins_args same_map_keys [OF assms] same_map_get [OF assms])
qed

lemma update_order_independent:
  assumes "same_map m m'" shows "upd tn i m = upd tn i m'"
proof (rule prod_eqI)
  have c: "upd_cols m = upd_cols m'" by (rule upd_cols_keys [OF same_map_keys [OF assms]])
  then show "fst (upd tn i m) = fst (upd tn i m')" by (rule upd_text)
  show "snd (upd tn i m) = snd (upd tn i m')" by (simp only: upd_args c same_map_get [OF assms])
qed

lemma select_order_independent:
  assumes "same_map (s_filters q) m" shows "sel (q\<lparr>s_filters := m\<rparr>) = sel q"
proof (rule prod_eqI)
  have "select_shape (q\<lparr>s_filters := m\<rparr>) = select_shape q"
    by (simp add: select_shape_def same_map_keys [OF assms])
  then show "fst (sel (q\<lparr>s_filters := m\<rparr>)) = fst (sel q)" by (rule sel_text)
  show "snd (sel (q\<lparr>s_filters := m\<rparr>)) = snd (sel q)"
    by (simp add: sel_args select_args_def same_map_keys [OF assms] same_map_get [OF assms])
qed

text \<open>No value reaches the text of a statement.\<close>

lemma values_not_in_text:
  assumes keys: "map_keys m = map_keys m'"
  shows "fst (ins tn m) = fst (ins tn m') \<and> fst (upd tn i m) = fst (upd tn i' m') \<and>
    fst (del tn i) = fst (del tn i')"
proof -
  have k: "sorted_keys m = sorted_keys m'" by (simp add: sorted_keys_def keys)
  show ?thesis by (intro conjI ins_text upd_text upd_cols_keys del_text k)
qed

end

section \<open>Both dialects meet the contract\<close>

lemma render_select_shape:
  "select_shape q = select_shape q' \<Longrightarrow> fst (render_select ph q) = fst (render_select ph q')"
proof -
  assume a: "select_shape q = select_shape q'"
  then have "s_ids q = [] \<longleftrightarrow> s_ids q' = []" by (simp add: select_shape_def flip: length_0_conv)
  with a show ?thesis
    unfolding render_select_def select_shape_def Let_def by (simp split: prod.split)
qed

lemma render_select_args: "snd (render_select ph q) = select_args q"
  by (simp add: render_select_def select_args_def Let_def)

lemma render_insert_keys:
  "sorted_keys m = sorted_keys m' \<Longrightarrow> fst (render_insert ph tn m) = fst (render_insert ph tn m')"
  by (simp add: render_insert_def Let_def)

lemma render_insert_args: "snd (render_insert ph tn m) = map (get_or_nil m) (sorted_keys m)"
  by (simp add: render_insert_def Let_def)

definition sqlite_update_cols :: "row \<Rightarrow> string list" where
  "sqlite_update_cols m = sort (filter (\<lambda>k. k \<noteq> ''id'') (map_keys m))"

lemma sqlite_update_cols_sorted: "sqlite_update_cols m = filter (\<lambda>k. k \<noteq> ''id'') (sorted_keys m)"
  unfolding sqlite_update_cols_def sorted_keys_def by (simp add: filter_sort)

lemma sqlite_update_text:
  "sqlite_update_cols m = sqlite_update_cols m' \<Longrightarrow>
     fst (sqlite_update_sql tn i m) = fst (sqlite_update_sql tn i' m')"
  by (simp add: sqlite_update_sql_def sqlite_update_cols_def Let_def)

lemma sqlite_update_args:
  "snd (sqlite_update_sql tn i m) = map (get_or_nil m) (sqlite_update_cols m) @ [VStr i]"
  by (simp add: sqlite_update_sql_def sqlite_update_cols_def Let_def)

interpretation sqlite_dialect: sql_dialect sqlite_select_sql sqlite_insert_sql sqlite_update_sql
    sqlite_delete_sql sqlite_update_cols
  unfolding sqlite_select_sql_def sqlite_insert_sql_def
  by unfold_locales
    (rule render_select_shape render_select_args render_insert_keys render_insert_args
      sqlite_update_text sqlite_update_args, assumption?
     | simp add: sqlite_delete_sql_def sqlite_update_cols_sorted | auto simp: sqlite_update_cols_def)+

lemma pg_update_text:
  "sorted_keys m = sorted_keys m' \<Longrightarrow> fst (pg_update_sql tn i m) = fst (pg_update_sql tn i' m')"
  by (simp add: pg_update_sql_def Let_def)

interpretation pg_dialect: sql_dialect pg_select_sql pg_insert_sql pg_update_sql
    pg_delete_sql sorted_keys
  unfolding pg_select_sql_def pg_insert_sql_def
  by unfold_locales
    (rule render_select_shape render_select_args render_insert_keys render_insert_args
      pg_update_text, assumption?
     | simp add: pg_delete_sql_def pg_update_sql_def Let_def)+

section \<open>Placeholders\<close>

text \<open>
  A statement as text pieces and holes. The renderer's text is the flattening of the pieces, and the
  holes are numbered from 1 in the order of the arguments.
\<close>

datatype sql_tok = TTxt string | THole nat

fun flat_tok :: "(nat \<Rightarrow> string) \<Rightarrow> sql_tok \<Rightarrow> string" where
  "flat_tok ph (TTxt s) = s"
| "flat_tok ph (THole n) = ph n"

definition flat_toks :: "(nat \<Rightarrow> string) \<Rightarrow> sql_tok list \<Rightarrow> string" where
  "flat_toks ph ts = concat (map (flat_tok ph) ts)"

fun tok_holes :: "sql_tok list \<Rightarrow> nat list" where
  "tok_holes [] = []"
| "tok_holes (TTxt s # ts) = tok_holes ts"
| "tok_holes (THole n # ts) = n # tok_holes ts"

fun join_toks :: "string \<Rightarrow> sql_tok list list \<Rightarrow> sql_tok list" where
  "join_toks sep [] = []"
| "join_toks sep [x] = x"
| "join_toks sep (x # y # ys) = x @ TTxt sep # join_toks sep (y # ys)"

definition condition_toks :: "select \<Rightarrow> sql_tok list list" where
  "condition_toks q =
     (let n1 = (if s_include_deleted q then 1 else 2); n2 = n1 + length (s_filters q) in
      (if s_include_deleted q then []
       else [[TTxt (CHR 0x22 # ''deleted'' @ CHR 0x22 # '' = ''), THole 1]]) @
      map (\<lambda>(i, k). [TTxt (go_quote k @ '' = ''), THole (n1 + i)]) (List.enumerate 0 (sorted_keys (s_filters q))) @
      (if s_ids q = [] then []
       else [TTxt (go_quote ''id'' @ '' IN ('') #
             join_toks '', '' (map (\<lambda>i. [THole (n2 + i)]) [0..<length (s_ids q)]) @ [TTxt '')'']]))"

definition select_toks :: "select \<Rightarrow> sql_tok list" where
  "select_toks q =
     TTxt (''SELECT '' @ (if s_fields q = [] then ''*'' else join_with '', '' (map go_quote (s_fields q))) @
           '' FROM '' @ go_quote (s_table q)) #
     (if condition_toks q = [] then []
      else TTxt '' WHERE '' # join_toks '' AND '' (condition_toks q)) @
     [TTxt (order_clause (s_order_by q) @
            (if 0 < s_limit q then '' LIMIT '' @ itoa (s_limit q) else []) @
            (if 0 < s_offset q then '' OFFSET '' @ itoa (s_offset q) else []))]"

lemma flat_toks_simps [simp]:
  "flat_toks ph [] = []"
  "flat_toks ph (t # ts) = flat_tok ph t @ flat_toks ph ts"
  "flat_toks ph (ts @ us) = flat_toks ph ts @ flat_toks ph us"
  by (simp_all add: flat_toks_def)

lemma flat_join_toks: "flat_toks ph (join_toks sep xs) = join_with sep (map (flat_toks ph) xs)"
  by (induction sep xs rule: join_toks.induct) simp_all

lemma tok_holes_append [simp]: "tok_holes (ts @ us) = tok_holes ts @ tok_holes us"
  by (induction ts rule: tok_holes.induct) simp_all

lemma tok_holes_join: "tok_holes (join_toks sep xs) = concat (map tok_holes xs)"
  by (induction sep xs rule: join_toks.induct) simp_all

lemma concat_singletons: "concat (map (\<lambda>i. [f i]) xs) = map f xs"
  by (induction xs) simp_all

lemma enumerate_holes:
  "concat (map (tok_holes \<circ> (\<lambda>(i, k). [TTxt (g k), THole (n + i)])) (List.enumerate m ks)) =
     [n + m..<n + m + length ks]"
proof (induction ks arbitrary: m)
  case Nil
  then show ?case by simp
next
  case (Cons k ks)
  have "[n + m..<n + m + length (k # ks)] = (n + m) # [n + Suc m..<n + Suc m + length ks]"
    by (simp add: upt_conv_Cons del: upt_Suc)
  then show ?case using Cons.IH [of "Suc m"] by (simp del: upt_Suc)
qed

lemma sorted_keys_length [simp]: "length (sorted_keys m) = length m"
  by (simp add: sorted_keys_def)

lemma upt_append: "i \<le> j \<Longrightarrow> j \<le> k \<Longrightarrow> [i..<j] @ [j..<k] = [i..<k]"
  by (metis le_add_diff_inverse upt_add_eq_append)

lemma condition_toks_holes:
  "concat (map tok_holes (condition_toks q)) = [1..<length (select_args q) + 1]"
proof -
  define n1 where "n1 = (if s_include_deleted q then 1 else 2 :: nat)"
  define n2 where "n2 = n1 + length (s_filters q)"
  define c1 where "c1 = (if s_include_deleted q then []
      else [[TTxt (CHR 0x22 # ''deleted'' @ CHR 0x22 # '' = ''), THole 1]])"
  define c2 where "c2 = map (\<lambda>(i, k). [TTxt (go_quote k @ '' = ''), THole (n1 + i)])
      (List.enumerate 0 (sorted_keys (s_filters q)))"
  define c3 where "c3 = (if s_ids q = [] then []
      else [TTxt (go_quote ''id'' @ '' IN ('') #
            join_toks '', '' (map (\<lambda>i. [THole (n2 + i)]) [0..<length (s_ids q)]) @ [TTxt '')'']])"
  have ids: "concat (map (tok_holes \<circ> (\<lambda>i. [THole (m + i)])) [0..<k]) = [m..<m + k]" for m k
    by (induction k) simp_all
  have "condition_toks q = c1 @ c2 @ c3"
    by (simp only: condition_toks_def Let_def c1_def c2_def c3_def n1_def n2_def)
  moreover have "concat (map tok_holes c1) = [1..<n1]"
    by (simp add: c1_def n1_def numeral_2_eq_2)
  moreover have "concat (map tok_holes c2) = [n1..<n2]"
    using enumerate_holes [of "\<lambda>k. go_quote k @ '' = ''" n1 0 "sorted_keys (s_filters q)"]
    by (simp add: c2_def n2_def)
  moreover have "concat (map tok_holes c3) = [n2..<n2 + length (s_ids q)]"
    by (simp add: c3_def tok_holes_join ids del: upt_Suc)
  ultimately have "concat (map tok_holes (condition_toks q)) =
      [1..<n1] @ [n1..<n2] @ [n2..<n2 + length (s_ids q)]"
    by simp
  also have "\<dots> = [1..<n2 + length (s_ids q)]"
    by (simp add: upt_append n1_def n2_def)
  also have "n2 + length (s_ids q) = length (select_args q) + 1"
    by (simp add: select_args_def n1_def n2_def)
  finally show ?thesis .
qed

lemma select_toks_holes: "tok_holes (select_toks q) = [1..<length (select_args q) + 1]"
proof (cases "condition_toks q = []")
  case True
  then show ?thesis using condition_toks_holes [of q] by (simp add: select_toks_def)
next
  case False
  then show ?thesis
    using condition_toks_holes [of q] by (simp add: select_toks_def tok_holes_join del: upt_Suc)
qed

lemma render_select_toks: "fst (render_select ph q) = flat_toks ph (select_toks q)"
proof -
  have en: "map (flat_toks ph \<circ> (\<lambda>(i, k). [TTxt (g k), THole (n + i)])) (List.enumerate m ks) =
      map (\<lambda>(i, k). g k @ ph (n + i)) (List.enumerate m ks)" for g n m and ks :: "string list"
    by (induction ks arbitrary: m) simp_all
  have ids: "map (flat_toks ph \<circ> (\<lambda>i. [THole (n + i)])) xs = map (\<lambda>i. ph (n + i)) xs" for n xs
    by simp
  show ?thesis
    using en [of "\<lambda>k. go_quote k @ '' = ''"]
    by (auto simp: render_select_def select_toks_def condition_toks_def Let_def flat_join_toks ids o_def
        case_prod_unfold)
qed

section \<open>Properties\<close>

text \<open>Both dialects render a query as the same sequence of text pieces and placeholders; the
  placeholders are numbered from 1 without gaps, one per argument, and the arguments are the soft-delete
  flag, the filter values in the order of their names, and the ids.\<close>

theorem select_placeholders:
  "fst (pg_select_sql q) = flat_toks pg_placeholder (select_toks q) \<and>
   fst (sqlite_select_sql q) = flat_toks sqlite_placeholder (select_toks q) \<and>
   snd (pg_select_sql q) = select_args q \<and> snd (sqlite_select_sql q) = select_args q \<and>
   tok_holes (select_toks q) = [1..<length (select_args q) + 1]"
  by (simp only: pg_select_sql_def sqlite_select_sql_def render_select_toks render_select_args
      select_toks_holes)

text \<open>What the database is asked does not depend on the iteration order of a Go map: the same
  filters, the same inserted and the same updated columns give the same statement and arguments.\<close>

theorem statements_order_independent:
  assumes "same_map m m'"
  shows "sqlite_select_sql (q\<lparr>s_filters := m'\<rparr>) = sqlite_select_sql (q\<lparr>s_filters := m\<rparr>) \<and>
    pg_select_sql (q\<lparr>s_filters := m'\<rparr>) = pg_select_sql (q\<lparr>s_filters := m\<rparr>) \<and>
    sqlite_insert_sql tn m = sqlite_insert_sql tn m' \<and> pg_insert_sql tn m = pg_insert_sql tn m' \<and>
    sqlite_update_sql tn i m = sqlite_update_sql tn i m' \<and> pg_update_sql tn i m = pg_update_sql tn i m'"
  using assms sqlite_dialect.select_order_independent [of "q\<lparr>s_filters := m\<rparr>" m']
    pg_dialect.select_order_independent [of "q\<lparr>s_filters := m\<rparr>" m']
    sqlite_dialect.insert_order_independent pg_dialect.insert_order_independent
    sqlite_dialect.update_order_independent pg_dialect.update_order_independent
  by simp

theorem statements_order_independent_witness:
  "pg_update_sql ''t'' ''1'' [(''a'', VInt 1), (''b'', VInt 2)] =
   pg_update_sql ''t'' ''1'' [(''b'', VInt 2), (''a'', VInt 1)]"
proof -
  have "same_map [(''a'', VInt 1), (''b'', VInt 2)] [(''b'', VInt 2), (''a'', VInt 1)]"
    by (auto simp: same_map_def wf_map_def)
  from statements_order_independent [OF this] show ?thesis by blast
qed

text \<open>No value of a filter, of an inserted or updated column and no id reaches the text of a
  statement: changing them changes the arguments only.\<close>

theorem values_are_arguments:
  assumes "map_keys m = map_keys m'" and "length ids = length ids'"
  shows "fst (sqlite_select_sql (q\<lparr>s_filters := m, s_ids := ids\<rparr>)) =
      fst (sqlite_select_sql (q\<lparr>s_filters := m', s_ids := ids'\<rparr>)) \<and>
    fst (pg_select_sql (q\<lparr>s_filters := m, s_ids := ids\<rparr>)) =
      fst (pg_select_sql (q\<lparr>s_filters := m', s_ids := ids'\<rparr>)) \<and>
    fst (sqlite_insert_sql tn m) = fst (sqlite_insert_sql tn m') \<and>
    fst (sqlite_update_sql tn i m) = fst (sqlite_update_sql tn i' m') \<and>
    fst (pg_insert_sql tn m) = fst (pg_insert_sql tn m') \<and>
    fst (pg_update_sql tn i m) = fst (pg_update_sql tn i' m') \<and>
    fst (sqlite_delete_sql tn i) = fst (sqlite_delete_sql tn i') \<and>
    fst (pg_delete_sql tn i) = fst (pg_delete_sql tn i')"
proof -
  have "sorted_keys m = sorted_keys m'" by (simp add: sorted_keys_def assms)
  then have s: "select_shape (q\<lparr>s_filters := m, s_ids := ids\<rparr>) =
      select_shape (q\<lparr>s_filters := m', s_ids := ids'\<rparr>)"
    by (simp add: select_shape_def assms)
  show ?thesis
    using sqlite_dialect.sel_text [OF s] pg_dialect.sel_text [OF s]
      sqlite_dialect.values_not_in_text [OF assms(1)] pg_dialect.values_not_in_text [OF assms(1)]
    by blast
qed

theorem values_are_arguments_witness:
  "fst (sqlite_insert_sql ''t'' [(''a'', VStr ''x'')]) =
   fst (sqlite_insert_sql ''t'' [(''a'', VStr (CHR 0x27 # ''); DROP TABLE t; --''))])"
  using values_are_arguments [of "[(''a'', VStr ''x'')]" "[(''a'', VStr (CHR 0x27 # ''); DROP TABLE t; --''))]"
      "[]" "[]" undefined "''t''" "[]" "[]"]
  by simp

end
