(* ===== verification/Database.thy ===== *)
theory Database
  imports Dialect
begin

text \<open>
  The database handles (\<open>dal/dialect/sqlite/db.go\<close>, \<open>dal/dialect/postgres/db.go\<close>): the docType to
  table mapping, name resolution of a query, the \<open>q\<close> full-text filter, the four operations with their
  errors, inside and outside a transaction. The two files differ in the fields of \<open>driver\<close>.
\<close>

record driver =
  drv_select :: "select \<Rightarrow> string \<times> val list"
  drv_insert :: "string \<Rightarrow> row \<Rightarrow> string \<times> val list"
  drv_update :: "string \<Rightarrow> string \<Rightarrow> row \<Rightarrow> string \<times> val list"
  drv_delete :: "string \<Rightarrow> string \<Rightarrow> string \<times> val list"
  drv_search :: "string \<Rightarrow> string \<Rightarrow> string list \<Rightarrow> string \<times> val list"
  drv_create_table :: "compiled_doc \<Rightarrow> string"
  drv_format :: "val \<Rightarrow> val"
  drv_child_aware :: bool
  drv_no_fields_stop :: bool

text \<open>\<open>formatValue\<close>; the argument is \<open>Format(time.RFC3339)\<close>.\<close>

definition format_value :: "(int \<Rightarrow> string) \<Rightarrow> val \<Rightarrow> val" where
  "format_value rfc v = (case v of VTime t \<Rightarrow> VStr (rfc t) | _ \<Rightarrow> v)"

definition sqlite_driver :: "(int \<Rightarrow> string) \<Rightarrow> driver" where
  "sqlite_driver rfc =
     \<lparr>drv_select = sqlite_select_sql, drv_insert = sqlite_insert_sql, drv_update = sqlite_update_sql,
      drv_delete = sqlite_delete_sql, drv_search = sqlite_full_text_search,
      drv_create_table = sqlite_create_table, drv_format = format_value rfc,
      drv_child_aware = True, drv_no_fields_stop = True\<rparr>"

definition pg_driver :: driver where
  "pg_driver =
     \<lparr>drv_select = pg_select_sql, drv_insert = pg_insert_sql, drv_update = pg_update_sql,
      drv_delete = pg_delete_sql, drv_search = pg_full_text_search,
      drv_create_table = pg_create_table, drv_format = (\<lambda>v. v),
      drv_child_aware = False, drv_no_fields_stop = False\<rparr>"

record db_conf =
  dbc_tables :: "(string \<times> string) list"
  dbc_docs :: "(string \<times> compiled_doc) list"
  dbc_children :: "string list"

definition empty_conf :: db_conf where
  "empty_conf = \<lparr>dbc_tables = [], dbc_docs = [], dbc_children = []\<rparr>"

definition register_table :: "string \<Rightarrow> string \<Rightarrow> db_conf \<Rightarrow> db_conf" where
  "register_table dt tn c = c\<lparr>dbc_tables := AList.update dt tn (dbc_tables c)\<rparr>"

definition register_child :: "driver \<Rightarrow> compiled_child \<Rightarrow> db_conf \<Rightarrow> db_conf" where
  "register_child drv ch c =
     (let c = register_table (cc_type_name ch) (cc_table_name ch) c
      in if drv_child_aware drv then c\<lparr>dbc_children := cc_type_name ch # dbc_children c\<rparr> else c)"

definition register_docs :: "driver \<Rightarrow> compiled_doc list \<Rightarrow> db_conf \<Rightarrow> db_conf" where
  "register_docs drv docs c =
     fold (\<lambda>d c. fold (register_child drv) (d_child_tables d)
             ((register_table (d_name d) (d_table_name d) c)
                \<lparr>dbc_docs := AList.update (d_name d) d (dbc_docs c)\<rparr>)) docs c"

section \<open>Name resolution\<close>

definition resolve_field :: "compiled_doc \<Rightarrow> string \<Rightarrow> string" where
  "resolve_field d name =
     (case find (\<lambda>f. f_name f = name \<or> f_db_column f = name) (d_fields d) of
        Some f \<Rightarrow> f_db_column f | None \<Rightarrow> name)"

definition resolve_select :: "compiled_doc \<Rightarrow> select \<Rightarrow> select" where
  "resolve_select d q =
     q\<lparr>s_table := (if s_table q = [] then d_table_name d else s_table q),
       s_fields := map (resolve_field d) (s_fields q),
       s_filters := fold (\<lambda>(k, v) m. AList.update (resolve_field d k) v m) (s_filters q) [],
       s_order_by :=
         (if s_order_by q = [] then []
          else let parts = split_on (CHR '' '') (s_order_by q)
               in resolve_field d (hd parts) @ (if 1 < length parts then '' '' @ parts ! 1 else []))\<rparr>"

section \<open>Reading rows\<close>

definition scan_value :: "sql_val \<Rightarrow> val" where
  "scan_value v = (case v of SqlBytes s \<Rightarrow> VStr s | SqlVal x \<Rightarrow> x)"

definition scan_row :: "string list \<Rightarrow> sql_val list \<Rightarrow> row" where
  "scan_row cols vals = fold (\<lambda>(c, v) m. AList.update c (scan_value v) m) (zip cols vals) []"

definition scan_rows :: "sql_rows \<Rightarrow> gerror + row list" where
  "scan_rows rs =
     (case sr_err rs of
        Some e \<Rightarrow> Inl (internal_err ''row iteration error'' (Some e))
      | None \<Rightarrow> Inr (map (scan_row (sr_cols rs)) (sr_rows rs)))"

text \<open>\<open>rows.Scan\<close> into one string: the conversions of \<open>database/sql\<close> for a driver value.\<close>

definition scan_string :: "(int \<Rightarrow> string) \<Rightarrow> sql_val list \<Rightarrow> gerror + string" where
  "scan_string tf vals =
     (case vals of
        [SqlBytes s] \<Rightarrow> Inr s
      | [SqlVal (VStr s)] \<Rightarrow> Inr s
      | [SqlVal (VInt64 i)] \<Rightarrow> Inr (itoa i)
      | [SqlVal (VFloat m e)] \<Rightarrow> Inr (fmt_float m e)
      | [SqlVal (VBool b)] \<Rightarrow> Inr (if b then ''true'' else ''false'')
      | [SqlVal (VTime t)] \<Rightarrow> Inr (tf t)
      | _ \<Rightarrow> Inl (StdError ''sql: Scan error'' None))"

fun scan_ids :: "(int \<Rightarrow> string) \<Rightarrow> sql_val list list \<Rightarrow> gerror + string list" where
  "scan_ids tf [] = Inr []"
| "scan_ids tf (r # rs) =
     (case scan_string tf r of
        Inl e \<Rightarrow> Inl (internal_err ''scan search result'' (Some e))
      | Inr i \<Rightarrow> bind_r (scan_ids tf rs) (\<lambda>is. Inr (i # is)))"

definition search_ids :: "(int \<Rightarrow> string) \<Rightarrow> sql_rows \<Rightarrow> gerror + string list" where
  "search_ids tf rs =
     bind_r (scan_ids tf (sr_rows rs)) (\<lambda>is.
       case sr_err rs of
         Some e \<Rightarrow> Inl (internal_err ''search result iteration failed'' (Some e))
       | None \<Rightarrow> Inr is)"

section \<open>The full-text filter\<close>

definition searchable_columns :: "compiled_doc \<Rightarrow> string list" where
  "searchable_columns d =
     map f_db_column (filter (\<lambda>f. f_searchable f \<and> f_type f \<noteq> FTChildTable) (d_fields d))"

definition resolve_search_filter ::
    "'s sql_engine \<Rightarrow> driver \<Rightarrow> (int \<Rightarrow> string) \<Rightarrow> compiled_doc \<Rightarrow> select
     \<Rightarrow> ('s, gerror, select \<times> bool) step" where
  "resolve_search_filter E drv tf d q =
     (case map_of (s_filters q) ''q'' of
        None \<Rightarrow> ret (q, False)
      | Some qv \<Rightarrow>
          (let q = q\<lparr>s_filters := AList.delete ''q'' (s_filters q)\<rparr>;
               query = fmt_v tf qv;
               cols = searchable_columns d
           in if trim_space query = [] \<or> (drv_no_fields_stop drv \<and> cols = []) then ret (q, True)
              else let (sql, args) = drv_search drv (d_table_name d) query cols
                   in (\<lambda>s. case sql_query E sql (map (drv_format drv) args) s of
                            (Inl e, s') \<Rightarrow> (Inl (internal_err ''full-text search failed'' (Some e)), s')
                          | (Inr rs, s') \<Rightarrow>
                              (case search_ids tf rs of
                                 Inl e \<Rightarrow> (Inl e, s')
                               | Inr is \<Rightarrow> (Inr (q\<lparr>s_ids := is\<rparr>, True), s')))))"

section \<open>The operations\<close>

definition no_table :: "string \<Rightarrow> gerror" where
  "no_table dt = not_found_err (''no table mapping for docType '' @ go_quote dt)"

definition run_query ::
    "'s sql_engine \<Rightarrow> driver \<Rightarrow> select \<Rightarrow> ('s, gerror, row list) step" where
  "run_query E drv q =
     (let (sql, args) = drv_select drv q
      in (\<lambda>s. case sql_query E sql (map (drv_format drv) args) s of
                (Inl e, s') \<Rightarrow> (Inl (internal_err ''query failed'' (Some e)), s')
              | (Inr rs, s') \<Rightarrow> (scan_rows rs, s')))"

definition db_query ::
    "'s sql_engine \<Rightarrow> driver \<Rightarrow> (int \<Rightarrow> string) \<Rightarrow> db_conf \<Rightarrow> select \<Rightarrow> ('s, gerror, row list) step" where
  "db_query E drv tf c q =
     (case map_of (dbc_docs c) (s_doc_type q) of
        Some d \<Rightarrow>
          bind_s (resolve_search_filter E drv tf d (resolve_select d q)) (\<lambda>(q, applied).
            if applied \<and> s_ids q = [] then ret [] else run_query E drv q)
      | None \<Rightarrow>
          if s_table q \<noteq> [] then run_query E drv q
          else case map_of (dbc_tables c) (s_doc_type q) of
                 None \<Rightarrow> fail (no_table (s_doc_type q))
               | Some tn \<Rightarrow>
                   run_query E drv
                     (q\<lparr>s_table := tn,
                        s_include_deleted :=
                          (s_doc_type q \<in> set (dbc_children c) \<or> s_include_deleted q)\<rparr>))"

text \<open>\<open>fresh\<close> is the ULID drawn when the data carries no id.\<close>

definition insert_id :: "string \<Rightarrow> row \<Rightarrow> string" where
  "insert_id fresh data =
     (case map_of data ''id'' of Some (VStr i) \<Rightarrow> if i = [] then fresh else i | _ \<Rightarrow> fresh)"

definition format_row :: "driver \<Rightarrow> row \<Rightarrow> row" where
  "format_row drv m = map (\<lambda>(k, v). (k, drv_format drv v)) m"

definition db_insert ::
    "'s sql_engine \<Rightarrow> driver \<Rightarrow> db_conf \<Rightarrow> string \<Rightarrow> string \<Rightarrow> row \<Rightarrow> ('s, gerror, string) step" where
  "db_insert E drv c fresh dt data =
     (case map_of (dbc_tables c) dt of
        None \<Rightarrow> fail (no_table dt)
      | Some tn \<Rightarrow>
          (let i = insert_id fresh data;
               (sql, args) = drv_insert drv tn (format_row drv (AList.update ''id'' (VStr i) data))
           in (\<lambda>s. case sql_exec E sql args s of
                     (Inl e, s') \<Rightarrow> (Inl (internal_err ''insert failed'' (Some e)), s')
                   | (Inr _, s') \<Rightarrow> (Inr i, s'))))"

definition affected ::
    "'s sql_engine \<Rightarrow> string \<Rightarrow> gerror \<Rightarrow> string \<times> val list \<Rightarrow> ('s, gerror, unit) step" where
  "affected E what missing stmt = (\<lambda>s.
     case sql_exec E (fst stmt) (snd stmt) s of
       (Inl e, s') \<Rightarrow> (Inl (internal_err what (Some e)), s')
     | (Inr n, s') \<Rightarrow> ((if n = 0 then Inl missing else Inr ()), s'))"

definition missing_in :: "string \<Rightarrow> string \<Rightarrow> gerror" where
  "missing_in i dt = not_found_err (''record '' @ go_quote i @ '' not found in '' @ go_quote dt)"

definition missing_tx :: "string \<Rightarrow> string \<Rightarrow> gerror" where
  "missing_tx i dt = not_found_err (''record '' @ go_quote i @ '' not found'')"

definition db_update ::
    "'s sql_engine \<Rightarrow> driver \<Rightarrow> db_conf \<Rightarrow> (string \<Rightarrow> string \<Rightarrow> gerror)
     \<Rightarrow> string \<Rightarrow> string \<Rightarrow> row \<Rightarrow> ('s, gerror, unit) step" where
  "db_update E drv c missing dt i data =
     (case map_of (dbc_tables c) dt of
        None \<Rightarrow> fail (no_table dt)
      | Some tn \<Rightarrow>
          affected E ''update failed'' (missing i dt) (drv_update drv tn i (format_row drv data)))"

definition db_delete ::
    "'s sql_engine \<Rightarrow> driver \<Rightarrow> db_conf \<Rightarrow> (string \<Rightarrow> string \<Rightarrow> gerror)
     \<Rightarrow> string \<Rightarrow> string \<Rightarrow> ('s, gerror, unit) step" where
  "db_delete E drv c missing dt i =
     (case map_of (dbc_tables c) dt of
        None \<Rightarrow> fail (no_table dt)
      | Some tn \<Rightarrow> affected E ''delete failed'' (missing i dt) (drv_delete drv tn i))"

text \<open>
  The handle as the rest of the framework sees it. \<open>fresh\<close> stands for the ULID generator: the id of an
  insertion whose data has none.
\<close>

definition database ::
    "'s sql_engine \<Rightarrow> driver \<Rightarrow> (int \<Rightarrow> string) \<Rightarrow> db_conf \<Rightarrow> (row \<Rightarrow> string) \<Rightarrow> 's dal" where
  "database E drv tf c fresh =
     \<lparr>dal_query = db_query E drv tf c,
      dal_insert = (\<lambda>dt r. db_insert E drv c (fresh r) dt r),
      dal_update = db_update E drv c missing_in,
      dal_delete = db_delete E drv c missing_in,
      tx_query = db_query E drv tf c,
      tx_insert = (\<lambda>dt r. db_insert E drv c (fresh r) dt r),
      tx_update = db_update E drv c missing_tx,
      tx_delete = db_delete E drv c missing_tx,
      dal_begin = sql_begin E, dal_commit = sql_commit E, dal_rollback = sql_rollback E\<rparr>"

definition sqlite_database ::
    "'s sql_engine \<Rightarrow> (int \<Rightarrow> string) \<Rightarrow> (int \<Rightarrow> string) \<Rightarrow> (row \<Rightarrow> string) \<Rightarrow> compiled_doc list \<Rightarrow> 's dal" where
  "sqlite_database E rfc tf fresh docs =
     (let drv = sqlite_driver rfc in database E drv tf (register_docs drv docs empty_conf) fresh)"

subsection \<open>The methods of the two handles\<close>

text \<open>
  The wrapper of an open SQLite transaction repeats the handle's methods on the transaction, with its
  own not-found message; the PostgreSQL file repeats all of them for its driver.
\<close>

definition sqlite_tx_query where
  "sqlite_tx_query E rfc tf c = db_query E (sqlite_driver rfc) tf c"

definition sqlite_tx_insert where
  "sqlite_tx_insert E rfc c fresh = (\<lambda>dt r. db_insert E (sqlite_driver rfc) c (fresh r) dt r)"

definition sqlite_tx_update where
  "sqlite_tx_update E rfc c = db_update E (sqlite_driver rfc) c missing_tx"

definition sqlite_tx_delete where
  "sqlite_tx_delete E rfc c = db_delete E (sqlite_driver rfc) c missing_tx"

definition pg_register_docs where
  "pg_register_docs docs c = register_docs pg_driver docs c"

definition pg_query where "pg_query E tf c = db_query E pg_driver tf c"
definition pg_insert where "pg_insert E c fresh = (\<lambda>dt r. db_insert E pg_driver c (fresh r) dt r)"
definition pg_update where "pg_update E c = db_update E pg_driver c missing_in"
definition pg_delete where "pg_delete E c = db_delete E pg_driver c missing_in"
definition pg_tx_query where "pg_tx_query E tf c = db_query E pg_driver tf c"
definition pg_tx_insert where "pg_tx_insert E c fresh = (\<lambda>dt r. db_insert E pg_driver c (fresh r) dt r)"
definition pg_tx_update where "pg_tx_update E c = db_update E pg_driver c missing_tx"
definition pg_tx_delete where "pg_tx_delete E c = db_delete E pg_driver c missing_tx"

definition pg_database ::
    "'s sql_engine \<Rightarrow> (int \<Rightarrow> string) \<Rightarrow> (row \<Rightarrow> string) \<Rightarrow> compiled_doc list \<Rightarrow> 's dal" where
  "pg_database E tf fresh docs =
     (let c = pg_register_docs docs empty_conf in
      \<lparr>dal_query = pg_query E tf c, dal_insert = pg_insert E c fresh,
       dal_update = pg_update E c, dal_delete = pg_delete E c,
       tx_query = pg_tx_query E tf c, tx_insert = pg_tx_insert E c fresh,
       tx_update = pg_tx_update E c, tx_delete = pg_tx_delete E c,
       dal_begin = sql_begin E, dal_commit = sql_commit E, dal_rollback = sql_rollback E\<rparr>)"

definition pg_transaction where
  "pg_transaction E tf fresh docs body = transaction (pg_database E tf fresh docs) body"

text \<open>Both handles are instances of one construction, so what is proved of it holds for both.\<close>

lemma pg_database_eq: "pg_database E tf fresh docs = database E pg_driver tf (register_docs pg_driver docs empty_conf) fresh"
  by (simp add: pg_database_def database_def pg_register_docs_def pg_query_def pg_insert_def pg_update_def
      pg_delete_def pg_tx_query_def pg_tx_insert_def pg_tx_update_def pg_tx_delete_def Let_def)

lemma sqlite_database_tx:
  "tx_query (sqlite_database E rfc tf fresh docs) =
     sqlite_tx_query E rfc tf (register_docs (sqlite_driver rfc) docs empty_conf)"
  "tx_insert (sqlite_database E rfc tf fresh docs) =
     sqlite_tx_insert E rfc (register_docs (sqlite_driver rfc) docs empty_conf) fresh"
  "tx_update (sqlite_database E rfc tf fresh docs) =
     sqlite_tx_update E rfc (register_docs (sqlite_driver rfc) docs empty_conf)"
  "tx_delete (sqlite_database E rfc tf fresh docs) =
     sqlite_tx_delete E rfc (register_docs (sqlite_driver rfc) docs empty_conf)"
  by (simp_all add: sqlite_database_def database_def sqlite_tx_query_def sqlite_tx_insert_def
      sqlite_tx_update_def sqlite_tx_delete_def Let_def)

text \<open>\<open>CreateTables\<close>: the tables of the documents and, after each, of its child tables.\<close>

fun exec_all :: "'s sql_engine \<Rightarrow> (string \<times> string) list \<Rightarrow> ('s, gerror, unit) step" where
  "exec_all E [] = ret ()"
| "exec_all E ((what, ddl) # ds) =
     (\<lambda>s. case sql_exec E ddl [] s of
            (Inl e, s') \<Rightarrow> (Inl (internal_err what (Some e)), s')
          | (Inr _, s') \<Rightarrow> exec_all E ds s')"

definition doc_ddl :: "driver \<Rightarrow> compiled_doc \<Rightarrow> (string \<times> string) list" where
  "doc_ddl drv d =
     (''create table '' @ go_quote (d_table_name d) @ '' failed'', drv_create_table drv d) #
     map (\<lambda>c. (''create child table '' @ go_quote (cc_table_name c) @ '' failed'',
              drv_create_table drv (zero_doc\<lparr>d_table_name := cc_table_name c, d_fields := cc_fields c\<rparr>)))
       (d_child_tables d)"

definition create_tables :: "'s sql_engine \<Rightarrow> driver \<Rightarrow> compiled_doc list \<Rightarrow> ('s, gerror, unit) step" where
  "create_tables E drv docs = exec_all E (concat (map (doc_ddl drv) docs))"

definition pg_create_tables where "pg_create_tables E docs = create_tables E pg_driver docs"

section \<open>The transaction contract\<close>

text \<open>
  What a SQL engine promises of a transaction, and that a handle over such an engine meets the
  \<^const>\<open>rollback_law\<close> its clients rely on.
\<close>

inductive engine_reach :: "'s sql_engine \<Rightarrow> 's \<Rightarrow> 's \<Rightarrow> bool" for E where
  er_refl: "engine_reach E s s"
| er_query: "engine_reach E s t \<Longrightarrow> engine_reach E s (snd (sql_query E q a t))"
| er_exec: "engine_reach E s t \<Longrightarrow> engine_reach E s (snd (sql_exec E q a t))"

definition engine_law :: "'s sql_engine \<Rightarrow> bool" where
  "engine_law E \<longleftrightarrow>
     (\<forall>s e s1. sql_begin E s = (Inl e, s1) \<longrightarrow> s1 = s) \<and>
     (\<forall>s s1 s2. sql_begin E s = (Inr (), s1) \<longrightarrow> engine_reach E s1 s2 \<longrightarrow>
        sql_rollback E s2 = s \<and> (\<forall>e s3. sql_commit E s2 = (Inl e, s3) \<longrightarrow> s3 = s))"

lemma engine_reach_trans: "engine_reach E t u \<Longrightarrow> engine_reach E s t \<Longrightarrow> engine_reach E s u"
  by (induction rule: engine_reach.induct) (auto intro: engine_reach.intros)

lemma engine_reach_rel [simp, intro]: "reflp (engine_reach E)" "transp (engine_reach E)"
  by (auto simp: reflp_def transp_def intro: er_refl engine_reach_trans)

lemma snd_case_result [simp]:
  "snd (case x of (Inl e, t) \<Rightarrow> (f e t, t) | (Inr a, t) \<Rightarrow> (g a t, t)) = snd x"
  by (simp split: prod.splits sum.splits)

lemma run_query_reach: "preserves (engine_reach E) (run_query E drv q)"
  by (simp add: preserves_def run_query_def case_prod_unfold)
    (metis (no_types, lifting) engine_reach.intros snd_conv sum.case_eq_if)

lemma resolve_search_reach: "preserves (engine_reach E) (resolve_search_filter E drv tf d q)"
  unfolding preserves_def
proof
  fix s
  have *: "engine_reach E s (snd (sql_query E sql args s))" for sql args
    by (intro engine_reach.intros)
  show "engine_reach E s (snd (resolve_search_filter E drv tf d q s))"
    using * by (auto simp: resolve_search_filter_def Let_def er_refl split: option.splits prod.splits sum.splits)
      (metis snd_conv)+
qed

lemma db_query_reach: "preserves (engine_reach E) (db_query E drv tf c q)"
  by (auto simp: db_query_def run_query_reach resolve_search_reach preserves_ret preserves_fail
      intro!: preserves_bind split: option.splits)

lemma db_insert_reach: "preserves (engine_reach E) (db_insert E drv c fresh dt data)"
proof -
  have *: "engine_reach E s (snd (sql_exec E sql args s))" for sql args s
    by (intro engine_reach.intros)
  show ?thesis
    unfolding preserves_def db_insert_def Let_def case_prod_unfold
    by (auto simp: er_refl split: option.splits sum.splits) (metis * snd_conv)+
qed

lemma affected_reach: "preserves (engine_reach E) (affected E what missing stmt)"
proof -
  have *: "engine_reach E s (snd (sql_exec E sql args s))" for sql args s
    by (intro engine_reach.intros)
  show ?thesis
    unfolding preserves_def affected_def case_prod_unfold
    by (auto simp: er_refl split: sum.splits) (metis * snd_conv)+
qed

lemma database_simps [simp]:
  "tx_query (database E drv tf c fresh) = db_query E drv tf c"
  "tx_insert (database E drv tf c fresh) dt r = db_insert E drv c (fresh r) dt r"
  "tx_update (database E drv tf c fresh) = db_update E drv c missing_tx"
  "tx_delete (database E drv tf c fresh) = db_delete E drv c missing_tx"
  "dal_query (database E drv tf c fresh) = db_query E drv tf c"
  "dal_insert (database E drv tf c fresh) dt r = db_insert E drv c (fresh r) dt r"
  "dal_update (database E drv tf c fresh) = db_update E drv c missing_in"
  "dal_delete (database E drv tf c fresh) = db_delete E drv c missing_in"
  "dal_begin (database E drv tf c fresh) = sql_begin E"
  "dal_commit (database E drv tf c fresh) = sql_commit E"
  "dal_rollback (database E drv tf c fresh) = sql_rollback E"
  by (simp_all add: database_def)

lemma db_update_reach: "preserves (engine_reach E) (db_update E drv c missing dt i data)"
  by (auto simp: db_update_def affected_reach preserves_fail split: option.splits)

lemma db_delete_reach: "preserves (engine_reach E) (db_delete E drv c missing dt i)"
  by (auto simp: db_delete_def affected_reach preserves_fail split: option.splits)

lemma preserves_after:
  "transp R \<Longrightarrow> preserves R m \<Longrightarrow> R s t \<Longrightarrow> R s (snd (m t))"
  unfolding preserves_def by (meson transpD)

lemmas engine_reach_steps =
  preserves_after [OF engine_reach_rel(2) db_query_reach]
  preserves_after [OF engine_reach_rel(2) db_insert_reach]
  preserves_after [OF engine_reach_rel(2) db_update_reach]
  preserves_after [OF engine_reach_rel(2) db_delete_reach]

lemma tx_reach_engine: "tx_reach (database E drv tf c fresh) s t \<Longrightarrow> engine_reach E s t"
  by (induction rule: tx_reach.induct) (simp_all add: er_refl engine_reach_steps)

lemma database_rollback_law: "engine_law E \<Longrightarrow> rollback_law (database E drv tf c fresh)"
  unfolding engine_law_def rollback_law_def database_simps
  by (meson tx_reach_engine)

section \<open>A journalling engine\<close>

text \<open>
  An engine that records every executed statement and takes a snapshot at begin; queries and
  executions are answered by a function of the journal. It shows that the contract can be met.
\<close>

record journal =
  jr_log :: "(string \<times> val list) list"
  jr_saved :: "(string \<times> val list) list option"

definition empty_journal :: journal where
  "empty_journal = \<lparr>jr_log = [], jr_saved = None\<rparr>"

type_synonym answers = "(string \<times> val list) list \<Rightarrow> string \<Rightarrow> val list \<Rightarrow> gerror + sql_rows"

definition journal_engine :: "answers \<Rightarrow> (string \<Rightarrow> val list \<Rightarrow> gerror + int) \<Rightarrow> journal sql_engine" where
  "journal_engine ans ex =
     \<lparr>sql_query = (\<lambda>q a s. (ans (jr_log s) q a, s)),
      sql_exec = (\<lambda>q a s. case ex q a of
                            Inl e \<Rightarrow> (Inl e, s)
                          | Inr n \<Rightarrow> (Inr n, s\<lparr>jr_log := jr_log s @ [(q, a)]\<rparr>)),
      sql_begin = (\<lambda>s. if jr_saved s = None then (Inr (), s\<lparr>jr_saved := Some (jr_log s)\<rparr>)
                       else (Inl (StdError ''transaction in progress'' None), s)),
      sql_commit = (\<lambda>s. (Inr (), s\<lparr>jr_saved := None\<rparr>)),
      sql_rollback = (\<lambda>s. case jr_saved s of None \<Rightarrow> s
                          | Some l \<Rightarrow> s\<lparr>jr_log := l, jr_saved := None\<rparr>)\<rparr>"

lemma journal_reach_saved: "engine_reach (journal_engine ans ex) s t \<Longrightarrow> jr_saved t = jr_saved s"
  by (induction rule: engine_reach.induct) (auto simp: journal_engine_def split: sum.splits)

lemma journal_engine_law: "engine_law (journal_engine ans ex)"
  unfolding engine_law_def
  by (auto simp: journal_engine_def dest!: journal_reach_saved [unfolded journal_engine_def] split: if_splits)

section \<open>Facts about the operations\<close>

lemma run_query_error:
  "run_query E drv q s = (Inl e, t) \<Longrightarrow> err_code e = Some CodeInternal"
  by (auto simp: run_query_def scan_rows_def split: prod.splits sum.splits option.splits)

lemma scan_ids_error: "scan_ids tf rs = Inl e \<Longrightarrow> err_code e = Some CodeInternal"
  by (induction tf rs rule: scan_ids.induct) (auto split: sum.splits, metis bind_r.elims sum.distinct(1) sum.sel(1))

lemma search_ids_error: "search_ids tf rs = Inl e \<Longrightarrow> err_code e = Some CodeInternal"
  by (cases "scan_ids tf (sr_rows rs)") (auto simp: search_ids_def scan_ids_error split: option.splits)

lemma resolve_search_error:
  "resolve_search_filter E drv tf d q s = (Inl e, t) \<Longrightarrow> err_code e = Some CodeInternal"
  by (auto simp: resolve_search_filter_def Let_def search_ids_error
      split: option.splits prod.splits sum.splits if_splits)

lemma db_query_error:
  "db_query E drv tf c q s = (Inl e, t) \<Longrightarrow> err_code e \<in> {Some CodeNotFound, Some CodeInternal}"
  by (auto simp: db_query_def no_table_def bind_s_Inl run_query_error resolve_search_error
      split: option.splits if_splits prod.splits dest: run_query_error resolve_search_error)

text \<open>A query that names neither the soft-deleted rows nor a child table asks for live rows only.\<close>

lemma resolve_select_deleted [simp]: "s_include_deleted (resolve_select d q) = s_include_deleted q"
  by (simp add: resolve_select_def)

lemma live_rows_only:
  "\<not> s_include_deleted q \<Longrightarrow>
     hd (snd (render_select ph q)) = VBool False \<and>
     (\<exists>post. fst (render_select ph q) =
        ''SELECT '' @ (if s_fields q = [] then ''*'' else join_with '', '' (map go_quote (s_fields q))) @
        '' FROM '' @ go_quote (s_table q) @ '' WHERE '' @ go_quote ''deleted'' @ '' = '' @ ph 1 @ post)"
proof -
  assume a: "\<not> s_include_deleted q"
  have q: "go_quote ''deleted'' = CHR 0x22 # ''deleted'' @ [CHR 0x22]" by code_simp
  obtain rest where c: "condition_toks q = [TTxt (go_quote ''deleted'' @ '' = ''), THole 1] # rest"
    using a by (simp add: condition_toks_def Let_def q)
  obtain ys where j: "join_toks '' AND '' (condition_toks q) =
      [TTxt (go_quote ''deleted'' @ '' = ''), THole 1] @ ys"
    by (cases rest) (auto simp: c)
  have "fst (render_select ph q) =
      ''SELECT '' @ (if s_fields q = [] then ''*'' else join_with '', '' (map go_quote (s_fields q))) @
      '' FROM '' @ go_quote (s_table q) @ '' WHERE '' @ go_quote ''deleted'' @ '' = '' @ ph 1 @
      flat_toks ph ys @ order_clause (s_order_by q) @
            (if 0 < s_limit q then '' LIMIT '' @ itoa (s_limit q) else []) @
            (if 0 < s_offset q then '' OFFSET '' @ itoa (s_offset q) else [])"
    unfolding render_select_toks select_toks_def j using c by simp
  moreover have "hd (snd (render_select ph q)) = VBool False"
    using a by (simp add: render_select_args select_args_def)
  ultimately show ?thesis by blast
qed

lemma fold_child_children:
  "set (dbc_children (fold (register_child drv) cs c)) =
     set (dbc_children c) \<union> (if drv_child_aware drv then cc_type_name ` set cs else {})"
  by (induction cs arbitrary: c) (auto simp: register_child_def register_table_def Let_def)

lemma register_docs_children:
  "set (dbc_children (register_docs drv docs c)) =
     set (dbc_children c) \<union>
     (if drv_child_aware drv then (\<Union>d \<in> set docs. cc_type_name ` set (d_child_tables d)) else {})"
  unfolding register_docs_def
  by (induction docs arbitrary: c) (auto simp: fold_child_children register_table_def)

lemma fold_child_docs: "dbc_docs (fold (register_child drv) cs c) = dbc_docs c"
  by (induction cs arbitrary: c) (auto simp: register_child_def register_table_def Let_def)

lemma register_docs_docs:
  "k \<notin> d_name ` set docs \<Longrightarrow> map_of (dbc_docs (register_docs drv docs c)) k = map_of (dbc_docs c) k"
  unfolding register_docs_def
  by (induction docs arbitrary: c) (auto simp: fold_child_docs map_of_update)

lemma run_query_Inr:
  assumes "run_query E drv q s = (Inr rows, t)"
  shows "\<exists>rs. sql_query E (fst (drv_select drv q)) (map (drv_format drv) (snd (drv_select drv q))) s = (Inr rs, t) \<and>
    rows = map (scan_row (sr_cols rs)) (sr_rows rs)"
  using assms by (auto simp: run_query_def scan_rows_def split: prod.splits sum.splits option.splits)

lemma resolve_search_keeps:
  assumes "resolve_search_filter E drv tf d q s = (Inr (q', a), t)"
  shows "s_include_deleted q' = s_include_deleted q \<and> s_table q' = s_table q"
  using assms
  by (auto simp: resolve_search_filter_def Let_def split: option.splits if_splits prod.splits sum.splits)

section \<open>Properties\<close>

text \<open>C14: A transaction whose body fails leaves the database as it was, whatever the body's operations
  did, for every SQL engine that rolls back and commits as SQL engines promise.\<close>

theorem transaction_atomic:
  assumes "engine_law E" and "D = database E drv tf c fresh"
    and "preserves (tx_reach D) body" and "transaction D body s = (Inl e, t)"
  shows "t = s"
  using transaction_error [OF _ assms(3,4)] database_rollback_law [OF assms(1)] assms(2) by blast

definition small_conf :: db_conf where
  "small_conf = register_table ''Note'' ''notes'' empty_conf"

definition small_db :: "journal dal" where
  "small_db = database (journal_engine (\<lambda>l q a. Inl (StdError ''none'' None)) (\<lambda>q a. Inr 1)) pg_driver itoa
     small_conf (\<lambda>r. ''n1'')"

definition small_body :: "(journal, gerror, unit) step" where
  "small_body = bind_s (tx_insert small_db ''Note'' [(''text'', VStr ''x'')]) (\<lambda>i. tx_delete small_db ''Other'' i)"

theorem transaction_atomic_witness:
  "transaction small_db small_body empty_journal =
     (Inl (no_table ''Other''), empty_journal) \<and>
   jr_log (snd (tx_insert small_db ''Note'' [(''text'', VStr ''x'')] empty_journal)) \<noteq> []"
proof -
  have p: "preserves (tx_reach small_db) small_body"
    unfolding small_body_def by (intro preserves_bind tx_preserves tx_reach_rel)
  have e: "fst (transaction small_db small_body empty_journal) = Inl (no_table ''Other'')" by code_simp
  then have "transaction small_db small_body empty_journal =
      (Inl (no_table ''Other''), snd (transaction small_db small_body empty_journal))"
    by (simp add: prod_eq_iff)
  from transaction_atomic [OF journal_engine_law small_db_def p this] e
  have "transaction small_db small_body empty_journal = (Inl (no_table ''Other''), empty_journal)"
    by (simp add: prod_eq_iff)
  moreover have "jr_log (snd (tx_insert small_db ''Note'' [(''text'', VStr ''x'')] empty_journal)) \<noteq> []"
    by code_simp
  ultimately show ?thesis by blast
qed

text \<open>Rows of a registered DocType that a query without \<open>IncludeDeleted\<close> returns are the answer to
  a statement whose first condition is \<open>deleted = false\<close>: soft-deleted records stay hidden, through
  name resolution and full-text search alike.\<close>

theorem soft_deleted_hidden:
  assumes "db_query E (sqlite_driver rfc) tf c q s = (Inr rows, t)" and "rows \<noteq> []"
    and "map_of (dbc_docs c) (s_doc_type q) = Some d" and "\<not> s_include_deleted q"
  shows "\<exists>sql args rs s1 pre post. sql_query E sql args s1 = (Inr rs, t) \<and>
    rows = map (scan_row (sr_cols rs)) (sr_rows rs) \<and> hd args = VBool False \<and>
    sql = pre @ '' WHERE '' @ go_quote ''deleted'' @ '' = ?'' @ post"
proof -
  obtain q' s1 where del: "\<not> s_include_deleted q'"
    and run: "run_query E (sqlite_driver rfc) q' s1 = (Inr rows, t)"
    using assms
    by (auto simp: db_query_def bind_s_Inr split: if_splits prod.splits dest!: resolve_search_keeps)
  obtain rs where rs: "sql_query E (fst (sqlite_select_sql q'))
      (map (format_value rfc) (snd (sqlite_select_sql q'))) s1 = (Inr rs, t)"
    "rows = map (scan_row (sr_cols rs)) (sr_rows rs)"
    using run_query_Inr [OF run] by (auto simp: sqlite_driver_def)
  have hd: "hd (map (format_value rfc) (snd (sqlite_select_sql q'))) = VBool False"
    using del by (simp add: sqlite_select_sql_def render_select_args select_args_def format_value_def)
  obtain pre post where
    "fst (sqlite_select_sql q') = pre @ '' WHERE '' @ go_quote ''deleted'' @ '' = '' @ sqlite_placeholder 1 @ post"
    using live_rows_only [OF del, of sqlite_placeholder]
    unfolding sqlite_select_sql_def by (metis append.assoc)
  then have stmt: "fst (sqlite_select_sql q') = pre @ '' WHERE '' @ go_quote ''deleted'' @ '' = ?'' @ post"
    by (simp add: sqlite_placeholder_def)
  show ?thesis by (intro exI conjI) (rule rs(1), rule rs(2), rule hd, rule stmt)
qed

definition note_answers :: answers where
  "note_answers log q args = Inr \<lparr>sr_cols = [''id''], sr_rows = [[SqlBytes ''n1'']], sr_err = None\<rparr>"

definition note_conf :: db_conf where
  "note_conf = register_docs (sqlite_driver itoa)
     [zero_doc\<lparr>d_name := ''Note'', d_table_name := ''notes'',
        d_fields := [zero_field\<lparr>f_name := ''Body'', f_db_column := ''body'', f_searchable := True\<rparr>]\<rparr>] empty_conf"

theorem soft_deleted_hidden_witness:
  "\<exists>sql args rs s1 pre post. sql_query (journal_engine note_answers (\<lambda>q a. Inr 1)) sql args s1 = (Inr rs, empty_journal) \<and>
    [[(''id'', VStr ''n1'')]] = map (scan_row (sr_cols rs)) (sr_rows rs) \<and> hd args = VBool False \<and>
    sql = pre @ '' WHERE '' @ go_quote ''deleted'' @ '' = ?'' @ post"
proof -
  have q: "db_query (journal_engine note_answers (\<lambda>q a. Inr 1)) (sqlite_driver itoa) itoa note_conf
      (zero_select\<lparr>s_doc_type := ''Note'', s_filters := [(''q'', VStr ''milk'')]\<rparr>) empty_journal =
      (Inr [[(''id'', VStr ''n1'')]], empty_journal)"
    by code_simp
  obtain d where d: "map_of (dbc_docs note_conf) ''Note'' = Some d"
    by (simp add: note_conf_def register_docs_def empty_conf_def register_table_def zero_doc_def)
  show ?thesis
    by (rule soft_deleted_hidden [OF q]) (simp_all add: d zero_select_def)
qed

text \<open>A query for a child table asks for live rows only when the handle does not know it is one:
  SQLite drops the soft-delete condition, which child tables have no column for; PostgreSQL keeps it.\<close>

theorem child_table_query:
  assumes "c = register_docs drv docs empty_conf" and "d \<in> set docs" and "ch \<in> set (d_child_tables d)"
    and "cc_type_name ch \<notin> d_name ` set docs" and "s_doc_type q = cc_type_name ch" and "s_table q = []"
    and "map_of (dbc_tables c) (cc_type_name ch) = Some tn"
  shows "db_query E drv tf c q =
    run_query E drv (q\<lparr>s_table := tn, s_include_deleted := (drv_child_aware drv \<or> s_include_deleted q)\<rparr>)"
proof -
  have "map_of (dbc_docs c) (s_doc_type q) = None"
    using assms(1,4,5) by (simp add: register_docs_docs empty_conf_def)
  moreover have "s_doc_type q \<in> set (dbc_children c) \<longleftrightarrow> drv_child_aware drv"
    using assms(1,2,3,5) by (auto simp: register_docs_children empty_conf_def)
  ultimately show ?thesis using assms(5,6,7) by (simp add: db_query_def)
qed

definition user_role_docs :: "compiled_doc list" where
  "user_role_docs =
     [zero_doc\<lparr>d_name := ''User'', d_table_name := ''users'',
        d_child_tables := [\<lparr>cc_field_name = ''Roles'', cc_type_name = ''UserRole'', cc_doc_type = ''user_role'',
                            cc_table_name = ''user_roles'', cc_fields = base_child_fields\<rparr>]\<rparr>]"

theorem child_table_query_witness:
  "db_query (journal_engine note_answers (\<lambda>q a. Inr 1)) pg_driver itoa (register_docs pg_driver user_role_docs empty_conf)
      (zero_select\<lparr>s_doc_type := ''UserRole''\<rparr>) =
    run_query (journal_engine note_answers (\<lambda>q a. Inr 1)) pg_driver (zero_select\<lparr>s_doc_type := ''UserRole'', s_table := ''user_roles'',
      s_include_deleted := False\<rparr>)"
proof -
  have t: "map_of (dbc_tables (register_docs pg_driver user_role_docs empty_conf)) ''UserRole'' = Some ''user_roles''"
    by code_simp
  show ?thesis
    using child_table_query [OF refl, of "hd user_role_docs" user_role_docs "hd (d_child_tables (hd user_role_docs))"
        "zero_select\<lparr>s_doc_type := ''UserRole''\<rparr>" pg_driver "''user_roles''"
        "journal_engine note_answers (\<lambda>q a. Inr 1)" itoa] t
    by (simp add: user_role_docs_def zero_doc_def zero_select_def pg_driver_def)
qed

end
