(* ===== verification/EventBus.thy ===== *)
theory EventBus
  imports Auth
begin

text \<open>
  The in-process event bus (\<open>event/bus.go\<close>): handlers run in registration order, each sees the
  document as its predecessors left it, and the first error stops the emission.
\<close>

text \<open>A handler may change the document map it is given and may return an error.\<close>

type_synonym handler = "ctx \<Rightarrow> row \<Rightarrow> row \<times> gerror option"

record registration =
  reg_doc_type :: string
  reg_event :: string
  reg_handler :: handler

type_synonym bus = "registration list"

definition bus_on :: "string \<Rightarrow> string \<Rightarrow> handler \<Rightarrow> bus \<Rightarrow> bus" where
  "bus_on dt ev h b = b @ [\<lparr>reg_doc_type = dt, reg_event = ev, reg_handler = h\<rparr>]"

definition handlers_for :: "bus \<Rightarrow> string \<Rightarrow> string \<Rightarrow> handler list" where
  "handlers_for b dt ev =
     map reg_handler (filter (\<lambda>r. reg_doc_type r = dt \<and> reg_event r = ev) b)"

definition wrap_hook_error :: "string \<Rightarrow> string \<Rightarrow> gerror \<Rightarrow> gerror" where
  "wrap_hook_error dt ev err =
     (case as_error err of
        Some oj \<Rightarrow> oj
      | None \<Rightarrow> new_error CodeValidation
          (''hook '' @ go_quote dt @ ''/'' @ go_quote ev @ '' returned error: '' @ error_text err)
          [] (Some err))"

fun run_handlers :: "string \<Rightarrow> string \<Rightarrow> handler list \<Rightarrow> ctx \<Rightarrow> row \<Rightarrow> row \<times> gerror option" where
  "run_handlers dt ev [] cx doc = (doc, None)"
| "run_handlers dt ev (h # hs) cx doc =
     (case h cx doc of
        (doc', Some err) \<Rightarrow> (doc', Some (wrap_hook_error dt ev err))
      | (doc', None) \<Rightarrow> run_handlers dt ev hs cx doc')"

definition bus_emit :: "bus \<Rightarrow> ctx \<Rightarrow> string \<Rightarrow> string \<Rightarrow> row \<Rightarrow> row \<times> gerror option" where
  "bus_emit b cx dt ev doc = run_handlers dt ev (handlers_for b dt ev) cx doc"

text \<open>Event names (PRD 19.1).\<close>

abbreviation "ev_before_validate \<equiv> ''before_validate''"
abbreviation "ev_after_validate \<equiv> ''after_validate''"
abbreviation "ev_before_insert \<equiv> ''before_insert''"
abbreviation "ev_before_save \<equiv> ''before_save''"
abbreviation "ev_after_insert \<equiv> ''after_insert''"
abbreviation "ev_after_save \<equiv> ''after_save''"
abbreviation "ev_before_update \<equiv> ''before_update''"
abbreviation "ev_after_update \<equiv> ''after_update''"
abbreviation "ev_before_delete \<equiv> ''before_delete''"
abbreviation "ev_after_delete \<equiv> ''after_delete''"
abbreviation "ev_on_workflow \<equiv> ''on_workflow_transition''"

lemma run_handlers_append:
  "run_handlers dt ev (hs @ ks) cx doc =
     (case run_handlers dt ev hs cx doc of
        (doc', Some e) \<Rightarrow> (doc', Some e)
      | (doc', None) \<Rightarrow> run_handlers dt ev ks cx doc')"
  by (induction hs arbitrary: doc) (auto split: prod.splits option.splits)

lemma as_error_Some_code: "as_error err = Some oj \<Longrightarrow> \<exists>c. err_code oj = Some c"
  by (induction err arbitrary: oj rule: as_error.induct) auto

lemma wrap_hook_error_code [simp]: "\<exists>c. err_code (wrap_hook_error dt ev err) = Some c"
  by (cases "as_error err") (simp_all add: wrap_hook_error_def as_error_Some_code)

lemma run_handlers_error_code:
  "run_handlers dt ev hs cx doc = (doc', Some e) \<Longrightarrow> \<exists>c. err_code e = Some c"
  by (induction hs arbitrary: doc) (auto split: prod.splits option.splits)

lemma handlers_for_on:
  "handlers_for (bus_on dt ev h b) dt' ev' =
     handlers_for b dt' ev' @ (if dt' = dt \<and> ev' = ev then [h] else [])"
  by (auto simp: handlers_for_def bus_on_def)

lemma bus_emit_empty: "bus_emit [] cx dt ev doc = (doc, None)"
  by (simp add: bus_emit_def handlers_for_def)

lemma bus_emit_on:
  "bus_emit (bus_on dt ev h b) cx dt' ev' doc =
     (case bus_emit b cx dt' ev' doc of
        (doc', Some e) \<Rightarrow> (doc', Some e)
      | (doc', None) \<Rightarrow>
          if dt' = dt \<and> ev' = ev
          then (case h cx doc' of
                  (doc'', Some err) \<Rightarrow> (doc'', Some (wrap_hook_error dt ev err))
                | (doc'', None) \<Rightarrow> (doc'', None))
          else (doc', None))"
  by (auto simp: bus_emit_def handlers_for_on run_handlers_append split: prod.splits option.splits)

lemma bus_emit_error_code:
  "bus_emit b cx dt ev doc = (doc', Some e) \<Longrightarrow> \<exists>c. err_code e = Some c"
  unfolding bus_emit_def by (rule run_handlers_error_code)

section \<open>The interface its clients rely on\<close>

text \<open>
  What registration and emission promise: a fresh bus changes nothing, a registration is appended
  to its own (DocType, event) pair and touches no other, and errors are framework errors.
\<close>

locale event_bus =
  fixes empty_bus :: "'b"
    and on :: "string \<Rightarrow> string \<Rightarrow> handler \<Rightarrow> 'b \<Rightarrow> 'b"
    and emit :: "'b \<Rightarrow> ctx \<Rightarrow> string \<Rightarrow> string \<Rightarrow> row \<Rightarrow> row \<times> gerror option"
  assumes emit_empty: "emit empty_bus cx dt ev doc = (doc, None)"
    and emit_on_other:
      "(dt', ev') \<noteq> (dt, ev) \<Longrightarrow> emit (on dt ev h b) cx dt' ev' doc = emit b cx dt' ev' doc"
    and emit_on_stop:
      "emit b cx dt ev doc = (doc', Some e) \<Longrightarrow> emit (on dt ev h b) cx dt ev doc = (doc', Some e)"
    and emit_on_ok:
      "emit b cx dt ev doc = (doc', None) \<Longrightarrow> h cx doc' = (doc'', None) \<Longrightarrow>
         emit (on dt ev h b) cx dt ev doc = (doc'', None)"
    and emit_on_err:
      "emit b cx dt ev doc = (doc', None) \<Longrightarrow> h cx doc' = (doc'', Some err) \<Longrightarrow>
         \<exists>e c. emit (on dt ev h b) cx dt ev doc = (doc'', Some e) \<and> err_code e = Some c"
begin

text \<open>Handlers that only succeed act as the composition of their document changes, in order.\<close>

definition register_all :: "string \<Rightarrow> string \<Rightarrow> (ctx \<Rightarrow> row \<Rightarrow> row) list \<Rightarrow> 'b \<Rightarrow> 'b" where
  "register_all dt ev fs b = fold (\<lambda>f. on dt ev (\<lambda>cx d. (f cx d, None))) fs b"

lemma emit_register_all:
  "emit b cx dt ev doc = (d0, None) \<Longrightarrow>
     emit (register_all dt ev fs b) cx dt ev doc = (fold (\<lambda>f d. f cx d) fs d0, None)"
proof (induction fs arbitrary: b d0)
  case Nil
  then show ?case by (simp add: register_all_def)
next
  case (Cons f fs)
  have "emit (on dt ev (\<lambda>cx d. (f cx d, None)) b) cx dt ev doc = (f cx d0, None)"
    using Cons.prems by (rule emit_on_ok) simp
  then show ?case using Cons.IH by (simp add: register_all_def)
qed

lemma emit_register_all_other:
  "(dt', ev') \<noteq> (dt, ev) \<Longrightarrow> emit (register_all dt ev fs b) cx dt' ev' doc = emit b cx dt' ev' doc"
  by (induction fs arbitrary: b) (simp_all add: register_all_def emit_on_other)

end

interpretation go_bus: event_bus "[]" bus_on bus_emit
  by unfold_locales
    (auto simp: bus_emit_empty bus_emit_on wrap_hook_error_code split: prod.splits option.splits)

section \<open>Properties\<close>

text \<open>Hooks registered for a DocType and event run in registration order, each on the document its
  predecessors left, and they leave the emission of every other pair as it was.\<close>

theorem hooks_in_order:
  "bus_emit (go_bus.register_all dt ev fs b) cx dt' ev' doc =
     (if dt' = dt \<and> ev' = ev
      then (case bus_emit b cx dt ev doc of
              (d, None) \<Rightarrow> (fold (\<lambda>f d. f cx d) fs d, None)
            | (d, Some e) \<Rightarrow> (d, Some e))
      else bus_emit b cx dt' ev' doc)"
proof (cases "dt' = dt \<and> ev' = ev")
  case True
  have stop: "bus_emit b cx dt ev doc = (d, Some e) \<Longrightarrow>
      bus_emit (go_bus.register_all dt ev fs b) cx dt ev doc = (d, Some e)" for d e
    by (induction fs arbitrary: b) (simp_all add: go_bus.register_all_def go_bus.emit_on_stop)
  from True show ?thesis
    by (auto split: prod.splits option.splits intro: stop go_bus.emit_register_all)
next
  case False
  then show ?thesis by (auto intro: go_bus.emit_register_all_other)
qed

end
