(* ===== verification/AuditLog.thy ===== *)
theory AuditLog
  imports Database EventBus
begin

text \<open>
  The audit log (\<open>audit/audit.go\<close>, \<open>audit/db.go\<close>): entries, per-field diffs, entry construction from the
  context, the in-memory log with its query, and the database-backed log, which writes through the
  transaction of the operation it records.
\<close>

record field_change =
  fc_field :: string
  fc_old :: val
  fc_new :: val

record audit_entry =
  ae_id :: string
  ae_timestamp :: int
  ae_user_id :: string
  ae_doc_type :: string
  ae_doc_id :: string
  ae_action :: string
  ae_changes :: "field_change list"
  ae_via_agent :: bool
  ae_agent_session :: string
  ae_agent_prompt :: string
  ae_ip_address :: string
  ae_user_agent :: string
  ae_request_id :: string

record query_filter =
  qf_doc_type :: string
  qf_doc_id :: string
  qf_user_id :: string
  qf_via_agent :: "bool option"
  qf_since :: int
  qf_limit :: int

section \<open>Diffs\<close>

text \<open>\<open>valuesEqual\<close> compares the \<open>%v\<close> renderings; nil equals only nil.\<close>

definition values_equal :: "(int \<Rightarrow> string) \<Rightarrow> val \<Rightarrow> val \<Rightarrow> bool" where
  "values_equal ft a b =
     (if a = VNil \<and> b = VNil then True
      else if a = VNil \<or> b = VNil then False
      else fmt_v ft a = fmt_v ft b)"

definition diff_maps :: "(int \<Rightarrow> string) \<Rightarrow> row \<Rightarrow> row \<Rightarrow> field_change list" where
  "diff_maps ft old new =
     map (\<lambda>(k, v). \<lparr>fc_field = k, fc_old = get_or_nil old k, fc_new = v\<rparr>)
       (filter (\<lambda>(k, v). \<not> values_equal ft (get_or_nil old k) v) new) @
     map (\<lambda>(k, v). \<lparr>fc_field = k, fc_old = v, fc_new = VNil\<rparr>)
       (filter (\<lambda>(k, v). k \<notin> set (map_keys new)) old)"

section \<open>Entries\<close>

definition with_agent :: "ctx \<Rightarrow> string \<Rightarrow> string \<Rightarrow> ctx" where
  "with_agent cx sid prompt =
     cx\<lparr>cx_via_agent := True, cx_agent_session := sid, cx_agent_prompt := prompt\<rparr>"

definition with_request_id :: "ctx \<Rightarrow> string \<Rightarrow> ctx" where
  "with_request_id cx rid = cx\<lparr>cx_request_id := rid\<rparr>"

definition request_id_from_context :: "ctx \<Rightarrow> string" where
  "request_id_from_context cx = cx_request_id cx"

text \<open>\<open>BuildEntry\<close>; \<open>ulid\<close> and \<open>now\<close> are the id and the time it draws.\<close>

definition build_entry ::
    "string \<Rightarrow> int \<Rightarrow> ctx \<Rightarrow> string \<Rightarrow> string \<Rightarrow> string \<Rightarrow> field_change list \<Rightarrow> audit_entry" where
  "build_entry ulid now cx action dt i changes =
     \<lparr>ae_id = ulid, ae_timestamp = now, ae_user_id = i_user_id (auth_from_context cx),
      ae_doc_type = dt, ae_doc_id = i, ae_action = action, ae_changes = changes,
      ae_via_agent = cx_via_agent cx, ae_agent_session = cx_agent_session cx,
      ae_agent_prompt = cx_agent_prompt cx, ae_ip_address = [], ae_user_agent = [],
      ae_request_id = cx_request_id cx\<rparr>"

section \<open>The in-memory log\<close>

definition entry_id :: "string \<Rightarrow> audit_entry \<Rightarrow> string" where
  "entry_id fresh e = (if ae_id e \<noteq> [] then ae_id e else fresh)"

definition entry_timestamp :: "int \<Rightarrow> audit_entry \<Rightarrow> int" where
  "entry_timestamp now e = (if ae_timestamp e = 0 then now else ae_timestamp e)"

definition mem_log_write :: "string \<Rightarrow> int \<Rightarrow> audit_entry \<Rightarrow> audit_entry list \<Rightarrow> audit_entry list" where
  "mem_log_write fresh now e es =
     es @ [e\<lparr>ae_id := entry_id fresh e, ae_timestamp := entry_timestamp now e\<rparr>]"

definition entry_matches :: "query_filter \<Rightarrow> audit_entry \<Rightarrow> bool" where
  "entry_matches f e \<longleftrightarrow>
     \<not> (qf_doc_type f \<noteq> [] \<and> ae_doc_type e \<noteq> qf_doc_type f) \<and>
     \<not> (qf_doc_id f \<noteq> [] \<and> ae_doc_id e \<noteq> qf_doc_id f) \<and>
     \<not> (qf_user_id f \<noteq> [] \<and> ae_user_id e \<noteq> qf_user_id f) \<and>
     (case qf_via_agent f of None \<Rightarrow> True | Some b \<Rightarrow> ae_via_agent e = b) \<and>
     \<not> (qf_since f \<noteq> 0 \<and> ae_timestamp e < qf_since f)"

fun mem_log_scan :: "query_filter \<Rightarrow> audit_entry list \<Rightarrow> audit_entry list \<Rightarrow> audit_entry list" where
  "mem_log_scan f out [] = out"
| "mem_log_scan f out (e # es) =
     (if entry_matches f e
      then let out = out @ [e]
           in if 0 < qf_limit f \<and> qf_limit f \<le> int (length out) then out else mem_log_scan f out es
      else mem_log_scan f out es)"

definition mem_log_query :: "query_filter \<Rightarrow> audit_entry list \<Rightarrow> audit_entry list" where
  "mem_log_query f es = mem_log_scan f [] es"

section \<open>The database-backed log\<close>

definition audit_doc_type :: string where "audit_doc_type = ''audit''"
definition audit_table :: string where "audit_table = ''audit_entries''"

text \<open>\<open>UnixNano\<close>: nanoseconds since 1970, a wrapping 64-bit integer.\<close>

definition unix_nano :: "int \<Rightarrow> int" where
  "unix_nano t = (t - 62135596800000000000 + 2 ^ 63) mod 2 ^ 64 - 2 ^ 63"

definition change_json :: "(int \<Rightarrow> string) \<Rightarrow> field_change \<Rightarrow> string" where
  "change_json jt c =
     ''{'' @ json_str ''Field'' @ '':'' @ json_str (fc_field c) @ '','' @
     json_str ''OldValue'' @ '':'' @ json_encode jt (fc_old c) @ '','' @
     json_str ''NewValue'' @ '':'' @ json_encode jt (fc_new c) @ ''}''"

definition changes_json :: "(int \<Rightarrow> string) \<Rightarrow> field_change list \<Rightarrow> string" where
  "changes_json jt cs =
     (if cs = [] then [] else ''['' @ join_with '','' (map (change_json jt) cs) @ '']'')"

definition entry_row :: "(int \<Rightarrow> string) \<Rightarrow> string \<Rightarrow> int \<Rightarrow> string \<Rightarrow> audit_entry \<Rightarrow> row" where
  "entry_row jt fresh now dialect e =
     (let t = entry_timestamp now e
      in [(''id'', VStr (entry_id fresh e)),
          (''timestamp'', if dialect = ''sqlite'' then VInt64 (unix_nano t) else VTime t),
          (''user_id'', VStr (ae_user_id e)), (''doc_type'', VStr (ae_doc_type e)),
          (''doc_id'', VStr (ae_doc_id e)), (''action'', VStr (ae_action e)),
          (''changes'', VStr (changes_json jt (ae_changes e))),
          (''via_agent'', VBool (ae_via_agent e)), (''agent_session'', VStr (ae_agent_session e)),
          (''agent_prompt'', VStr (ae_agent_prompt e)), (''ip_address'', VStr (ae_ip_address e)),
          (''user_agent'', VStr (ae_user_agent e)), (''request_id'', VStr (ae_request_id e))])"

definition audit_columns :: "string list" where
  "audit_columns =
     [''id'', ''timestamp'', ''user_id'', ''doc_type'', ''doc_id'', ''action'', ''changes'',
      ''via_agent'', ''agent_session'', ''agent_prompt'', ''ip_address'', ''user_agent'', ''request_id'']"

text \<open>The standalone insert of \<open>Write\<close>.\<close>

definition audit_insert_sql :: "(nat \<Rightarrow> string) \<Rightarrow> row \<Rightarrow> string \<times> val list" where
  "audit_insert_sql ph r =
     (''INSERT INTO '' @ audit_table @ '' ('' @ join_with '', '' audit_columns @ '') VALUES ('' @
      join_with '', '' (map (\<lambda>i. ph (Suc i)) [0..<length audit_columns]) @ '')'',
      map (get_or_nil r) audit_columns)"

definition db_log_write ::
    "'s sql_engine \<Rightarrow> (nat \<Rightarrow> string) \<Rightarrow> row \<Rightarrow> ('s, gerror, unit) step" where
  "db_log_write E ph r = (\<lambda>s.
     case sql_exec E (fst (audit_insert_sql ph r)) (snd (audit_insert_sql ph r)) s of
       (Inl e, s') \<Rightarrow> (Inl (internal_err ''audit: write failed'' (Some e)), s')
     | (Inr _, s') \<Rightarrow> (Inr (), s'))"

text \<open>\<open>Query\<close>: the statement and its arguments.\<close>

definition audit_conditions :: "string \<Rightarrow> query_filter \<Rightarrow> (string \<times> val) list" where
  "audit_conditions dialect f =
     (if qf_doc_type f \<noteq> [] then [(''doc_type = '', VStr (qf_doc_type f))] else []) @
     (if qf_doc_id f \<noteq> [] then [(''doc_id = '', VStr (qf_doc_id f))] else []) @
     (if qf_user_id f \<noteq> [] then [(''user_id = '', VStr (qf_user_id f))] else []) @
     (case qf_via_agent f of None \<Rightarrow> [] | Some b \<Rightarrow> [(''via_agent = '', VBool b)]) @
     (if qf_since f \<noteq> 0
      then [(''timestamp >= '', if dialect = ''sqlite'' then VInt64 (unix_nano (qf_since f))
                                else VTime (qf_since f))]
      else [])"

definition audit_query_sql :: "string \<Rightarrow> (nat \<Rightarrow> string) \<Rightarrow> query_filter \<Rightarrow> string \<times> val list" where
  "audit_query_sql dialect ph f =
     (let cs = audit_conditions dialect f;
          ws = map (\<lambda>(i, (c, v)). c @ ph (Suc i)) (List.enumerate 0 cs);
          args = map snd cs
      in (''SELECT '' @ join_with '', '' audit_columns @ '' FROM '' @ audit_table @
          (if ws = [] then [] else '' WHERE '' @ join_with '' AND '' ws) @
          '' ORDER BY timestamp DESC'' @
          (if 0 < qf_limit f then '' LIMIT '' @ ph (Suc (length args)) else []),
          args @ (if 0 < qf_limit f then [VInt (qf_limit f)] else [])))"

section \<open>The log as the engines see it\<close>

text \<open>
  \<open>WriteInTx\<close> dispatches on the optional \<open>TxWriter\<close> interface of the configured log.
\<close>

record 's audit_log =
  al_write :: "audit_entry \<Rightarrow> ('s, gerror, unit) step"
  al_write_tx :: "(audit_entry \<Rightarrow> ('s, gerror, unit) step) option"

definition write_in_tx :: "'s audit_log \<Rightarrow> audit_entry \<Rightarrow> ('s, gerror, unit) step" where
  "write_in_tx L e = (case al_write_tx L of Some w \<Rightarrow> w e | None \<Rightarrow> al_write L e)"

definition db_log_write_tx :: "'s dal \<Rightarrow> (audit_entry \<Rightarrow> row) \<Rightarrow> audit_entry \<Rightarrow> ('s, gerror, unit) step" where
  "db_log_write_tx D to_row e =
     bind_s (tx_insert D audit_doc_type (to_row e)) (\<lambda>_. ret ())"

definition db_audit_log ::
    "'s sql_engine \<Rightarrow> 's dal \<Rightarrow> (nat \<Rightarrow> string) \<Rightarrow> (audit_entry \<Rightarrow> row) \<Rightarrow> 's audit_log" where
  "db_audit_log E D ph to_row =
     \<lparr>al_write = (\<lambda>e. db_log_write E ph (to_row e)), al_write_tx = Some (db_log_write_tx D to_row)\<rparr>"

text \<open>The in-memory log lives beside the database: \<open>upd\<close> changes its part of the state.\<close>

definition mem_audit_log ::
    "((audit_entry list \<Rightarrow> audit_entry list) \<Rightarrow> 's \<Rightarrow> 's) \<Rightarrow> string \<Rightarrow> int \<Rightarrow> 's audit_log" where
  "mem_audit_log upd fresh now =
     \<lparr>al_write = (\<lambda>e s. (Inr (), upd (mem_log_write fresh now e) s)), al_write_tx = None\<rparr>"

section \<open>The contract of a transactional log\<close>

text \<open>
  A log whose write stays within the operations of the caller's transaction is undone with it.
\<close>

locale transactional_log =
  fixes D :: "'s dal" and log_write :: "audit_entry \<Rightarrow> ('s, gerror, unit) step"
  assumes write_in_reach: "preserves (tx_reach D) (log_write e)"
begin

lemma audited_reach:
  assumes "preserves (tx_reach D) m"
  shows "preserves (tx_reach D) (bind_s m (\<lambda>a. bind_s (log_write (e a)) (\<lambda>_. ret (g a))))"
  by (intro preserves_bind tx_reach_rel assms write_in_reach preserves_ret)

lemma audited_rollback:
  assumes "rollback_law D" and "preserves (tx_reach D) m"
    and "transaction D (bind_s m (\<lambda>a. bind_s (log_write (e a)) (\<lambda>_. ret (g a)))) s = (Inl err, t)"
  shows "t = s"
  using assms(1) audited_reach [OF assms(2)] assms(3) by (rule transaction_error)

text \<open>A committed audited operation wrote its entry after it and before the commit.\<close>

lemma audited_commit:
  assumes "transaction D (bind_s m (\<lambda>a. bind_s (log_write (e a)) (\<lambda>_. ret (g a)))) s = (Inr b, t)"
  shows "\<exists>s1 a s2 s3. dal_begin D s = (Inr (), s1) \<and> m s1 = (Inr a, s2) \<and>
    log_write (e a) s2 = (Inr (), s3) \<and> dal_commit D s3 = (Inr (), t) \<and> b = g a"
  using assms by (auto simp: transaction_Inr bind_s_Inr)

end

interpretation db_log: transactional_log D "db_log_write_tx D to_row" for D :: "'s dal" and to_row
  by unfold_locales
    (auto simp: db_log_write_tx_def intro!: preserves_bind preserves_ret)

section \<open>Facts about diffs and queries\<close>

lemma fmt_v_refl_equal: "values_equal ft v v"
  by (simp add: values_equal_def)

lemma key_in: "(k, v) \<in> set m \<Longrightarrow> k \<in> fst ` set m"
  by force

lemma diff_maps_same: "wf_map m \<Longrightarrow> diff_maps ft m m = []"
  by (auto simp: diff_maps_def filter_empty_conv get_or_nil_in values_equal_def dest: key_in)

lemma diff_maps_fields:
  assumes "wf_map old" and "wf_map new"
  shows "distinct (map fc_field (diff_maps ft old new)) \<and>
    (\<forall>k. k \<in> fc_field ` set (diff_maps ft old new) \<longleftrightarrow>
       (k \<in> set (map_keys new) \<and> \<not> values_equal ft (get_or_nil old k) (get_or_nil new k)) \<or>
       (k \<in> set (map_keys old) \<and> k \<notin> set (map_keys new)))"
proof -
  have sub: "distinct (map_keys (filter P m))" if "wf_map m" for P and m :: row
    using that unfolding wf_map_def by (rule distinct_map_filter)
  have d: "distinct (map fc_field (diff_maps ft old new))"
    using sub [OF assms(1)] sub [OF assms(2)]
    by (auto simp: diff_maps_def o_def case_prod_unfold dest: key_in)
  have g: "get_or_nil new k = v" if "(k, v) \<in> set new" for k v
    using assms(2) that by (simp add: get_or_nil_def wf_map_def)
  have ex: "(k, get_or_nil new k) \<in> set new" if "k \<in> fst ` set new" for k
    using that g by force
  have m: "k \<in> fc_field ` set (diff_maps ft old new) \<longleftrightarrow>
       (k \<in> set (map_keys new) \<and> \<not> values_equal ft (get_or_nil old k) (get_or_nil new k)) \<or>
       (k \<in> set (map_keys old) \<and> k \<notin> set (map_keys new))" for k
    using g ex by (auto simp: diff_maps_def image_Un image_image case_prod_unfold image_iff)
      (metis fst_conv snd_conv)+
  from d m show ?thesis by blast
qed

lemma diff_maps_values:
  assumes "wf_map old" and "wf_map new" and "c \<in> set (diff_maps ft old new)"
  shows "fc_old c = get_or_nil old (fc_field c) \<and> fc_new c = get_or_nil new (fc_field c)"
  using assms by (auto simp: diff_maps_def get_or_nil_in get_or_nil_notin)

lemma mem_log_scan_take:
  "0 < qf_limit f \<Longrightarrow> int (length out) < qf_limit f \<Longrightarrow>
     mem_log_scan f out es = out @ take (nat (qf_limit f) - length out) (filter (entry_matches f) es)"
proof (induction f out es rule: mem_log_scan.induct)
  case (2 f out e es)
  show ?case
  proof (cases "entry_matches f e")
    case True
    show ?thesis
    proof (cases "qf_limit f \<le> int (length (out @ [e]))")
      case full: True
      with 2(3,4) have "nat (qf_limit f) - length out = 1" by simp
      with True full 2(3) show ?thesis by simp
    next
      case False
      with 2(1) [OF True refl] 2(3)
      have "mem_log_scan f (out @ [e]) es =
          out @ [e] @ take (nat (qf_limit f) - Suc (length out)) (filter (entry_matches f) es)"
        by simp
      moreover have "nat (qf_limit f) - length out = Suc (nat (qf_limit f) - Suc (length out))"
        using False 2(4) by simp
      ultimately show ?thesis using True False by (simp add: Let_def)
    qed
  next
    case False
    with 2 show ?thesis by simp
  qed
qed simp

lemma mem_log_scan_all: "\<not> 0 < qf_limit f \<Longrightarrow> mem_log_scan f out es = out @ filter (entry_matches f) es"
  by (induction f out es rule: mem_log_scan.induct) (auto simp: Let_def)

lemma mem_log_query_eq:
  "mem_log_query f es =
     (let hits = filter (entry_matches f) es
      in if 0 < qf_limit f then take (nat (qf_limit f)) hits else hits)"
  by (simp add: mem_log_query_def mem_log_scan_take mem_log_scan_all Let_def)

section \<open>Properties\<close>

text \<open>A diff names each column at most once; it names exactly the columns whose rendered value
  changed and those the new row no longer has, with their old and new values.\<close>

theorem diff_exact:
  assumes "wf_map old" and "wf_map new"
  shows "distinct (map fc_field (diff_maps ft old new)) \<and>
    (\<forall>k. k \<in> fc_field ` set (diff_maps ft old new) \<longleftrightarrow>
       (k \<in> set (map_keys new) \<and> \<not> values_equal ft (get_or_nil old k) (get_or_nil new k)) \<or>
       (k \<in> set (map_keys old) \<and> k \<notin> set (map_keys new))) \<and>
    (\<forall>c \<in> set (diff_maps ft old new).
       fc_old c = get_or_nil old (fc_field c) \<and> fc_new c = get_or_nil new (fc_field c))"
  using diff_maps_fields [OF assms] diff_maps_values [OF assms] by blast

theorem diff_exact_witness:
  "fc_field ` set (diff_maps itoa [(''a'', VInt 1), (''b'', VInt 2), (''c'', VNil)] [(''a'', VInt 1), (''b'', VInt 3)])
     = {''b'', ''c''}"
proof -
  have wf: "wf_map [(''a'', VInt 1), (''b'', VInt 2), (''c'', VNil)]" "wf_map [(''a'', VInt 1), (''b'', VInt 3)]"
    by (simp_all add: wf_map_def)
  have e: "values_equal itoa (get_or_nil [(''a'', VInt 1), (''b'', VInt 2), (''c'', VNil)] ''a'')
      (get_or_nil [(''a'', VInt 1), (''b'', VInt 3)] ''a'')"
    "\<not> values_equal itoa (get_or_nil [(''a'', VInt 1), (''b'', VInt 2), (''c'', VNil)] ''b'')
      (get_or_nil [(''a'', VInt 1), (''b'', VInt 3)] ''b'')"
    by code_simp+
  have "k \<in> fc_field ` set (diff_maps itoa [(''a'', VInt 1), (''b'', VInt 2), (''c'', VNil)] [(''a'', VInt 1), (''b'', VInt 3)])
      \<longleftrightarrow> k = ''b'' \<or> k = ''c''" for k
    using diff_exact [OF wf, of itoa] e by auto
  then show ?thesis by blast
qed

text \<open>The in-memory log answers a query with the entries that match every set filter, oldest first,
  cut at the limit when there is one; and writing appends, so earlier answers are kept.\<close>

theorem mem_log_answers:
  "mem_log_query f es =
     (let hits = filter (entry_matches f) es
      in if 0 < qf_limit f then take (nat (qf_limit f)) hits else hits) \<and>
   (\<exists>new. mem_log_write fresh now e es = es @ [new] \<and> ae_changes new = ae_changes e \<and>
      ae_user_id new = ae_user_id e \<and> (ae_id e \<noteq> [] \<longrightarrow> ae_id new = ae_id e))"
  by (simp add: mem_log_query_eq mem_log_write_def entry_id_def)

theorem mem_log_answers_witness:
  "ae_id (hd (mem_log_write ''f'' 3 (build_entry ''a1'' 2 background_ctx ''create'' ''Task'' ''t1'' []) [])) = ''a1''"
  using mem_log_answers [of undefined "[]" "''f''" 3 "build_entry ''a1'' 2 background_ctx ''create'' ''Task'' ''t1'' []"]
  by (auto simp: build_entry_def)

end
