(* ===== verification/Perm.thy ===== *)
theory Perm
  imports Database EventBus
begin

text \<open>
  The permission engine (\<open>perm/engine.go\<close>): role checks against compiled permissions and database
  grants, custom rules, the role gate of synthetic DocTypes, and the field-level filters.
\<close>

record perm_check =
  ck_doc_type :: string
  ck_action :: string
  ck_doc_id :: string
  ck_data :: row

text \<open>A custom rule is application code: a function of the context and the check.\<close>

type_synonym perm_rule = "ctx \<Rightarrow> perm_check \<Rightarrow> gerror option"

record 's perm_conf =
  pf_reg :: registry
  pf_db :: "'s dal option"
  pf_rules :: "perm_rule list"

definition new_perm :: "registry \<Rightarrow> 's perm_conf" where
  "new_perm reg = \<lparr>pf_reg = reg, pf_db = None, pf_rules = []\<rparr>"

definition perm_set_database :: "'s dal \<Rightarrow> 's perm_conf \<Rightarrow> 's perm_conf" where
  "perm_set_database D p = p\<lparr>pf_db := Some D\<rparr>"

definition perm_register_rule :: "perm_rule \<Rightarrow> 's perm_conf \<Rightarrow> 's perm_conf" where
  "perm_register_rule r p = p\<lparr>pf_rules := pf_rules p @ [r]\<rparr>"

section \<open>Roles\<close>

definition has_role :: "identity \<Rightarrow> string \<Rightarrow> bool" where
  "has_role i role = list_ex (\<lambda>r. equal_fold r role) (i_roles i)"

definition sysadmin :: string where "sysadmin = ''System Administrator''"

fun permission_grants :: "string \<Rightarrow> doc_permission \<Rightarrow> bool" where
  "permission_grants action p =
     (let a = to_lower action in
      if a = ''read'' then p_read p
      else if a = ''write'' \<or> a = ''update'' then p_write p
      else if a = ''create'' then p_create p
      else if a = ''delete'' then p_delete p
      else if a = ''submit'' then p_submit p
      else False)"

declare permission_grants.simps [simp del]

definition rbac_check :: "identity \<Rightarrow> compiled_doc \<Rightarrow> string \<Rightarrow> bool" where
  "rbac_check i d action =
     list_ex (\<lambda>p. has_role i (p_role p) \<and> permission_grants action p) (d_permissions d)"

text \<open>Grants stored as \<open>RolePermission\<close> rows; only a stored \<open>bool\<close> counts as a flag.\<close>

definition action_field :: "string \<Rightarrow> string" where
  "action_field action = (let a = to_lower action in if a = ''update'' then ''write'' else a)"

definition row_grants :: "identity \<Rightarrow> string \<Rightarrow> row \<Rightarrow> bool" where
  "row_grants i fld r \<longleftrightarrow> has_role i (str_of (map_of r ''role'')) \<and> map_of r fld = Some (VBool True)"

definition check_db_permissions ::
    "'s dal option \<Rightarrow> identity \<Rightarrow> string \<Rightarrow> string \<Rightarrow> ('s, gerror, bool) step" where
  "check_db_permissions db i dt action =
     (case db of
        None \<Rightarrow> ret False
      | Some D \<Rightarrow>
          if i_roles i = [] then ret False
          else bind_s (dal_query D (zero_select\<lparr>s_doc_type := ''RolePermission'',
                                      s_filters := [(''doc_type'', VStr dt)]\<rparr>))
                 (\<lambda>rows. ret (list_ex (row_grants i (action_field action)) rows)))"

section \<open>Actions\<close>

fun run_rules :: "perm_rule list \<Rightarrow> ctx \<Rightarrow> perm_check \<Rightarrow> gerror + unit" where
  "run_rules [] cx c = Inr ()"
| "run_rules (r # rs) cx c = (case r cx c of Some e \<Rightarrow> Inl e | None \<Rightarrow> run_rules rs cx c)"

definition action_denied :: "string \<Rightarrow> string \<Rightarrow> gerror" where
  "action_denied dt action = permission_err (''permission denied: action '' @ action @ '' on '' @ dt)"

definition check_action :: "'s perm_conf \<Rightarrow> ctx \<Rightarrow> string \<Rightarrow> string \<Rightarrow> ('s, gerror, unit) step" where
  "check_action p cx dt action = (\<lambda>s.
     let i = auth_from_context cx in
     case registry_get (pf_reg p) dt of
       Inl _ \<Rightarrow> (Inl (permission_err (''unknown document type: '' @ dt)), s)
     | Inr d \<Rightarrow>
         (let allowed = (has_role i sysadmin \<or> (d_permissions d \<noteq> [] \<and> rbac_check i d action));
              (allowed, s) =
                (if allowed then (True, s)
                 else case check_db_permissions (pf_db p) i dt action s of
                        (Inr True, s') \<Rightarrow> (True, s')
                      | (_, s') \<Rightarrow> (False, s'))
          in if \<not> allowed \<and> (d_permissions d \<noteq> [] \<or> pf_db p \<noteq> None)
             then (Inl (action_denied dt action), s)
             else (run_rules (pf_rules p) cx
                     \<lparr>ck_doc_type = dt, ck_action = action, ck_doc_id = [], ck_data = []\<rparr>, s)))"

definition roles_denied :: "string \<Rightarrow> string \<Rightarrow> gerror" where
  "roles_denied dt action =
     permission_err (''permission denied: required role for '' @ action @ '' on '' @ dt @ '' not held'')"

definition check_roles :: "ctx \<Rightarrow> string \<Rightarrow> string \<Rightarrow> string list \<Rightarrow> gerror + unit" where
  "check_roles cx dt action roles =
     (let i = auth_from_context cx in
      if roles = [] \<or> has_role i sysadmin then Inr ()
      else if list_ex (\<lambda>allowed. allowed = ''*'' \<or> has_role i allowed) roles then Inr ()
      else Inl (roles_denied dt action))"

section \<open>Fields\<close>

definition field_locked :: "identity \<Rightarrow> field \<Rightarrow> bool" where
  "field_locked i f \<longleftrightarrow> f_permission_role f \<noteq> [] \<and> \<not> has_role i (f_permission_role f)"

definition unknown_type :: "string \<Rightarrow> gerror" where
  "unknown_type dt = not_found_err (''unknown document type: '' @ dt)"

definition filter_read :: "registry \<Rightarrow> ctx \<Rightarrow> string \<Rightarrow> row \<Rightarrow> gerror + row" where
  "filter_read reg cx dt data =
     (case registry_get reg dt of
        Inl _ \<Rightarrow> Inl (unknown_type dt)
      | Inr d \<Rightarrow>
          Inr (fold (\<lambda>f out. if field_locked (auth_from_context cx) f
                             then AList.delete (f_db_column f) (AList.delete (f_name f) out) else out)
                 (d_fields d) data))"

definition field_denied :: "field \<Rightarrow> gerror" where
  "field_denied f = permission_err (''field '' @ f_name f @ '' requires role '' @ f_permission_role f)"

definition filter_write :: "registry \<Rightarrow> ctx \<Rightarrow> string \<Rightarrow> row \<Rightarrow> gerror + row" where
  "filter_write reg cx dt data =
     (case registry_get reg dt of
        Inl _ \<Rightarrow> Inl (unknown_type dt)
      | Inr d \<Rightarrow>
          (case find (\<lambda>f. field_locked (auth_from_context cx) f \<and>
                          (map_of data (f_name f) \<noteq> None \<or> map_of data (f_db_column f) \<noteq> None))
                 (d_fields d) of
             Some f \<Rightarrow> Inl (field_denied f)
           | None \<Rightarrow> Inr data))"

definition allowed_fields :: "registry \<Rightarrow> ctx \<Rightarrow> string \<Rightarrow> gerror + string list" where
  "allowed_fields reg cx dt =
     (case registry_get reg dt of
        Inl _ \<Rightarrow> Inl (unknown_type dt)
      | Inr d \<Rightarrow> Inr (map f_name (filter (\<lambda>f. \<not> field_locked (auth_from_context cx) f) (d_fields d))))"

section \<open>The engine as its clients see it\<close>

record 's perm_engine =
  pe_check_action :: "ctx \<Rightarrow> string \<Rightarrow> string \<Rightarrow> ('s, gerror, unit) step"
  pe_check_roles :: "ctx \<Rightarrow> string \<Rightarrow> string \<Rightarrow> string list \<Rightarrow> gerror + unit"
  pe_filter_read :: "ctx \<Rightarrow> string \<Rightarrow> row \<Rightarrow> gerror + row"
  pe_filter_write :: "ctx \<Rightarrow> string \<Rightarrow> row \<Rightarrow> gerror + row"
  pe_allowed_fields :: "ctx \<Rightarrow> string \<Rightarrow> gerror + string list"

definition perm_engine :: "'s perm_conf \<Rightarrow> 's perm_engine" where
  "perm_engine p =
     \<lparr>pe_check_action = check_action p, pe_check_roles = check_roles,
      pe_filter_read = filter_read (pf_reg p), pe_filter_write = filter_write (pf_reg p),
      pe_allowed_fields = allowed_fields (pf_reg p)\<rparr>"

section \<open>Facts\<close>

lemma has_role_fold: "equal_fold r r' \<Longrightarrow> has_role i r = has_role i r'"
  unfolding has_role_def by (simp add: equal_fold_def)

lemma has_role_mono: "set (i_roles i) \<subseteq> set (i_roles j) \<Longrightarrow> has_role i r \<Longrightarrow> has_role j r"
  by (auto simp: has_role_def list_ex_iff)

lemma check_db_reach:
  "preserves (read_reach D) (check_db_permissions (Some D) i dt action)"
  by (auto simp: check_db_permissions_def intro!: preserves_bind preserves_ret)

lemma check_db_none: "snd (check_db_permissions None i dt action s) = s"
  by (simp add: check_db_permissions_def)

text \<open>What the database contributes to a decision.\<close>

definition db_grants :: "'s dal option \<Rightarrow> identity \<Rightarrow> string \<Rightarrow> string \<Rightarrow> 's \<Rightarrow> bool" where
  "db_grants db i dt action s = (fst (check_db_permissions db i dt action s) = Inr True)"

text \<open>The decision in one formula.\<close>

definition action_allowed :: "'s perm_conf \<Rightarrow> identity \<Rightarrow> compiled_doc \<Rightarrow> string \<Rightarrow> 's \<Rightarrow> bool" where
  "action_allowed p i d action s \<longleftrightarrow>
     has_role i sysadmin \<or> rbac_check i d action \<or> db_grants (pf_db p) i (d_name d) action s \<or>
     (d_permissions d = [] \<and> pf_db p = None)"

lemma check_action_decision:
  assumes "registry_get (pf_reg p) dt = Inr d" and "d_name d = dt"
  shows "fst (check_action p cx dt action s) =
    (if action_allowed p (auth_from_context cx) d action s
     then run_rules (pf_rules p) cx \<lparr>ck_doc_type = dt, ck_action = action, ck_doc_id = [], ck_data = []\<rparr>
     else Inl (action_denied dt action))"
proof -
  have r: "rbac_check i d action \<Longrightarrow> d_permissions d \<noteq> []" for i
    by (auto simp: rbac_check_def)
  show ?thesis
    using assms r [of "auth_from_context cx"]
    by (auto simp: check_action_def action_allowed_def db_grants_def Let_def
        split: prod.splits sum.splits bool.splits)
qed

lemma check_action_reach:
  assumes "pf_db p = Some D"
  shows "preserves (read_reach D) (check_action p cx dt action)"
proof -
  have *: "read_reach D s (snd (check_db_permissions (Some D) (auth_from_context cx) dt action s))" for s
    using check_db_reach [of D] by (simp add: preserves_def)
  show ?thesis
    unfolding preserves_def
  proof
    fix s
    show "read_reach D s (snd (check_action p cx dt action s))"
      using * [of s] assms
      by (auto simp: check_action_def Let_def read_refl split: sum.splits prod.splits bool.splits)
  qed
qed

lemma fold_delete_map_of:
  "map_of (fold (\<lambda>f out. if L f then AList.delete (c f) (AList.delete (n f) out) else out) fs m) k =
     (if \<exists>f \<in> set fs. L f \<and> (k = c f \<or> k = n f) then None else map_of m k)"
proof (induction fs arbitrary: m)
  case Nil
  then show ?case by simp
next
  case (Cons f fs)
  show ?case by (auto simp: Cons.IH map_of_delete)
qed

definition key_locked :: "registry \<Rightarrow> ctx \<Rightarrow> string \<Rightarrow> string \<Rightarrow> bool" where
  "key_locked reg cx dt k =
     (case registry_get reg dt of
        Inl _ \<Rightarrow> False
      | Inr d \<Rightarrow> list_ex (\<lambda>f. field_locked (auth_from_context cx) f \<and> (k = f_db_column f \<or> k = f_name f))
                 (d_fields d))"

lemma filter_read_lookup:
  "filter_read reg cx dt m = Inr m' \<Longrightarrow>
     map_of m' k = (if key_locked reg cx dt k then None else map_of m k)"
  by (auto simp: filter_read_def key_locked_def fold_delete_map_of list_ex_iff split: sum.splits)

lemma filter_write_lookup:
  "filter_write reg cx dt m = Inr m' \<Longrightarrow> m' = m \<and> (\<forall>k. key_locked reg cx dt k \<longrightarrow> map_of m k = None)"
  by (auto simp: filter_write_def key_locked_def find_None_iff list_ex_iff split: sum.splits option.splits)

lemma filter_write_denied:
  assumes "filter_write reg cx dt m = Inl e"
  shows "err_code e = Some CodeNotFound \<and> (\<exists>e'. registry_get reg dt = Inl e') \<or>
    err_code e = Some CodePermission \<and> (\<exists>k. key_locked reg cx dt k \<and> map_of m k \<noteq> None)"
  using assms
  by (auto simp: filter_write_def unknown_type_def field_denied_def key_locked_def list_ex_iff
      find_Some_iff split: sum.splits option.splits) (metis nth_mem)+

section \<open>The contract of a field gate\<close>

text \<open>
  What the document engine and the tool registry rely on: reading removes exactly the locked keys,
  writing lets data through unchanged or refuses it, and it refuses exactly locked keys.
\<close>

locale field_gate =
  fixes gate_read :: "row \<Rightarrow> gerror + row" and gate_write :: "row \<Rightarrow> gerror + row"
    and locked :: "string \<Rightarrow> bool"
  assumes read_lookup: "gate_read m = Inr m' \<Longrightarrow> map_of m' k = (if locked k then None else map_of m k)"
    and write_ok: "gate_write m = Inr m' \<Longrightarrow> m' = m \<and> (\<forall>k. locked k \<longrightarrow> map_of m k = None)"
    and write_refused:
      "gate_write m = Inl e \<Longrightarrow> err_code e = Some CodePermission \<Longrightarrow> \<exists>k. locked k \<and> map_of m k \<noteq> None"
begin

lemma read_idempotent:
  "gate_read m = Inr m' \<Longrightarrow> gate_read m' = Inr m'' \<Longrightarrow> map_of m'' = map_of m'"
  by (rule ext) (simp add: read_lookup)

lemma written_readable:
  assumes "gate_write m = Inr m'" and "gate_read m' = Inr m''"
  shows "map_of m'' = map_of m"
proof
  fix k
  from assms(1) have "m' = m" "locked k \<Longrightarrow> map_of m k = None" using write_ok by blast+
  with assms(2) show "map_of m'' k = map_of m k" by (simp add: read_lookup)
qed

lemma read_writable: "gate_read m = Inr m' \<Longrightarrow> gate_write m' = Inl e \<Longrightarrow> err_code e \<noteq> Some CodePermission"
  using write_refused read_lookup by fastforce

end

interpretation perm_gate: field_gate "filter_read reg cx dt" "filter_write reg cx dt" "key_locked reg cx dt"
  for reg cx dt
  by unfold_locales
    (blast intro: filter_read_lookup filter_write_lookup dest: filter_write_lookup filter_write_denied |
     use filter_write_denied in fastforce)+

section \<open>Properties\<close>


definition gate_doc :: compiled_doc where
  "gate_doc = zero_doc\<lparr>d_name := ''Task'',
     d_fields := [zero_field\<lparr>f_name := ''Cost'', f_db_column := ''cost'', f_permission_role := ''HR''\<rparr>],
     d_permissions := [\<lparr>p_role = ''User'', p_read = True, p_write = False, p_create = False,
                        p_delete = False, p_submit = False, p_match = OwnerMatch\<rparr>]\<rparr>"

definition gate_reg :: registry where
  "gate_reg = new_registry\<lparr>rg_docs := [(''Task'', gate_doc)]\<rparr>"

definition gate_user :: ctx where
  "gate_user = auth_new_context background_ctx (zero_identity\<lparr>i_roles := [''user'']\<rparr>)"


text \<open>A permission check with a database attached only reads it, whatever it decides.\<close>

theorem permission_check_reads_only:
  "read_reach D s (snd (check_action (perm_set_database D p) cx dt action s))"
  using check_action_reach [of "perm_set_database D p" D cx dt action]
  by (simp add: perm_set_database_def preserves_def)

text \<open>The field gates agree: reading removes exactly the keys of locked fields, by Go name and by
  column, data that the write gate lets through is unchanged and survives the read gate unchanged, and
  the write gate refuses only data that has a locked key.\<close>

theorem field_gates_agree:
  "(\<forall>m'. filter_read reg cx dt m = Inr m' \<longrightarrow>
      (\<forall>k. map_of m' k = (if key_locked reg cx dt k then None else map_of m k))) \<and>
   (\<forall>m'. filter_write reg cx dt m = Inr m' \<longrightarrow>
      m' = m \<and> (\<forall>m''. filter_read reg cx dt m' = Inr m'' \<longrightarrow> map_of m'' = map_of m)) \<and>
   (\<forall>e. filter_write reg cx dt m = Inl e \<longrightarrow> err_code e = Some CodePermission \<longrightarrow>
      (\<exists>k. key_locked reg cx dt k \<and> map_of m k \<noteq> None))"
proof (intro conjI allI impI)
  show "map_of m' k = (if key_locked reg cx dt k then None else map_of m k)"
    if "filter_read reg cx dt m = Inr m'" for m' k
    using that by (rule perm_gate.read_lookup)
  show "m' = m" if "filter_write reg cx dt m = Inr m'" for m'
    using perm_gate.write_ok [OF that] by blast
  show "map_of m'' = map_of m"
    if "filter_write reg cx dt m = Inr m'" "filter_read reg cx dt m' = Inr m''" for m' m''
    using that by (rule perm_gate.written_readable)
  show "\<exists>k. key_locked reg cx dt k \<and> map_of m k \<noteq> None"
    if "filter_write reg cx dt m = Inl e" "err_code e = Some CodePermission" for e
    using that by (rule perm_gate.write_refused)
qed

theorem field_gates_agree_witness:
  "filter_read gate_reg gate_user ''Task'' [(''Cost'', VInt 1), (''x'', VInt 2)] = Inr [(''x'', VInt 2)] \<and>
   (\<exists>k. key_locked gate_reg gate_user ''Task'' k \<and> map_of [(''cost'', VInt 1)] k \<noteq> None)"
proof -
  have r: "filter_read gate_reg gate_user ''Task'' [(''Cost'', VInt 1), (''x'', VInt 2)] = Inr [(''x'', VInt 2)]"
    by code_simp
  have w: "filter_write gate_reg gate_user ''Task'' [(''cost'', VInt 1)] = Inl (field_denied (hd (d_fields gate_doc)))"
    by code_simp
  have "err_code (field_denied (hd (d_fields gate_doc))) = Some CodePermission"
    by (simp add: field_denied_def)
  with w field_gates_agree [of gate_reg gate_user "''Task''" "[(''cost'', VInt 1)]"] r show ?thesis by blast
qed

text \<open>The role gate of methods and workflow transitions lets a caller through exactly when no role is
  required, \<open>*\<close> is listed, the caller is a system administrator or holds a listed role in any case.\<close>

theorem roles_gate:
  "check_roles cx dt action roles =
     (if roles = [] \<or> ''*'' \<in> set roles \<or> has_role (auth_from_context cx) sysadmin \<or>
         (\<exists>r \<in> set roles. \<exists>u \<in> set (i_roles (auth_from_context cx)). equal_fold u r)
      then Inr () else Inl (roles_denied dt action))"
  by (auto simp: check_roles_def has_role_def list_ex_iff Let_def)

end
