(* ===== verification/Document.thy ===== *)
theory Document
  imports AuditLog Perm
begin

text \<open>
  The document engine (\<open>document/engine.go\<close>): create, read, update, delete and list with permission
  checks, hooks, validation, uniqueness, the transaction around each write and its audit entry.
\<close>

section \<open>The engine\<close>

text \<open>
  Validators registered by name are application code; \<open>en_mail\<close> stands for the success of
  \<open>net/mail.ParseAddress\<close> and \<open>en_fmt\<close> for the \<open>%v\<close> rendering of a time.
\<close>

type_synonym field_validator = "ctx \<Rightarrow> field \<Rightarrow> val \<Rightarrow> gerror option"

record 's engine =
  en_db :: "'s dal"
  en_reg :: registry
  en_perm :: "'s perm_engine option"
  en_bus :: "bus option"
  en_audit :: "'s audit_log option"
  en_validators :: "field_validator validator_registry"
  en_mail :: "string \<Rightarrow> bool"
  en_fmt :: "int \<Rightarrow> string"

text \<open>What an operation draws from the clock and the ULID generator.\<close>

record op_env =
  oe_now :: int
  oe_id :: string
  oe_audit_id :: string
  oe_audit_now :: int

section \<open>Values and names\<close>

definition field_value :: "row \<Rightarrow> field \<Rightarrow> val option" where
  "field_value data f =
     (case map_of data (f_name f) of Some v \<Rightarrow> Some v | None \<Rightarrow> map_of data (f_db_column f))"

definition go_to_col :: "compiled_doc \<Rightarrow> (string \<times> string) list" where
  "go_to_col d = fold (\<lambda>f m. AList.update (f_name f) (f_db_column f) m) (d_fields d) []"

definition column_key :: "compiled_doc \<Rightarrow> string \<Rightarrow> string" where
  "column_key d k = (case map_of (go_to_col d) k of Some c \<Rightarrow> c | None \<Rightarrow> k)"

definition normalize_to_columns :: "compiled_doc \<Rightarrow> row \<Rightarrow> row" where
  "normalize_to_columns d data = fold (\<lambda>(k, v) out. AList.update (column_key d k) v out) data []"

definition is_zero_val :: "val \<Rightarrow> bool" where
  "is_zero_val v =
     (case v of VNil \<Rightarrow> True | VStr s \<Rightarrow> s = [] | VInt i \<Rightarrow> i = 0 | VInt64 i \<Rightarrow> i = 0
      | VFloat m e \<Rightarrow> m = 0 | VBool b \<Rightarrow> \<not> b | VTime t \<Rightarrow> t = 0 | _ \<Rightarrow> False)"

definition is_system_field :: "string \<Rightarrow> bool" where
  "is_system_field c \<longleftrightarrow>
     c \<in> {''id'', ''created_at'', ''updated_at'', ''deleted'', ''doc_status'', ''owner'', ''name'', ''modified_by''}"

section \<open>Format validators\<close>

definition re_space :: "char \<Rightarrow> bool" where
  "re_space c = (let n = (of_char c :: nat) in n = 9 \<or> n = 10 \<or> n = 12 \<or> n = 13 \<or> n = 32)"

text \<open>\<open>^[^\s@]+@[^\s@]+\.[^\s@]+$\<close>\<close>

definition email_regex :: "string \<Rightarrow> bool" where
  "email_regex s \<longleftrightarrow>
     \<not> list_ex re_space s \<and>
     (case split_on (CHR ''@'') s of
        [a, d] \<Rightarrow> a \<noteq> [] \<and> list_ex (\<lambda>i. d ! i = CHR ''.'') [1..<length d - 1]
      | _ \<Rightarrow> False)"

text \<open>\<open>^https?://\<close>\<close>

definition url_regex :: "string \<Rightarrow> bool" where
  "url_regex s \<longleftrightarrow> has_prefix s ''http://'' \<or> has_prefix s ''https://''"

text \<open>\<open>^\+?[\d\s\-().]{7,}$\<close>\<close>

definition phone_char :: "char \<Rightarrow> bool" where
  "phone_char c \<longleftrightarrow> is_digit c \<or> re_space c \<or> c = CHR ''-'' \<or> c = CHR ''('' \<or> c = CHR '')'' \<or> c = CHR ''.''"

definition phone_regex :: "string \<Rightarrow> bool" where
  "phone_regex s =
     (let body = (if s \<noteq> [] \<and> hd s = CHR ''+'' then tl s else s)
      in 7 \<le> length body \<and> list_all phone_char body)"

definition format_error :: "(string \<Rightarrow> bool) \<Rightarrow> string \<Rightarrow> val \<Rightarrow> string option" where
  "format_error mail fmt v =
     (case v of
        VStr s \<Rightarrow>
          if fmt = ''email''
          then (if mail s \<or> email_regex s then None else Some ''invalid email format'')
          else if fmt = ''url'' then (if url_regex s then None else Some ''invalid URL format'')
          else if fmt = ''phone'' then (if phone_regex s then None else Some ''invalid phone format'')
          else None
      | _ \<Rightarrow> None)"

definition options_error :: "(int \<Rightarrow> string) \<Rightarrow> string list \<Rightarrow> val \<Rightarrow> string option" where
  "options_error ft opts v =
     (let s = fmt_v ft v in
      if list_ex (\<lambda>o1. equal_fold o1 s) opts then None
      else Some (''value '' @ go_quote s @ '' is not one of the allowed options: '' @ join_with '', '' opts))"

section \<open>Field validation\<close>

definition put_detail :: "field \<Rightarrow> string option \<Rightarrow> row \<Rightarrow> row" where
  "put_detail f msg ds = (case msg of None \<Rightarrow> ds | Some m \<Rightarrow> AList.update (f_name f) (VStr m) ds)"

definition validator_error :: "'s engine \<Rightarrow> ctx \<Rightarrow> field \<Rightarrow> val \<Rightarrow> string option" where
  "validator_error en cx f v =
     (if f_validator_name f = [] then None
      else case lookup_validator (en_validators en) (f_validator_name f) of
             None \<Rightarrow> None
           | Some w \<Rightarrow> map_option error_text (w cx f v))"

definition validate_field :: "'s engine \<Rightarrow> ctx \<Rightarrow> bool \<Rightarrow> row \<Rightarrow> field \<Rightarrow> row \<Rightarrow> row" where
  "validate_field en cx is_update data f ds =
     (if is_system_field (f_db_column f) \<or> f_type f = FTChildTable then ds
      else let fv = field_value data f;
               blank = (case fv of None \<Rightarrow> True | Some v \<Rightarrow> is_zero_val v);
               v = (case fv of None \<Rightarrow> VNil | Some v \<Rightarrow> v);
               ds = (if \<not> is_update \<and> f_required f \<and> blank
                     then put_detail f (Some ''field is required'') ds else ds)
           in if blank then ds
              else put_detail f (validator_error en cx f v)
                    (put_detail f (if f_options f = [] then None else options_error (en_fmt en) (f_options f) v)
                      (put_detail f (if f_format f = [] then None else format_error (en_mail en) (f_format f) v)
                        ds)))"

definition validate_fields :: "'s engine \<Rightarrow> ctx \<Rightarrow> compiled_doc \<Rightarrow> row \<Rightarrow> bool \<Rightarrow> gerror + unit" where
  "validate_fields en cx d data is_update =
     (let ds = fold (validate_field en cx is_update data) (d_fields d) []
      in if ds = [] then Inr () else Inl (validation_err ''validation failed'' ds))"

section \<open>Uniqueness\<close>

definition taken :: "string \<Rightarrow> row list \<Rightarrow> bool" where
  "taken current rows = list_ex (\<lambda>r. str_of (map_of r ''id'') \<noteq> current) rows"

fun unique_details ::
    "'s dal \<Rightarrow> compiled_doc \<Rightarrow> string \<Rightarrow> row \<Rightarrow> field list \<Rightarrow> row \<Rightarrow> ('s, gerror, row) step" where
  "unique_details D d current data [] ds = ret ds"
| "unique_details D d current data (f # fs) ds =
     (let fv = field_value data f in
      if \<not> f_unique f \<or> (case fv of None \<Rightarrow> True | Some v \<Rightarrow> is_zero_val v)
      then unique_details D d current data fs ds
      else (\<lambda>s. case dal_query D (zero_select\<lparr>s_doc_type := d_name d, s_table := d_table_name d,
                       s_filters := [(f_db_column f, the fv)]\<rparr>) s of
                  (Inl e, s') \<Rightarrow> (Inl (internal_err ''uniqueness check failed'' (Some e)), s')
                | (Inr rows, s') \<Rightarrow>
                    unique_details D d current data fs
                      (if taken current rows then AList.update (f_name f) (VStr ''value must be unique'') ds
                       else ds) s'))"

definition check_unique :: "'s dal \<Rightarrow> compiled_doc \<Rightarrow> string \<Rightarrow> row \<Rightarrow> ('s, gerror, unit) step" where
  "check_unique D d current data =
     bind_s (unique_details D d current data (d_fields d) []) (\<lambda>ds.
       if ds = [] then ret () else fail (validation_err ''uniqueness violation'' ds))"

section \<open>Row builders\<close>

definition put_missing :: "string \<Rightarrow> val \<Rightarrow> row \<Rightarrow> row" where
  "put_missing k v r = (if map_of r k = None then AList.update k v r else r)"

definition build_insert_row :: "op_env \<Rightarrow> compiled_doc \<Rightarrow> row \<Rightarrow> row" where
  "build_insert_row oe d data =
     (let r = AList.update ''id'' (VStr (insert_id (oe_id oe) data)) data;
          r = put_missing ''created_at'' (VTime (oe_now oe)) r;
          r = AList.update ''updated_at'' (VTime (oe_now oe)) r;
          r = put_missing ''deleted'' (VBool False) r
      in if d_submittable d then put_missing ''doc_status'' (VInt 0) r else r)"

definition build_update_row :: "op_env \<Rightarrow> row \<Rightarrow> row" where
  "build_update_row oe data = AList.update ''updated_at'' (VTime (oe_now oe)) data"

section \<open>Services\<close>

definition emit_doc :: "'s engine \<Rightarrow> ctx \<Rightarrow> string \<Rightarrow> string \<Rightarrow> row \<Rightarrow> ('s, gerror, row) step" where
  "emit_doc en cx dt ev doc =
     (case en_bus en of
        None \<Rightarrow> ret doc
      | Some b \<Rightarrow> (case bus_emit b cx dt ev doc of
                     (doc', None) \<Rightarrow> ret doc'
                   | (doc', Some e) \<Rightarrow> fail e))"

definition require_action :: "'s engine \<Rightarrow> ctx \<Rightarrow> string \<Rightarrow> string \<Rightarrow> ('s, gerror, unit) step" where
  "require_action en cx dt action =
     (case en_perm en of None \<Rightarrow> ret () | Some p \<Rightarrow> pe_check_action p cx dt action)"

definition writable :: "'s engine \<Rightarrow> ctx \<Rightarrow> string \<Rightarrow> row \<Rightarrow> ('s, gerror, row) step" where
  "writable en cx dt data =
     (case en_perm en of None \<Rightarrow> ret data | Some p \<Rightarrow> lift_r (pe_filter_write p cx dt data))"

definition readable :: "'s engine \<Rightarrow> ctx \<Rightarrow> string \<Rightarrow> row \<Rightarrow> gerror + row" where
  "readable en cx dt r = (case en_perm en of None \<Rightarrow> Inr r | Some p \<Rightarrow> pe_filter_read p cx dt r)"

definition write_audit ::
    "'s engine \<Rightarrow> op_env \<Rightarrow> ctx \<Rightarrow> string \<Rightarrow> string \<Rightarrow> string \<Rightarrow> row \<Rightarrow> row \<Rightarrow> ('s, gerror, unit) step" where
  "write_audit en oe cx action dt i old new =
     (case en_audit en of
        None \<Rightarrow> ret ()
      | Some L \<Rightarrow> write_in_tx L (build_entry (oe_audit_id oe) (oe_audit_now oe) cx action dt i
                                  (diff_maps (en_fmt en) old new)))"

definition record_missing :: "string \<Rightarrow> string \<Rightarrow> gerror" where
  "record_missing i dt = not_found_err (''record '' @ go_quote i @ '' not found in '' @ go_quote dt)"

definition fetch_record :: "'s engine \<Rightarrow> compiled_doc \<Rightarrow> string \<Rightarrow> string \<Rightarrow> ('s, gerror, row) step" where
  "fetch_record en d dt i =
     bind_s (dal_query (en_db en) (zero_select\<lparr>s_doc_type := dt, s_table := d_table_name d,
               s_filters := [(''id'', VStr i)]\<rparr>)) (\<lambda>rows.
       case rows of [] \<Rightarrow> fail (record_missing i dt) | r # _ \<Rightarrow> ret r)"

section \<open>Create\<close>

definition create_body ::
    "'s engine \<Rightarrow> op_env \<Rightarrow> ctx \<Rightarrow> compiled_doc \<Rightarrow> string \<Rightarrow> row \<Rightarrow> ('s, gerror, string) step" where
  "create_body en oe cx d dt norm =
     (let r = build_insert_row oe d norm in
      bind_s (tx_insert (en_db en) dt r) (\<lambda>i.
      bind_s (emit_doc en cx dt ev_after_insert r) (\<lambda>r.
      bind_s (emit_doc en cx dt ev_after_save r) (\<lambda>r.
      bind_s (write_audit en oe cx ''create'' dt i [] r) (\<lambda>_.
      ret i)))))"

definition doc_create ::
    "'s engine \<Rightarrow> op_env \<Rightarrow> ctx \<Rightarrow> string \<Rightarrow> row \<Rightarrow> ('s, gerror, string) step" where
  "doc_create en oe cx dt data =
     bind_s (lift_r (registry_get (en_reg en) dt)) (\<lambda>d.
     bind_s (require_action en cx dt ''create'') (\<lambda>_.
     bind_s (writable en cx dt data) (\<lambda>data.
     bind_s (emit_doc en cx dt ev_before_validate data) (\<lambda>data.
     bind_s (lift_r (validate_fields en cx d data False)) (\<lambda>_.
     let norm = normalize_to_columns d data in
     bind_s (check_unique (en_db en) d [] norm) (\<lambda>_.
     bind_s (emit_doc en cx dt ev_after_validate norm) (\<lambda>norm.
     bind_s (emit_doc en cx dt ev_before_insert norm) (\<lambda>norm.
     bind_s (emit_doc en cx dt ev_before_save norm) (\<lambda>norm.
     transaction (en_db en) (create_body en oe cx d dt norm))))))))))"

section \<open>Read\<close>

definition doc_read :: "'s engine \<Rightarrow> ctx \<Rightarrow> string \<Rightarrow> string \<Rightarrow> ('s, gerror, row) step" where
  "doc_read en cx dt i =
     bind_s (lift_r (registry_get (en_reg en) dt)) (\<lambda>d.
     bind_s (require_action en cx dt ''read'') (\<lambda>_.
     bind_s (fetch_record en d dt i) (\<lambda>r.
     lift_r (readable en cx dt r))))"

section \<open>Update\<close>

definition update_body ::
    "'s engine \<Rightarrow> op_env \<Rightarrow> ctx \<Rightarrow> string \<Rightarrow> string \<Rightarrow> row \<Rightarrow> row \<Rightarrow> ('s, gerror, unit) step" where
  "update_body en oe cx dt i old merged =
     (let r = build_update_row oe merged in
      bind_s (tx_update (en_db en) dt i r) (\<lambda>_.
      bind_s (emit_doc en cx dt ev_after_update (overlay old r)) (\<lambda>m.
      bind_s (emit_doc en cx dt ev_after_save m) (\<lambda>m.
      write_audit en oe cx ''update'' dt i old m))))"

definition doc_update ::
    "'s engine \<Rightarrow> op_env \<Rightarrow> ctx \<Rightarrow> string \<Rightarrow> string \<Rightarrow> row \<Rightarrow> ('s, gerror, unit) step" where
  "doc_update en oe cx dt i data =
     bind_s (lift_r (registry_get (en_reg en) dt)) (\<lambda>d.
     bind_s (require_action en cx dt ''write'') (\<lambda>_.
     bind_s (writable en cx dt data) (\<lambda>data.
     bind_s (fetch_record en d dt i) (\<lambda>old.
     bind_s (emit_doc en cx dt ev_before_validate data) (\<lambda>data.
     bind_s (lift_r (validate_fields en cx d data True)) (\<lambda>_.
     let norm = normalize_to_columns d data in
     bind_s (check_unique (en_db en) d i norm) (\<lambda>_.
     bind_s (emit_doc en cx dt ev_after_validate norm) (\<lambda>norm.
     bind_s (emit_doc en cx dt ev_before_update norm) (\<lambda>norm.
     bind_s (emit_doc en cx dt ev_before_save (overlay old norm)) (\<lambda>merged.
     transaction (en_db en) (update_body en oe cx dt i old merged)))))))))))"

section \<open>Delete\<close>

definition delete_row :: "op_env \<Rightarrow> row" where
  "delete_row oe = [(''deleted'', VBool True), (''updated_at'', VTime (oe_now oe))]"

definition delete_body ::
    "'s engine \<Rightarrow> op_env \<Rightarrow> ctx \<Rightarrow> string \<Rightarrow> string \<Rightarrow> row \<Rightarrow> ('s, gerror, unit) step" where
  "delete_body en oe cx dt i old =
     bind_s (tx_update (en_db en) dt i (delete_row oe)) (\<lambda>_.
     bind_s (emit_doc en cx dt ev_after_delete old) (\<lambda>old.
     write_audit en oe cx ''delete'' dt i old [(''deleted'', VBool True)]))"

definition doc_delete :: "'s engine \<Rightarrow> op_env \<Rightarrow> ctx \<Rightarrow> string \<Rightarrow> string \<Rightarrow> ('s, gerror, unit) step" where
  "doc_delete en oe cx dt i =
     bind_s (lift_r (registry_get (en_reg en) dt)) (\<lambda>d.
     bind_s (require_action en cx dt ''delete'') (\<lambda>_.
     bind_s (fetch_record en d dt i) (\<lambda>old.
     bind_s (emit_doc en cx dt ev_before_delete old) (\<lambda>old.
     transaction (en_db en) (delete_body en oe cx dt i old)))))"

section \<open>List\<close>

record list_opts =
  lo_filters :: row
  lo_order_by :: string
  lo_limit :: int
  lo_offset :: int
  lo_include_deleted :: bool

definition validate_order_by :: "compiled_doc \<Rightarrow> string \<Rightarrow> gerror + string" where
  "validate_order_by d ob =
     (case string_fields ob of
        [] \<Rightarrow> Inr []
      | col # ps \<Rightarrow>
          if 1 < length ps
          then Inl (validation_err (''invalid order_by '' @ go_quote ob @ '': expected '' @
                 go_quote ''<field> [ASC|DESC]'') [])
          else
            (case (if ps = [] then Inr []
                   else let d = to_upper (hd ps)
                        in if d \<noteq> ''ASC'' \<and> d \<noteq> ''DESC''
                           then Inl (validation_err (''invalid order_by direction '' @ go_quote (hd ps) @
                                  '': must be ASC or DESC'') [])
                           else Inr (CHR '' '' # d)) of
               Inl e \<Rightarrow> Inl e
             | Inr dir \<Rightarrow>
                 (case find (\<lambda>f. f_name f = col \<or> f_db_column f = col) (d_fields d) of
                    None \<Rightarrow> Inl (validation_err (''unknown order_by field '' @ go_quote col) [])
                  | Some f \<Rightarrow>
                      if f_hidden f \<and> \<not> f_system f
                      then Inl (validation_err (''order_by field '' @ go_quote col @ '' is hidden'') [])
                      else Inr (f_db_column f @ dir))))"

definition default_order :: "compiled_doc \<Rightarrow> string \<Rightarrow> string" where
  "default_order d ob =
     (if ob = [] \<and> d_sort_field d \<noteq> []
      then d_sort_field d @ (if d_sort_order d = Descending then '' DESC'' else []) else ob)"

definition doc_list :: "'s engine \<Rightarrow> ctx \<Rightarrow> string \<Rightarrow> list_opts \<Rightarrow> ('s, gerror, row list) step" where
  "doc_list en cx dt lo =
     bind_s (lift_r (registry_get (en_reg en) dt)) (\<lambda>d.
     bind_s (require_action en cx dt ''read'') (\<lambda>_.
     let ob = default_order d (lo_order_by lo) in
     bind_s (if ob = [] then ret [] else lift_r (validate_order_by d ob)) (\<lambda>ob.
     bind_s (dal_query (en_db en)
               \<lparr>s_doc_type = dt, s_table = d_table_name d, s_fields = [], s_filters = lo_filters lo,
                s_ids = [], s_order_by = ob, s_limit = lo_limit lo, s_offset = lo_offset lo,
                s_include_deleted = lo_include_deleted lo\<rparr>) (\<lambda>rows.
     lift_r (map_r (readable en cx dt) rows)))))"

section \<open>What a failed operation leaves behind\<close>

lemma emit_doc_reach: "reflp R \<Longrightarrow> preserves R (emit_doc en cx dt ev doc)"
  by (auto simp: emit_doc_def preserves_ret preserves_fail split: option.splits prod.splits)

lemma unique_details_reach: "preserves (read_reach D) (unique_details D d current data fs ds)"
proof (induction fs arbitrary: ds)
  case Nil
  then show ?case by (simp add: preserves_def read_refl)
next
  case (Cons f fs)
  have step: "preserves (read_reach D)
      (\<lambda>s. case dal_query D q s of
             (Inl e, s') \<Rightarrow> (Inl (E e), s')
           | (Inr rows, s') \<Rightarrow> unique_details D d current data fs (g rows) s')" for q and E :: "gerror \<Rightarrow> gerror" and g
    unfolding preserves_def
  proof
    fix s
    have q: "read_reach D s (snd (dal_query D q s))" by (intro read_reach.intros)
    moreover have "read_reach D s' (snd (unique_details D d current data fs (g rows) s'))" for rows s'
      using Cons.IH by (simp add: preserves_def)
    ultimately show "read_reach D s (snd (case dal_query D q s of
        (Inl e, s') \<Rightarrow> (Inl (E e), s') | (Inr rows, s') \<Rightarrow> unique_details D d current data fs (g rows) s'))"
      by (auto split: prod.splits sum.splits) (blast intro: read_reach_trans)
  qed
  show ?case by (simp add: Let_def Cons.IH step)
qed

lemma check_unique_reach: "preserves (read_reach D) (check_unique D d current data)"
  unfolding check_unique_def
  by (auto intro!: preserves_bind unique_details_reach simp: preserves_ret preserves_fail)

lemma fetch_record_reach: "preserves (read_reach (en_db en)) (fetch_record en d dt i)"
  unfolding fetch_record_def
  by (auto intro!: preserves_bind simp: preserves_ret preserves_fail split: list.splits)

text \<open>
  The services are well behaved when permission checks only read and audit entries are written with
  operations of the transaction. The wiring of a site is.
\<close>

definition services_ok :: "'s engine \<Rightarrow> bool" where
  "services_ok en \<longleftrightarrow>
     (\<forall>p cx dt a. en_perm en = Some p \<longrightarrow> preserves (read_reach (en_db en)) (pe_check_action p cx dt a)) \<and>
     (\<forall>L e. en_audit en = Some L \<longrightarrow> preserves (tx_reach (en_db en)) (write_in_tx L e))"

definition site_engine ::
    "'s sql_engine \<Rightarrow> (nat \<Rightarrow> string) \<Rightarrow> (audit_entry \<Rightarrow> row) \<Rightarrow> 's dal \<Rightarrow> registry \<Rightarrow> perm_rule list \<Rightarrow> bus
     \<Rightarrow> field_validator validator_registry \<Rightarrow> (string \<Rightarrow> bool) \<Rightarrow> (int \<Rightarrow> string) \<Rightarrow> 's engine" where
  "site_engine E ph to_row D reg rules b vs mail ft =
     \<lparr>en_db = D, en_reg = reg,
      en_perm = Some (perm_engine \<lparr>pf_reg = reg, pf_db = Some D, pf_rules = rules\<rparr>),
      en_bus = Some b, en_audit = Some (db_audit_log E D ph to_row),
      en_validators = vs, en_mail = mail, en_fmt = ft\<rparr>"

lemma site_engine_simps [simp]:
  "en_db (site_engine E ph to_row D reg rules b vs mail ft) = D"
  "en_reg (site_engine E ph to_row D reg rules b vs mail ft) = reg"
  "en_bus (site_engine E ph to_row D reg rules b vs mail ft) = Some b"
  "en_perm (site_engine E ph to_row D reg rules b vs mail ft) =
     Some (perm_engine \<lparr>pf_reg = reg, pf_db = Some D, pf_rules = rules\<rparr>)"
  "en_audit (site_engine E ph to_row D reg rules b vs mail ft) = Some (db_audit_log E D ph to_row)"
  by (simp_all add: site_engine_def)

lemma site_engine_ok: "services_ok (site_engine E ph to_row D reg rules b vs mail ft)"
  by (auto simp: services_ok_def perm_engine_def write_in_tx_def db_audit_log_def
      intro: check_action_reach db_log.write_in_reach)

lemma require_action_reach:
  "services_ok en \<Longrightarrow> preserves (read_reach (en_db en)) (require_action en cx dt a)"
  by (auto simp: require_action_def services_ok_def preserves_ret split: option.splits)

lemma write_audit_reach:
  "services_ok en \<Longrightarrow> preserves (tx_reach (en_db en)) (write_audit en oe cx a dt i old new)"
  by (auto simp: write_audit_def services_ok_def preserves_ret split: option.splits)

lemma writable_reach: "reflp R \<Longrightarrow> preserves R (writable en cx dt data)"
  by (auto simp: writable_def preserves_ret preserves_lift split: option.splits)

lemmas doc_reach =
  emit_doc_reach check_unique_reach fetch_record_reach require_action_reach writable_reach
  write_audit_reach preserves_ret preserves_lift preserves_fail

lemma body_reach:
  assumes "services_ok en"
  shows "preserves (tx_reach (en_db en)) (create_body en oe cx d dt norm)"
    and "preserves (tx_reach (en_db en)) (update_body en oe cx dt i old merged)"
    and "preserves (tx_reach (en_db en)) (delete_body en oe cx dt i old)"
  unfolding create_body_def update_body_def delete_body_def Let_def
  by (intro preserves_bind doc_reach assms tx_reach_rel tx_preserves)+

text \<open>An error before or inside the transaction leaves only reads behind.\<close>

lemma failed_bind:
  assumes m: "preserves (read_reach D) m"
    and f: "\<And>a s e t. f a s = (Inl e, t) \<Longrightarrow> read_reach D s t"
    and fail: "bind_s m f s = (Inl e, t)"
  shows "read_reach D s t"
proof -
  have "read_reach D s (snd (m s))" using m by (simp add: preserves_def)
  with fail f show ?thesis
    by (auto simp: bind_s_Inl) (metis read_reach_trans snd_conv)
qed

lemma failed_transaction:
  "rollback_law D \<Longrightarrow> preserves (tx_reach D) body \<Longrightarrow> transaction D body s = (Inl e, t) \<Longrightarrow> read_reach D s t"
  using transaction_error by (metis read_refl)

lemma failed_create:
  assumes "rollback_law (en_db en)" and "services_ok en"
    and "doc_create en oe cx dt data s = (Inl e, t)"
  shows "read_reach (en_db en) s t"
  using assms(3) unfolding doc_create_def Let_def
  by (rule failed_bind [rotated -1])
    (erule failed_bind [rotated -1] failed_transaction [rotated -1] |
      intro doc_reach read_reach_rel assms body_reach)+

lemma failed_update:
  assumes "rollback_law (en_db en)" and "services_ok en"
    and "doc_update en oe cx dt i data s = (Inl e, t)"
  shows "read_reach (en_db en) s t"
  using assms(3) unfolding doc_update_def Let_def
  by (rule failed_bind [rotated -1])
    (erule failed_bind [rotated -1] failed_transaction [rotated -1] |
      intro doc_reach read_reach_rel assms body_reach)+

lemma failed_delete:
  assumes "rollback_law (en_db en)" and "services_ok en"
    and "doc_delete en oe cx dt i s = (Inl e, t)"
  shows "read_reach (en_db en) s t"
  using assms(3) unfolding doc_delete_def Let_def
  by (rule failed_bind [rotated -1])
    (erule failed_bind [rotated -1] failed_transaction [rotated -1] |
      intro doc_reach read_reach_rel assms body_reach)+

section \<open>What a successful write did\<close>

lemma emit_doc_state: "emit_doc en cx dt ev doc s = (Inr r, t) \<Longrightarrow> t = s"
  by (auto simp: emit_doc_def split: option.splits prod.splits)

lemma preserves_run: "preserves R m \<Longrightarrow> m s = (r, t) \<Longrightarrow> R s t"
  unfolding preserves_def by (metis snd_conv)

lemma write_audit_entry:
  assumes "write_audit en oe cx a dt i old new s = (Inr u, t)" and "en_audit en = Some L"
  shows "write_in_tx L (build_entry (oe_audit_id oe) (oe_audit_now oe) cx a dt i
           (diff_maps (en_fmt en) old new)) s = (Inr (), t)"
  using assms by (simp add: write_audit_def)

lemma create_commits:
  assumes "services_ok en" and "en_audit en = Some L"
    and "doc_create en oe cx dt data s = (Inr i, t)"
  shows "\<exists>d norm r' s0 s1 s2 s3. registry_get (en_reg en) dt = Inr d \<and>
    read_reach (en_db en) s s0 \<and> dal_begin (en_db en) s0 = (Inr (), s1) \<and>
    tx_insert (en_db en) dt (build_insert_row oe d norm) s1 = (Inr i, s2) \<and>
    write_in_tx L (build_entry (oe_audit_id oe) (oe_audit_now oe) cx ''create'' dt i
      (diff_maps (en_fmt en) [] r')) s2 = (Inr (), s3) \<and>
    dal_commit (en_db en) s3 = (Inr (), t)"
proof -
  from assms(3) obtain d norm a1 a2 a3 a4 a5 s0 s1 s2 x1 x2 x3 x4 x5 where
    d: "registry_get (en_reg en) dt = Inr d"
    and a: "require_action en cx dt ''create'' s = (Inr (), x1)"
    and w: "writable en cx dt data x1 = (Inr a1, x2)"
    and e1: "emit_doc en cx dt ev_before_validate a1 x2 = (Inr a2, x3)"
    and u: "check_unique (en_db en) d [] (normalize_to_columns d a2) x3 = (Inr (), x4)"
    and e2: "emit_doc en cx dt ev_after_validate (normalize_to_columns d a2) x4 = (Inr a3, x5)"
    and e3: "emit_doc en cx dt ev_before_insert a3 x5 = (Inr a4, s0)"
    and e4: "emit_doc en cx dt ev_before_save a4 s0 = (Inr norm, s1)"
    and tx: "transaction (en_db en) (create_body en oe cx d dt norm) s1 = (Inr i, t)"
    by (auto simp: doc_create_def Let_def bind_s_Inr)
  have "read_reach (en_db en) s x1"
    using require_action_reach [OF assms(1)] a by (rule preserves_run)
  moreover have "x2 = x1" using w by (auto simp: writable_def split: option.splits)
  moreover have "read_reach (en_db en) x3 x4" using check_unique_reach u by (rule preserves_run)
  moreover have "x3 = x2" "x5 = x4" "s0 = x5" "s1 = s0"
    using e1 e2 e3 e4 by (auto dest: emit_doc_state)
  ultimately have reach: "read_reach (en_db en) s s1" by (metis read_reach_trans)
  from tx obtain t1 t2 where b: "dal_begin (en_db en) s1 = (Inr (), t1)"
    and body: "create_body en oe cx d dt norm t1 = (Inr i, t2)"
    and c: "dal_commit (en_db en) t2 = (Inr (), t)"
    by (auto simp: transaction_Inr)
  from body obtain t3 r1 r2 t4 t5 where
    i: "tx_insert (en_db en) dt (build_insert_row oe d norm) t1 = (Inr i, t3)"
    and h1: "emit_doc en cx dt ev_after_insert (build_insert_row oe d norm) t3 = (Inr r1, t4)"
    and h2: "emit_doc en cx dt ev_after_save r1 t4 = (Inr r2, t5)"
    and au: "write_audit en oe cx ''create'' dt i [] r2 t5 = (Inr (), t2)"
    by (auto simp: create_body_def Let_def bind_s_Inr)
  have "t4 = t3" "t5 = t4" using h1 h2 by (auto dest: emit_doc_state)
  with au assms(2)
  have "write_in_tx L (build_entry (oe_audit_id oe) (oe_audit_now oe) cx ''create'' dt i
      (diff_maps (en_fmt en) [] r2)) t3 = (Inr (), t2)"
    by (simp add: write_audit_entry)
  with d reach b i c show ?thesis by blast
qed

lemma update_commits:
  assumes "services_ok en" and "en_audit en = Some L"
    and "doc_update en oe cx dt i data s = (Inr u, t)"
  shows "\<exists>old merged m s0 s1 s2 s3.
    read_reach (en_db en) s s0 \<and> dal_begin (en_db en) s0 = (Inr (), s1) \<and>
    tx_update (en_db en) dt i (build_update_row oe merged) s1 = (Inr (), s2) \<and>
    write_in_tx L (build_entry (oe_audit_id oe) (oe_audit_now oe) cx ''update'' dt i
      (diff_maps (en_fmt en) old m)) s2 = (Inr (), s3) \<and>
    dal_commit (en_db en) s3 = (Inr (), t)"
proof -
  from assms(3) obtain d norm a1 a2 a3 old merged x1 x2 x3 x4 x5 x6 x7 s1 where
    a: "require_action en cx dt ''write'' s = (Inr (), x1)"
    and w: "writable en cx dt data x1 = (Inr a1, x2)"
    and f: "fetch_record en d dt i x2 = (Inr old, x3)"
    and e1: "emit_doc en cx dt ev_before_validate a1 x3 = (Inr a2, x4)"
    and u: "check_unique (en_db en) d i (normalize_to_columns d a2) x4 = (Inr (), x5)"
    and e2: "emit_doc en cx dt ev_after_validate (normalize_to_columns d a2) x5 = (Inr a3, x6)"
    and e3: "emit_doc en cx dt ev_before_update a3 x6 = (Inr norm, x7)"
    and e4: "emit_doc en cx dt ev_before_save (overlay old norm) x7 = (Inr merged, s1)"
    and tx: "transaction (en_db en) (update_body en oe cx dt i old merged) s1 = (Inr (), t)"
    by (auto simp: doc_update_def Let_def bind_s_Inr)
  have "read_reach (en_db en) s x1"
    using require_action_reach [OF assms(1)] a by (rule preserves_run)
  moreover have "x2 = x1" using w by (auto simp: writable_def split: option.splits)
  moreover have "read_reach (en_db en) x2 x3" using fetch_record_reach f by (rule preserves_run)
  moreover have "read_reach (en_db en) x4 x5" using check_unique_reach u by (rule preserves_run)
  moreover have "x4 = x3" "x6 = x5" "x7 = x6" "s1 = x7"
    using e1 e2 e3 e4 by (auto dest: emit_doc_state)
  ultimately have reach: "read_reach (en_db en) s s1" by (metis read_reach_trans)
  from tx obtain t1 t2 where b: "dal_begin (en_db en) s1 = (Inr (), t1)"
    and body: "update_body en oe cx dt i old merged t1 = (Inr (), t2)"
    and c: "dal_commit (en_db en) t2 = (Inr (), t)"
    by (auto simp: transaction_Inr)
  from body obtain t3 r1 r2 t4 t5 where
    i: "tx_update (en_db en) dt i (build_update_row oe merged) t1 = (Inr (), t3)"
    and h1: "emit_doc en cx dt ev_after_update (overlay old (build_update_row oe merged)) t3 = (Inr r1, t4)"
    and h2: "emit_doc en cx dt ev_after_save r1 t4 = (Inr r2, t5)"
    and au: "write_audit en oe cx ''update'' dt i old r2 t5 = (Inr (), t2)"
    by (auto simp: update_body_def Let_def bind_s_Inr)
  have "t4 = t3" "t5 = t4" using h1 h2 by (auto dest: emit_doc_state)
  with au assms(2)
  have "write_in_tx L (build_entry (oe_audit_id oe) (oe_audit_now oe) cx ''update'' dt i
      (diff_maps (en_fmt en) old r2)) t3 = (Inr (), t2)"
    by (simp add: write_audit_entry)
  with reach b i c show ?thesis by blast
qed

lemma delete_commits:
  assumes "services_ok en" and "en_audit en = Some L"
    and "doc_delete en oe cx dt i s = (Inr u, t)"
  shows "\<exists>old s0 s1 s2 s3.
    read_reach (en_db en) s s0 \<and> dal_begin (en_db en) s0 = (Inr (), s1) \<and>
    tx_update (en_db en) dt i (delete_row oe) s1 = (Inr (), s2) \<and>
    write_in_tx L (build_entry (oe_audit_id oe) (oe_audit_now oe) cx ''delete'' dt i
      (diff_maps (en_fmt en) old [(''deleted'', VBool True)])) s2 = (Inr (), s3) \<and>
    dal_commit (en_db en) s3 = (Inr (), t)"
proof -
  from assms(3) obtain d old0 old x1 x2 s1 where
    a: "require_action en cx dt ''delete'' s = (Inr (), x1)"
    and f: "fetch_record en d dt i x1 = (Inr old0, x2)"
    and e: "emit_doc en cx dt ev_before_delete old0 x2 = (Inr old, s1)"
    and tx: "transaction (en_db en) (delete_body en oe cx dt i old) s1 = (Inr (), t)"
    by (auto simp: doc_delete_def bind_s_Inr)
  have "read_reach (en_db en) s x1"
    using require_action_reach [OF assms(1)] a by (rule preserves_run)
  moreover have "read_reach (en_db en) x1 x2" using fetch_record_reach f by (rule preserves_run)
  moreover have "s1 = x2" using e by (rule emit_doc_state)
  ultimately have reach: "read_reach (en_db en) s s1" by (metis read_reach_trans)
  from tx obtain t1 t2 where b: "dal_begin (en_db en) s1 = (Inr (), t1)"
    and body: "delete_body en oe cx dt i old t1 = (Inr (), t2)"
    and c: "dal_commit (en_db en) t2 = (Inr (), t)"
    by (auto simp: transaction_Inr)
  from body obtain t3 r1 t4 where
    i: "tx_update (en_db en) dt i (delete_row oe) t1 = (Inr (), t3)"
    and h: "emit_doc en cx dt ev_after_delete old t3 = (Inr r1, t4)"
    and au: "write_audit en oe cx ''delete'' dt i r1 [(''deleted'', VBool True)] t4 = (Inr (), t2)"
    by (auto simp: delete_body_def bind_s_Inr)
  have "t4 = t3" using h by (rule emit_doc_state)
  with au assms(2)
  have "write_in_tx L (build_entry (oe_audit_id oe) (oe_audit_now oe) cx ''delete'' dt i
      (diff_maps (en_fmt en) r1 [(''deleted'', VBool True)])) t3 = (Inr (), t2)"
    by (simp add: write_audit_entry)
  with reach b i c show ?thesis by blast
qed

section \<open>Validation\<close>

text \<open>A field passes when none of its checks objects.\<close>

definition field_ok :: "'s engine \<Rightarrow> ctx \<Rightarrow> bool \<Rightarrow> row \<Rightarrow> field \<Rightarrow> bool" where
  "field_ok en cx is_update data f \<longleftrightarrow>
     is_system_field (f_db_column f) \<or> f_type f = FTChildTable \<or>
     (case field_value data f of
        None \<Rightarrow> is_update \<or> \<not> f_required f
      | Some v \<Rightarrow>
          if is_zero_val v then is_update \<or> \<not> f_required f
          else validator_error en cx f v = None \<and>
               (f_options f = [] \<or> options_error (en_fmt en) (f_options f) v = None) \<and>
               (f_format f = [] \<or> format_error (en_mail en) (f_format f) v = None))"

lemma update_not_Nil [simp]: "AList.update k v m \<noteq> []"
  by (induction m) auto

lemma put_detail_Nil [simp]: "put_detail f msg ds = [] \<longleftrightarrow> msg = None \<and> ds = []"
  by (auto simp: put_detail_def split: option.splits)

lemma validate_field_Nil:
  "validate_field en cx is_update data f ds = [] \<longleftrightarrow> ds = [] \<and> field_ok en cx is_update data f"
  by (auto simp: validate_field_def field_ok_def Let_def split: option.splits)

lemma fold_validate_Nil:
  "fold (validate_field en cx is_update data) fs ds = [] \<longleftrightarrow>
     ds = [] \<and> (\<forall>f \<in> set fs. field_ok en cx is_update data f)"
  by (induction fs arbitrary: ds) (auto simp: validate_field_Nil)

lemma validate_fields_ok:
  "validate_fields en cx d data is_update = Inr () \<longleftrightarrow> (\<forall>f \<in> set (d_fields d). field_ok en cx is_update data f)"
  by (simp add: validate_fields_def Let_def fold_validate_Nil)

section \<open>Order clauses\<close>

lemma validate_order_by_Inr:
  assumes "validate_order_by d ob = Inr r" and "r \<noteq> []"
  shows "\<exists>f \<in> set (d_fields d). \<not> (f_hidden f \<and> \<not> f_system f) \<and>
    (r = f_db_column f \<or> r = f_db_column f @ '' ASC'' \<or> r = f_db_column f @ '' DESC'')"
  using assms
  by (auto simp: validate_order_by_def Let_def find_Some_iff split: list.splits if_splits sum.splits option.splits)

section \<open>Normalisation\<close>

text \<open>Names that keep a document's fields apart, as compilation produces them.\<close>

definition names_ok :: "compiled_doc \<Rightarrow> bool" where
  "names_ok d \<longleftrightarrow> distinct (map f_name (d_fields d)) \<and> distinct (map f_db_column (d_fields d)) \<and>
     (\<forall>f \<in> set (d_fields d). \<forall>g \<in> set (d_fields d). f_name f = f_db_column g \<longrightarrow> f = g)"

lemma go_to_col_fold:
  "map_of (fold (\<lambda>f m. AList.update (f_name f) (f_db_column f) m) fs m) k =
     (case find (\<lambda>f. f_name f = k) (rev fs) of Some f \<Rightarrow> Some (f_db_column f) | None \<Rightarrow> map_of m k)"
proof (induction fs rule: rev_induct)
  case Nil
  then show ?case by simp
next
  case (snoc f fs)
  then show ?case by (auto simp: map_of_update)
qed

lemma column_key_field:
  assumes "distinct (map f_name (d_fields d))" and "f \<in> set (d_fields d)"
  shows "column_key d (f_name f) = f_db_column f"
proof (cases "find (\<lambda>g. f_name g = f_name f) (rev (d_fields d))")
  case None
  with assms(2) show ?thesis by (auto simp: find_None_iff)
next
  case (Some g)
  then have "f_name g = f_name f" "g \<in> set (d_fields d)"
    by (auto simp: find_Some_iff) (metis nth_mem length_rev set_rev)
  with assms have "g = f" by (simp add: distinct_map inj_on_def)
  with Some show ?thesis by (simp add: column_key_def go_to_col_def go_to_col_fold)
qed

lemma column_key_other: "\<forall>f \<in> set (d_fields d). f_name f \<noteq> k \<Longrightarrow> column_key d k = k"
  by (auto simp: column_key_def go_to_col_def go_to_col_fold find_Some_iff split: option.splits)
    (metis nth_mem length_rev set_rev)

lemma column_key_is_column:
  assumes "names_ok d" and "f \<in> set (d_fields d)"
  shows "column_key d k = f_db_column f \<longleftrightarrow> k = f_name f \<or> k = f_db_column f"
proof (cases "\<exists>g \<in> set (d_fields d). f_name g = k")
  case True
  then obtain g where g: "g \<in> set (d_fields d)" "f_name g = k" by blast
  then have "column_key d k = f_db_column g"
    using assms(1) column_key_field by (fastforce simp: names_ok_def)
  moreover have "f_db_column g = f_db_column f \<longleftrightarrow> g = f"
    using assms g by (auto simp: names_ok_def distinct_map inj_on_def)
  moreover have "f_name g = f_name f \<longleftrightarrow> g = f"
    using assms g by (auto simp: names_ok_def distinct_map inj_on_def)
  moreover have "f_name g = f_db_column f \<Longrightarrow> g = f"
    using assms g by (auto simp: names_ok_def)
  ultimately show ?thesis using g by auto
next
  case False
  then show ?thesis using assms(2) by (auto simp: column_key_other)
qed

lemma fold_update_lookup:
  "map_of (fold (\<lambda>(k, v) out. AList.update (g k) v out) data m) c =
     (case find (\<lambda>(k, v). g k = c) (rev data) of Some (k, v) \<Rightarrow> Some v | None \<Rightarrow> map_of m c)"
  by (induction data rule: rev_induct) (auto simp: map_of_update)

text \<open>
  When the data names a field in one way only, the column receives the value that validation saw.
\<close>

lemma normalize_field_value:
  assumes "wf_map data" and "names_ok d" and "f \<in> set (d_fields d)"
    and "map_of data (f_name f) = None \<or> map_of data (f_db_column f) = None \<or> f_name f = f_db_column f"
  shows "map_of (normalize_to_columns d data) (f_db_column f) = field_value data f"
proof (cases "find (\<lambda>(k, v). column_key d k = f_db_column f) (rev data)")
  case None
  then have "\<forall>(k, v) \<in> set data. k \<noteq> f_name f \<and> k \<noteq> f_db_column f"
    using column_key_is_column [OF assms(2,3)] by (auto simp: find_None_iff)
  then have "map_of data (f_name f) = None \<and> map_of data (f_db_column f) = None"
    by (auto simp: map_of_eq_None_iff)
  with None show ?thesis
    by (simp add: normalize_to_columns_def fold_update_lookup field_value_def)
next
  case (Some kv)
  obtain k v where kv: "kv = (k, v)" by (cases kv)
  from Some have "(k, v) \<in> set data" and key: "column_key d k = f_db_column f"
    by (auto simp: kv find_Some_iff) (metis nth_mem length_rev set_rev)
  then have "map_of data k = Some v" using assms(1) by (simp add: wf_map_def)
  moreover have "k = f_name f \<or> k = f_db_column f"
    using key column_key_is_column [OF assms(2,3)] by simp
  ultimately have "field_value data f = Some v"
    using assms(4) by (auto simp: field_value_def)
  with Some show ?thesis
    by (simp add: normalize_to_columns_def fold_update_lookup kv)
qed

section \<open>A small site\<close>

text \<open>
  One DocType with a required, a gated and an option field, on the journalling engine; the witnesses
  below run on it. The argument answers executions.
\<close>

definition demo_fields :: "field list" where
  "demo_fields =
     [zero_field\<lparr>f_name := ''Title'', f_db_column := ''title'', f_required := True\<rparr>,
      zero_field\<lparr>f_name := ''Status'', f_db_column := ''status'', f_options := [''Open'', ''Done'']\<rparr>,
      zero_field\<lparr>f_name := ''Cost'', f_db_column := ''cost'', f_type := FTInt, f_permission_role := ''HR''\<rparr>]"

definition demo_doc :: compiled_doc where
  "demo_doc = zero_doc\<lparr>d_name := ''Task'', d_table_name := ''tasks'',
     d_fields := base_document_fields @ demo_fields,
     d_permissions := [\<lparr>p_role = ''User'', p_read = True, p_write = True, p_create = True,
                        p_delete = True, p_submit = False, p_match = MatchAll\<rparr>]\<rparr>"

definition demo_reg :: registry where
  "demo_reg = new_registry\<lparr>rg_docs := [(''Task'', demo_doc)], rg_compiled := True\<rparr>"

definition demo_answers :: answers where
  "demo_answers log q args =
     Inr \<lparr>sr_cols = [''id'', ''title'', ''cost''],
          sr_rows = [[SqlBytes ''t1'', SqlBytes ''Paint'', SqlVal (VInt64 7)]], sr_err = None\<rparr>"

definition demo_conf :: db_conf where
  "demo_conf = register_table audit_doc_type audit_table
     (register_docs (sqlite_driver itoa) [demo_doc] empty_conf)"

definition demo_sql :: "(string \<Rightarrow> val list \<Rightarrow> gerror + int) \<Rightarrow> journal sql_engine" where
  "demo_sql ex = journal_engine demo_answers ex"

definition demo_db :: "(string \<Rightarrow> val list \<Rightarrow> gerror + int) \<Rightarrow> journal dal" where
  "demo_db ex = database (demo_sql ex) (sqlite_driver itoa) itoa demo_conf (\<lambda>r. ''fresh'')"

definition demo_site :: "(string \<Rightarrow> val list \<Rightarrow> gerror + int) \<Rightarrow> bus \<Rightarrow> journal engine" where
  "demo_site ex b =
     site_engine (demo_sql ex) sqlite_placeholder (entry_row itoa ''a0'' 1 ''sqlite'') (demo_db ex)
       demo_reg [] b [] (\<lambda>s. False) itoa"

definition demo_user :: ctx where
  "demo_user = auth_new_context background_ctx (zero_identity\<lparr>i_user_id := ''u1'', i_roles := [''User'']\<rparr>)"

definition demo_env :: op_env where
  "demo_env = \<lparr>oe_now = 5, oe_id = ''t2'', oe_audit_id = ''a1'', oe_audit_now = 6\<rparr>"

definition exec_ok :: "string \<Rightarrow> val list \<Rightarrow> gerror + int" where
  "exec_ok q args = Inr 1"

definition exec_no_audit :: "string \<Rightarrow> val list \<Rightarrow> gerror + int" where
  "exec_no_audit q args =
     (if has_prefix q (''INSERT INTO '' @ go_quote ''audit_entries'') then Inl (StdError ''disk full'' None) else Inr 1)"

section \<open>Operations of a site\<close>

lemma site_writable:
  assumes "writable (site_engine E ph to_row D reg rules b vs mail ft) cx dt data s = (Inr data', t)"
  shows "data' = data \<and> t = s \<and> (\<forall>k. key_locked reg cx dt k \<longrightarrow> map_of data k = None)"
  using assms filter_write_lookup [of reg cx dt data] by (auto simp: writable_def perm_engine_def)

lemma site_readable:
  assumes "readable (site_engine E ph to_row D reg rules b vs mail ft) cx dt r = Inr r'"
  shows "map_of r' k = (if key_locked reg cx dt k then None else map_of r k)"
  using assms filter_read_lookup [of reg cx dt r r' k] by (auto simp: readable_def perm_engine_def)

lemma site_require_action:
  "require_action (site_engine E ph to_row D reg rules b vs mail ft) cx dt a =
     check_action \<lparr>pf_reg = reg, pf_db = Some D, pf_rules = rules\<rparr> cx dt a"
  by (simp add: require_action_def perm_engine_def)

lemma emit_no_hooks [simp]:
  "emit_doc (site_engine E ph to_row D reg rules [] vs mail ft) cx dt ev doc = ret doc"
  by (simp add: emit_doc_def bus_emit_empty)

lemma site_write_in_tx:
  "write_in_tx (db_audit_log E D ph to_row) e s = (Inr (), t) \<longleftrightarrow>
     (\<exists>j. tx_insert D audit_doc_type (to_row e) s = (Inr j, t))"
  by (auto simp: write_in_tx_def db_audit_log_def db_log_write_tx_def bind_s_Inr)

lemma wf_normalize: "wf_map (normalize_to_columns d data)"
proof -
  have "wf_map (fold (\<lambda>(k, v) out. AList.update (g k) v out) data m)" if "wf_map m" for g and m :: row
    using that by (induction data arbitrary: m) (auto simp: wf_map_update)
  then show ?thesis by (simp add: normalize_to_columns_def wf_map_def)
qed

text \<open>A step that only reads before a failing check leaves the check's error.\<close>

lemma denied_first:
  assumes "registry_get (en_reg en) dt = Inr d" and "require_action en cx dt a s = (Inl e, t)"
  shows "a = ''create'' \<Longrightarrow> doc_create en oe cx dt data s = (Inl e, t)"
    and "a = ''read'' \<Longrightarrow> doc_read en cx dt i s = (Inl e, t)"
    and "a = ''read'' \<Longrightarrow> doc_list en cx dt lo s = (Inl e, t)"
    and "a = ''write'' \<Longrightarrow> doc_update en oe cx dt i data s = (Inl e, t)"
    and "a = ''delete'' \<Longrightarrow> doc_delete en oe cx dt i s = (Inl e, t)"
  using assms by (simp_all add: doc_create_def doc_read_def doc_list_def doc_update_def doc_delete_def bind_s_def)

section \<open>Properties\<close>

text \<open>C1: A create, update or delete of a site that returns an error has only read the database:
  whatever failed (permission, hook, validation, statement, audit entry, commit), nothing was written.\<close>

theorem failed_write_only_reads:
  assumes "engine_law E" and "D = database E drv tf c fresh"
    and "en = site_engine E ph to_row D reg rules b vs mail ft"
    and "doc_create en oe cx dt data s = (Inl e, t) \<or> doc_update en oe cx dt i data s = (Inl e, t) \<or>
         doc_delete en oe cx dt i s = (Inl e, t)"
  shows "read_reach D s t"
proof -
  have r: "rollback_law (en_db en)" using database_rollback_law [OF assms(1)] by (simp add: assms)
  have k: "services_ok en" unfolding assms(3) by (rule site_engine_ok)
  have "en_db en = D" by (simp add: assms)
  then show ?thesis
    using assms(4) failed_create [OF r k] failed_update [OF r k] failed_delete [OF r k] by metis
qed

lemma demo_query_state: "snd (dal_query (demo_db ex) q s) = s"
proof -
  have "snd (run_query (demo_sql ex) drv q' s) = s" for drv q'
    by (auto simp: run_query_def demo_sql_def journal_engine_def split: prod.splits sum.splits)
  moreover have "snd (resolve_search_filter (demo_sql ex) drv tf d q' s) = s" for drv tf d q'
    by (auto simp: resolve_search_filter_def demo_sql_def journal_engine_def Let_def
        split: prod.splits sum.splits option.splits)
  ultimately show ?thesis
    by (auto simp: demo_db_def db_query_def bind_s_def split: prod.splits sum.splits option.splits)
      (metis snd_conv)+
qed

lemma demo_read_reach: "read_reach (demo_db ex) s t \<Longrightarrow> t = s"
  by (induction rule: read_reach.induct) (simp_all add: demo_query_state)

lemma demo_engine_law: "engine_law (demo_sql ex)"
  unfolding demo_sql_def by (rule journal_engine_law)

theorem failed_write_only_reads_witness:
  "\<exists>e. doc_create (demo_site exec_no_audit []) demo_env demo_user ''Task'' [(''Title'', VStr ''x'')] empty_journal
     = (Inl e, empty_journal)"
proof -
  let ?r = "doc_create (demo_site exec_no_audit []) demo_env demo_user ''Task'' [(''Title'', VStr ''x'')] empty_journal"
  have "fst ?r = Inl (internal_err ''insert failed'' (Some (StdError ''disk full'' None)))"
    by code_simp
  then have r: "?r = (Inl (internal_err ''insert failed'' (Some (StdError ''disk full'' None))), snd ?r)"
    by (simp add: prod_eq_iff)
  from r have "read_reach (demo_db exec_no_audit) empty_journal (snd ?r)"
    by (intro failed_write_only_reads [OF demo_engine_law demo_db_def demo_site_def]) blast
  from demo_read_reach [OF this] r show ?thesis by auto
qed

text \<open>C2: A create that returns an id has, in one committed transaction, inserted one row built from
  the data and written one audit entry naming the caller, the document, the id and the agent that acted;
  before that it only read.\<close>

theorem create_is_audited:
  assumes "D = database E drv tf c fresh" and "en = site_engine E ph to_row D reg rules b vs mail ft"
    and "doc_create en oe cx dt data s = (Inr i, t)"
  shows "\<exists>d norm s0 s1 s2 s3 entry j. registry_get reg dt = Inr d \<and> read_reach D s s0 \<and>
    dal_begin D s0 = (Inr (), s1) \<and> tx_insert D dt (build_insert_row oe d norm) s1 = (Inr i, s2) \<and>
    tx_insert D audit_doc_type (to_row entry) s2 = (Inr j, s3) \<and> dal_commit D s3 = (Inr (), t) \<and>
    ae_action entry = ''create'' \<and> ae_doc_type entry = dt \<and> ae_doc_id entry = i \<and>
    ae_user_id entry = i_user_id (auth_from_context cx) \<and> ae_via_agent entry = cx_via_agent cx"
proof -
  have k: "services_ok en" unfolding assms(2) by (rule site_engine_ok)
  have a: "en_audit en = Some (db_audit_log E D ph to_row)" "en_db en = D" "en_reg en = reg"
    by (simp_all add: assms)
  from create_commits [OF k a(1) assms(3)] show ?thesis
    unfolding a site_write_in_tx by (fastforce simp: build_entry_def)
qed

theorem create_is_audited_witness:
  "length (jr_log (snd (doc_create (demo_site exec_ok []) demo_env demo_user ''Task'' [(''Title'', VStr ''x'')] empty_journal))) = 2 \<and>
   (\<exists>d. registry_get demo_reg ''Task'' = Inr d)"
proof -
  let ?r = "doc_create (demo_site exec_ok []) demo_env demo_user ''Task'' [(''Title'', VStr ''x'')] empty_journal"
  have "fst ?r = Inr ''t2''" by code_simp
  then have "?r = (Inr ''t2'', snd ?r)" by (simp add: prod_eq_iff)
  from create_is_audited [OF demo_db_def demo_site_def this]
  have "\<exists>d. registry_get demo_reg ''Task'' = Inr d" by blast
  moreover have "length (jr_log (snd ?r)) = 2" by code_simp
  ultimately show ?thesis by blast
qed

text \<open>C3: Deleting is soft: a successful delete issues no statement but one update of the record, which sets
  \<open>deleted\<close> and \<open>updated_at\<close>, and the audit insertion, in one transaction.\<close>

theorem delete_is_soft:
  assumes "D = database E drv tf c fresh" and "en = site_engine E ph to_row D reg rules b vs mail ft"
    and "doc_delete en oe cx dt i s = (Inr u, t)"
  shows "\<exists>s0 s1 s2 s3 entry j. read_reach D s s0 \<and> dal_begin D s0 = (Inr (), s1) \<and>
    tx_update D dt i [(''deleted'', VBool True), (''updated_at'', VTime (oe_now oe))] s1 = (Inr (), s2) \<and>
    tx_insert D audit_doc_type (to_row entry) s2 = (Inr j, s3) \<and> dal_commit D s3 = (Inr (), t) \<and>
    ae_action entry = ''delete'' \<and> ae_doc_id entry = i"
proof -
  have k: "services_ok en" unfolding assms(2) by (rule site_engine_ok)
  have a: "en_audit en = Some (db_audit_log E D ph to_row)" "en_db en = D"
    by (simp_all add: assms)
  from delete_commits [OF k a(1) assms(3)] show ?thesis
    unfolding a site_write_in_tx delete_row_def by (fastforce simp: build_entry_def)
qed

theorem delete_is_soft_witness:
  "\<exists>s1 s2. tx_update (demo_db exec_ok) ''Task'' ''t1''
     [(''deleted'', VBool True), (''updated_at'', VTime 5)] s1 = (Inr (), s2)"
proof -
  let ?r = "doc_delete (demo_site exec_ok []) demo_env demo_user ''Task'' ''t1'' empty_journal"
  have "fst ?r = Inr ()" by code_simp
  then have "?r = (Inr (), snd ?r)" by (simp add: prod_eq_iff)
  from delete_is_soft [OF demo_db_def demo_site_def this] show ?thesis
    by (auto simp: demo_env_def)
qed





text \<open>When the data names a field in one way only, by Go name or by column, the row that is written
  has in the field's column the very value that validation checked.\<close>

theorem written_value_validated:
  assumes "wf_map data" and "names_ok d" and "f \<in> set (d_fields d)"
    and "map_of data (f_name f) = None \<or> map_of data (f_db_column f) = None"
  shows "map_of (normalize_to_columns d data) (f_db_column f) = field_value data f"
  using normalize_field_value [OF assms(1,2,3)] assms(4) by blast

theorem written_value_validated_witness:
  "map_of (normalize_to_columns demo_doc [(''Title'', VStr ''x''), (''status'', VStr ''Open'')]) ''status''
     = Some (VStr ''Open'')"
proof -
  have "names_ok demo_doc" by code_simp
  moreover have "wf_map [(''Title'', VStr ''x''), (''status'', VStr ''Open'')]" by (simp add: wf_map_def)
  moreover have "demo_fields ! 1 \<in> set (d_fields demo_doc)" by (simp add: demo_doc_def demo_fields_def)
  ultimately show ?thesis
    using written_value_validated [of "[(''Title'', VStr ''x''), (''status'', VStr ''Open'')]" demo_doc "demo_fields ! 1"]
    by (simp add: demo_fields_def zero_field_def field_value_def)
qed

text \<open>When the data names a field in both ways, validation checks the Go name's value, and the value
  stored under the column may be the other one, unchecked: with the map iterated in this order an option
  field takes a value outside its options.\<close>

theorem double_key_escapes_validation:
  "\<exists>data data'. same_map data data' \<and>
     validate_fields (demo_site exec_ok []) demo_user demo_doc data False = Inr () \<and>
     validate_fields (demo_site exec_ok []) demo_user demo_doc (normalize_to_columns demo_doc data) False \<noteq> Inr () \<and>
     validate_fields (demo_site exec_ok []) demo_user demo_doc (normalize_to_columns demo_doc data') False = Inr ()"
proof -
  let ?a = "[(''Title'', VStr ''x''), (''Status'', VStr ''Open''), (''status'', VStr ''Bogus'')]"
  let ?b = "[(''Title'', VStr ''x''), (''status'', VStr ''Bogus''), (''Status'', VStr ''Open'')]"
  have "same_map ?a ?b" by (auto simp: same_map_def wf_map_def)
  moreover have "validate_fields (demo_site exec_ok []) demo_user demo_doc ?a False = Inr ()" by code_simp
  moreover have "validate_fields (demo_site exec_ok []) demo_user demo_doc (normalize_to_columns demo_doc ?a) False \<noteq> Inr ()"
    by code_simp
  moreover have "validate_fields (demo_site exec_ok []) demo_user demo_doc (normalize_to_columns demo_doc ?b) False = Inr ()"
    by code_simp
  ultimately show ?thesis by blast
qed

text \<open>C6: What \<open>Read\<close> and \<open>List\<close> return has no key of a field that is locked for the caller.\<close>

theorem locked_fields_not_returned:
  assumes "en = site_engine E ph to_row D reg rules b vs mail ft" and "key_locked reg cx dt k"
    and "doc_read en cx dt i s = (Inr r, t)" and "doc_list en cx dt lo s' = (Inr rs, t')"
  shows "map_of r k = None \<and> (\<forall>x \<in> set rs. map_of x k = None)"
proof
  from assms(3) obtain x where "readable en cx dt x = Inr r"
    by (auto simp: doc_read_def bind_s_Inr)
  then show "map_of r k = None" using assms(1,2) site_readable by metis
  from assms(4) obtain rows where "map_r (readable en cx dt) rows = Inr rs"
    by (auto simp: doc_list_def Let_def bind_s_Inr)
  then have l: "list_all2 (\<lambda>x y. readable en cx dt x = Inr y) rows rs" by (simp add: map_r_Inr)
  show "\<forall>x \<in> set rs. map_of x k = None"
  proof
    fix x assume "x \<in> set rs"
    then obtain j where "j < length rs" "rs ! j = x" by (auto simp: in_set_conv_nth)
    then have "readable en cx dt (rows ! j) = Inr x" using list_all2_nthD2 [OF l, of j] by simp
    then show "map_of x k = None"
      using site_readable [of E ph to_row D reg rules b vs mail ft cx dt "rows ! j" x k] assms(1,2) by simp
  qed
qed

definition all_opts :: list_opts where
  "all_opts = \<lparr>lo_filters = [], lo_order_by = [], lo_limit = 0, lo_offset = 0, lo_include_deleted = False\<rparr>"

theorem locked_fields_not_returned_witness:
  "map_of [(''id'', VStr ''t1''), (''title'', VStr ''Paint'')] ''cost'' = None \<and>
   fst (doc_read (demo_site exec_ok []) demo_user ''Task'' ''t1'' empty_journal) =
     Inr [(''id'', VStr ''t1''), (''title'', VStr ''Paint'')]"
proof -
  let ?r = "doc_read (demo_site exec_ok []) demo_user ''Task'' ''t1'' empty_journal"
  let ?l = "doc_list (demo_site exec_ok []) demo_user ''Task'' all_opts empty_journal"
  have fr: "fst ?r = Inr [(''id'', VStr ''t1''), (''title'', VStr ''Paint'')]" by code_simp
  then have r: "?r = (Inr [(''id'', VStr ''t1''), (''title'', VStr ''Paint'')], snd ?r)" by (simp add: prod_eq_iff)
  have "fst ?l = Inr [[(''id'', VStr ''t1''), (''title'', VStr ''Paint'')]]" by code_simp
  then have l: "?l = (Inr [[(''id'', VStr ''t1''), (''title'', VStr ''Paint'')]], snd ?l)" by (simp add: prod_eq_iff)
  have "key_locked demo_reg demo_user ''Task'' ''cost''" by code_simp
  from locked_fields_not_returned [OF demo_site_def this r l] fr show ?thesis by blast
qed

text \<open>A sort clause that \<open>List\<close> accepts names a visible or system column of the document, and the SQL it
  becomes is that column quoted, followed by nothing, \<open>ASC\<close> or \<open>DESC\<close>.\<close>

theorem order_by_allowlisted:
  assumes "validate_order_by d ob = Inr r" and "r \<noteq> []"
    and "\<forall>f \<in> set (d_fields d). CHR '' '' \<notin> set (f_db_column f) \<and> f_db_column f \<noteq> []"
  shows "\<exists>f \<in> set (d_fields d). \<not> (f_hidden f \<and> \<not> f_system f) \<and>
    order_clause r \<in> {'' ORDER BY '' @ go_quote (f_db_column f),
                      '' ORDER BY '' @ go_quote (f_db_column f) @ '' ASC'',
                      '' ORDER BY '' @ go_quote (f_db_column f) @ '' DESC''}"
proof -
  have sp: "split_on (CHR '' '') c = [c]" if "CHR '' '' \<notin> set c" for c
    using that by (induction c) auto
  have sp2: "split_on (CHR '' '') (c @ CHR '' '' # d) = c # split_on (CHR '' '') d" if "CHR '' '' \<notin> set c" for c d
    using that by (induction c) auto
  have dir: "is_sort_direction ''ASC''" "is_sort_direction ''DESC''" "to_upper ''ASC'' = ''ASC''"
    "to_upper ''DESC'' = ''DESC''"
    by code_simp+
  obtain f where f: "f \<in> set (d_fields d)" "\<not> (f_hidden f \<and> \<not> f_system f)"
    and r: "r = f_db_column f \<or> r = f_db_column f @ '' ASC'' \<or> r = f_db_column f @ '' DESC''"
    using validate_order_by_Inr [OF assms(1,2)] by blast
  have c: "CHR '' '' \<notin> set (f_db_column f)" "f_db_column f \<noteq> []" using assms(3) f(1) by auto
  have "order_clause r \<in> {'' ORDER BY '' @ go_quote (f_db_column f),
                      '' ORDER BY '' @ go_quote (f_db_column f) @ '' ASC'',
                      '' ORDER BY '' @ go_quote (f_db_column f) @ '' DESC''}"
    using r c(2) by (auto simp: order_clause_def Let_def sp [OF c(1)] sp2 [OF c(1)] sp dir)
  with f show ?thesis by blast
qed

theorem order_by_allowlisted_witness:
  "\<exists>f \<in> set (d_fields demo_doc). order_clause ''status DESC'' \<in> {'' ORDER BY '' @ go_quote (f_db_column f),
      '' ORDER BY '' @ go_quote (f_db_column f) @ '' ASC'', '' ORDER BY '' @ go_quote (f_db_column f) @ '' DESC''}"
proof -
  have "validate_order_by demo_doc '' Status  desc'' = Inr ''status DESC''" by code_simp
  moreover have "\<forall>f \<in> set (d_fields demo_doc). CHR '' '' \<notin> set (f_db_column f) \<and> f_db_column f \<noteq> []"
    by code_simp
  ultimately show ?thesis using order_by_allowlisted by blast
qed

end
