(* ===== verification/Workflow.thy ===== *)
theory Workflow
  imports Document
begin

text \<open>
  The workflow engine (\<open>workflow/engine.go\<close>): registration with the \<open>WorkflowState\<close> field it adds to
  the compiled document, discovery of the transitions a caller may take, and execution of one in a
  transaction with guard, event, handler and audit entry.
\<close>

section \<open>Definitions\<close>

text \<open>Guards and handlers are application code; like hooks they may change the map they are given.\<close>

record transition =
  tr_from :: string
  tr_to :: string
  tr_action :: string
  tr_roles :: "string list"
  tr_guard :: "handler option"

record wf_state =
  ws_name :: string
  ws_style :: string

record wf_def =
  wd_doc_type :: string
  wd_states :: "wf_state list"
  wd_transitions :: "transition list"
  wd_on :: "(string \<times> handler) list"

record 's wf_engine =
  we_db :: "'s dal"
  we_reg :: registry
  we_perm :: "'s perm_engine"
  we_bus :: "bus option"
  we_audit :: "'s audit_log option"
  we_defs :: "(string \<times> wf_def) list"

definition new_wf_engine ::
    "'s dal \<Rightarrow> registry \<Rightarrow> 's perm_engine \<Rightarrow> bus option \<Rightarrow> 's audit_log option \<Rightarrow> 's wf_engine" where
  "new_wf_engine D reg p b a =
     \<lparr>we_db = D, we_reg = reg, we_perm = p, we_bus = b, we_audit = a, we_defs = []\<rparr>"

section \<open>Registration\<close>

definition workflow_field :: field where
  "workflow_field = zero_field\<lparr>f_name := ''WorkflowState'', f_db_column := ''workflow_state'',
     f_type := FTString, f_label := ''Workflow State'', f_read_only := True\<rparr>"

definition has_workflow_field :: "compiled_doc \<Rightarrow> bool" where
  "has_workflow_field d =
     list_ex (\<lambda>f. equal_fold (f_db_column f) ''workflow_state'' \<or> equal_fold (f_name f) ''WorkflowState'')
       (d_fields d)"

text \<open>
  The compiled document is shared through a pointer, so the field that \<open>Register\<close> appends appears in
  the registry that every engine reads.
\<close>

definition wf_register :: "wf_def \<Rightarrow> ('s wf_engine, gerror, unit) step" where
  "wf_register w = (\<lambda>en.
     case registry_get (we_reg en) (wd_doc_type w) of
       Inl e \<Rightarrow> (Inl e, en)
     | Inr d \<Rightarrow>
         (let d' = (if has_workflow_field d then d else d\<lparr>d_fields := d_fields d @ [workflow_field]\<rparr>)
          in (Inr (), en\<lparr>we_reg := (we_reg en)\<lparr>rg_docs := AList.update (wd_doc_type w) d' (rg_docs (we_reg en))\<rparr>,
                         we_defs := AList.update (wd_doc_type w) w (we_defs en)\<rparr>)))"

definition wf_doc_types :: "'s wf_engine \<Rightarrow> string list" where
  "wf_doc_types en = sort (map_keys (we_defs en))"

section \<open>Transitions\<close>

definition leaves_from :: "string \<Rightarrow> transition \<Rightarrow> bool" where
  "leaves_from cur t \<longleftrightarrow> equal_fold (tr_from t) cur \<or> tr_from t = [] \<or> tr_from t = ''*''"

definition may_take :: "'s wf_engine \<Rightarrow> ctx \<Rightarrow> string \<Rightarrow> string \<Rightarrow> transition \<Rightarrow> gerror + unit" where
  "may_take en cx dt action t = pe_check_roles (we_perm en) cx dt (''transition:'' @ action) (tr_roles t)"

definition available_transitions :: "'s wf_engine \<Rightarrow> ctx \<Rightarrow> string \<Rightarrow> string \<Rightarrow> transition list" where
  "available_transitions en cx dt cur =
     (case map_of (we_defs en) dt of
        None \<Rightarrow> []
      | Some w \<Rightarrow>
          filter (\<lambda>t. leaves_from cur t \<and> may_take en cx dt (tr_action t) t = Inr ()) (wd_transitions w))"

definition find_transition :: "wf_def \<Rightarrow> string \<Rightarrow> string \<Rightarrow> transition option" where
  "find_transition w cur action =
     find (\<lambda>t. leaves_from cur t \<and> equal_fold (tr_action t) action) (wd_transitions w)"

section \<open>Execution\<close>

definition no_transition :: "string \<Rightarrow> string \<Rightarrow> gerror" where
  "no_transition cur action =
     conflict_err (''no such transition from current state '' @ go_quote cur @ '' for action '' @ go_quote action)"

definition call_optional :: "handler option \<Rightarrow> ctx \<Rightarrow> row \<Rightarrow> gerror + row" where
  "call_optional h cx doc =
     (case h of
        None \<Rightarrow> Inr doc
      | Some f \<Rightarrow> (case f cx doc of (doc', None) \<Rightarrow> Inr doc' | (doc', Some e) \<Rightarrow> Inl e))"

definition wf_emit :: "'s wf_engine \<Rightarrow> ctx \<Rightarrow> string \<Rightarrow> row \<Rightarrow> gerror + row" where
  "wf_emit en cx dt doc =
     (case we_bus en of
        None \<Rightarrow> Inr doc
      | Some b \<Rightarrow> (case bus_emit b cx dt ev_on_workflow doc of
                     (doc', None) \<Rightarrow> Inr doc' | (doc', Some e) \<Rightarrow> Inl e))"

definition wf_audit ::
    "'s wf_engine \<Rightarrow> op_env \<Rightarrow> ctx \<Rightarrow> string \<Rightarrow> string \<Rightarrow> string \<Rightarrow> string \<Rightarrow> ('s, gerror, unit) step" where
  "wf_audit en oe cx dt i cur to_state =
     (case we_audit en of
        None \<Rightarrow> ret ()
      | Some L \<Rightarrow> write_in_tx L (build_entry (oe_audit_id oe) (oe_audit_now oe) cx ''workflow_transition'' dt i
            [\<lparr>fc_field = ''workflow_state'', fc_old = VStr cur, fc_new = VStr to_state\<rparr>]))"

definition transition_row :: "op_env \<Rightarrow> transition \<Rightarrow> row" where
  "transition_row oe t = [(''workflow_state'', VStr (tr_to t)), (''updated_at'', VTime (oe_now oe))]"

definition wf_body ::
    "'s wf_engine \<Rightarrow> op_env \<Rightarrow> ctx \<Rightarrow> wf_def \<Rightarrow> string \<Rightarrow> string \<Rightarrow> string \<Rightarrow> row \<Rightarrow> transition
     \<Rightarrow> ('s, gerror, unit) step" where
  "wf_body en oe cx w dt i cur doc t =
     bind_s (lift_r (call_optional (tr_guard t) cx doc)) (\<lambda>doc.
     bind_s (tx_update (we_db en) dt i (transition_row oe t)) (\<lambda>_.
     bind_s (lift_r (wf_emit en cx dt (overlay doc (transition_row oe t)))) (\<lambda>doc.
     bind_s (lift_r (call_optional (map_of (wd_on w) (tr_to t)) cx doc)) (\<lambda>_.
     wf_audit en oe cx dt i cur (tr_to t)))))"

definition wf_fetch :: "'s wf_engine \<Rightarrow> compiled_doc \<Rightarrow> string \<Rightarrow> string \<Rightarrow> ('s, gerror, row) step" where
  "wf_fetch en d dt i =
     bind_s (dal_query (we_db en) (zero_select\<lparr>s_doc_type := dt, s_table := d_table_name d,
               s_filters := [(''id'', VStr i)]\<rparr>)) (\<lambda>rows.
       case rows of [] \<Rightarrow> fail (record_missing i dt) | r # _ \<Rightarrow> ret r)"

definition wf_execute ::
    "'s wf_engine \<Rightarrow> op_env \<Rightarrow> ctx \<Rightarrow> string \<Rightarrow> string \<Rightarrow> string \<Rightarrow> ('s, gerror, unit) step" where
  "wf_execute en oe cx dt i action =
     (case map_of (we_defs en) dt of
        None \<Rightarrow> fail (not_found_err (''no workflow registered for DocType '' @ go_quote dt))
      | Some w \<Rightarrow>
          bind_s (lift_r (registry_get (we_reg en) dt)) (\<lambda>d.
          bind_s (wf_fetch en d dt i) (\<lambda>doc.
          let cur = str_of (map_of doc ''workflow_state'') in
          case find_transition w cur action of
            None \<Rightarrow> fail (no_transition cur action)
          | Some t \<Rightarrow>
              bind_s (lift_r (may_take en cx dt action t)) (\<lambda>_.
              transaction (we_db en) (wf_body en oe cx w dt i cur doc t)))))"

section \<open>The state machine\<close>

text \<open>One transition that a caller with some set of granted role lists may take.\<close>

inductive wf_step :: "wf_def \<Rightarrow> (transition \<Rightarrow> bool) \<Rightarrow> string \<Rightarrow> string \<Rightarrow> bool" for w ok where
  wf_take: "find_transition w cur action = Some t \<Longrightarrow> ok t \<Longrightarrow> wf_step w ok cur (tr_to t)"

inductive_cases wf_stepE: "wf_step w ok cur nxt"

inductive wf_reach :: "wf_def \<Rightarrow> (transition \<Rightarrow> bool) \<Rightarrow> string \<Rightarrow> string \<Rightarrow> bool" for w ok where
  wf_refl: "wf_reach w ok cur cur"
| wf_trans: "wf_reach w ok cur mid \<Longrightarrow> wf_step w ok mid nxt \<Longrightarrow> wf_reach w ok cur nxt"

lemma find_transition_Some:
  "find_transition w cur action = Some t \<Longrightarrow>
     t \<in> set (wd_transitions w) \<and> leaves_from cur t \<and> equal_fold (tr_action t) action"
  by (auto simp: find_transition_def find_Some_iff)

text \<open>States are declared when every transition ends in one; then no run leaves them.\<close>

definition targets_declared :: "wf_def \<Rightarrow> bool" where
  "targets_declared w \<longleftrightarrow> (\<forall>t \<in> set (wd_transitions w). tr_to t \<in> ws_name ` set (wd_states w))"

lemma wf_reach_declared:
  assumes "targets_declared w" and "wf_reach w ok cur nxt"
  shows "nxt = cur \<or> nxt \<in> ws_name ` set (wd_states w)"
  using assms(2)
proof (induction rule: wf_reach.induct)
  case (wf_trans cur mid nxt)
  then show ?case
    using assms(1) by (auto simp: targets_declared_def elim!: wf_stepE dest!: find_transition_Some)
qed simp

definition final_state :: "wf_def \<Rightarrow> string \<Rightarrow> bool" where
  "final_state w cur = list_all (\<lambda>t. \<not> leaves_from cur t) (wd_transitions w)"

lemma find_transition_final: "final_state w cur \<Longrightarrow> find_transition w cur action = None"
  by (auto simp: final_state_def find_transition_def find_None_iff list_all_iff)

lemma wf_reach_final:
  assumes "final_state w cur" and "wf_reach w ok cur nxt"
  shows "nxt = cur"
  using assms(2,1)
  by (induction rule: wf_reach.induct) (auto elim!: wf_stepE simp: find_transition_final)

section \<open>What an execution does\<close>

lemma wf_fetch_reach: "preserves (read_reach (we_db en)) (wf_fetch en d dt i)"
  unfolding wf_fetch_def
  by (auto intro!: preserves_bind simp: preserves_ret preserves_fail split: list.splits)

definition wf_services_ok :: "'s wf_engine \<Rightarrow> bool" where
  "wf_services_ok en \<longleftrightarrow>
     (\<forall>L e. we_audit en = Some L \<longrightarrow> preserves (tx_reach (we_db en)) (write_in_tx L e))"

lemma wf_audit_reach: "wf_services_ok en \<Longrightarrow> preserves (tx_reach (we_db en)) (wf_audit en oe cx dt i cur x)"
  by (auto simp: wf_audit_def wf_services_ok_def preserves_ret split: option.splits)

lemma wf_body_reach:
  "wf_services_ok en \<Longrightarrow> preserves (tx_reach (we_db en)) (wf_body en oe cx w dt i cur doc t)"
  unfolding wf_body_def
  by (intro preserves_bind preserves_lift wf_audit_reach tx_reach_rel tx_preserves)

lemma failed_execute:
  assumes "rollback_law (we_db en)" and "wf_services_ok en"
    and "wf_execute en oe cx dt i action s = (Inl e, t)"
  shows "read_reach (we_db en) s t"
proof (cases "map_of (we_defs en) dt")
  case None
  with assms(3) show ?thesis by (auto simp: wf_execute_def intro: read_refl)
next
  case (Some w)
  have rest: "(case find_transition w (str_of (map_of doc ''workflow_state'')) action of
        None \<Rightarrow> fail (no_transition (str_of (map_of doc ''workflow_state'')) action)
      | Some tr \<Rightarrow> bind_s (lift_r (may_take en cx dt action tr)) (\<lambda>_.
          transaction (we_db en) (wf_body en oe cx w dt i (str_of (map_of doc ''workflow_state'')) doc tr))) s1
      = (Inl e', t') \<Longrightarrow> read_reach (we_db en) s1 t'" for doc s1 e' t'
    by (auto simp: bind_s_Inl intro: read_refl failed_transaction [OF assms(1) wf_body_reach [OF assms(2)]]
        split: option.splits)
  show ?thesis
    using assms(3) unfolding wf_execute_def Some Let_def option.case
    by (rule failed_bind [rotated -1])
      (erule failed_bind [rotated -1] rest | intro wf_fetch_reach preserves_lift read_reach_rel)+
qed

lemma execute_commits:
  assumes "we_audit en = Some L" and "wf_execute en oe cx dt i action s = (Inr u, t)"
  shows "\<exists>w doc tr s0 s1 s2 s3. map_of (we_defs en) dt = Some w \<and>
    find_transition w (str_of (map_of doc ''workflow_state'')) action = Some tr \<and>
    may_take en cx dt action tr = Inr () \<and> (\<exists>doc'. call_optional (tr_guard tr) cx doc = Inr doc') \<and>
    read_reach (we_db en) s s0 \<and> dal_begin (we_db en) s0 = (Inr (), s1) \<and>
    tx_update (we_db en) dt i (transition_row oe tr) s1 = (Inr (), s2) \<and>
    write_in_tx L (build_entry (oe_audit_id oe) (oe_audit_now oe) cx ''workflow_transition'' dt i
      [\<lparr>fc_field = ''workflow_state'', fc_old = VStr (str_of (map_of doc ''workflow_state'')),
        fc_new = VStr (tr_to tr)\<rparr>]) s2 = (Inr (), s3) \<and>
    dal_commit (we_db en) s3 = (Inr (), t)"
proof -
  obtain w where w: "map_of (we_defs en) dt = Some w"
    using assms(2) by (auto simp: wf_execute_def split: option.splits)
  obtain d doc tr s0 where f: "wf_fetch en d dt i s = (Inr doc, s0)"
    and tr: "find_transition w (str_of (map_of doc ''workflow_state'')) action = Some tr"
    and may: "may_take en cx dt action tr = Inr ()"
    and tx: "transaction (we_db en) (wf_body en oe cx w dt i (str_of (map_of doc ''workflow_state'')) doc tr) s0
      = (Inr (), t)"
    using assms(2) w by (auto simp: wf_execute_def Let_def bind_s_Inr split: option.splits)
  have "read_reach (we_db en) s s0" using wf_fetch_reach f by (rule preserves_run)
  moreover obtain s1 s4 where b: "dal_begin (we_db en) s0 = (Inr (), s1)"
    and body: "wf_body en oe cx w dt i (str_of (map_of doc ''workflow_state'')) doc tr s1 = (Inr (), s4)"
    and c: "dal_commit (we_db en) s4 = (Inr (), t)"
    using tx by (auto simp: transaction_Inr)
  moreover obtain doc' s2 where "call_optional (tr_guard tr) cx doc = Inr doc'"
    "tx_update (we_db en) dt i (transition_row oe tr) s1 = (Inr (), s2)"
    "wf_audit en oe cx dt i (str_of (map_of doc ''workflow_state'')) (tr_to tr) s2 = (Inr (), s4)"
    using body by (auto simp: wf_body_def bind_s_Inr)
  moreover from this(3) assms(1)
  have "write_in_tx L (build_entry (oe_audit_id oe) (oe_audit_now oe) cx ''workflow_transition'' dt i
      [\<lparr>fc_field = ''workflow_state'', fc_old = VStr (str_of (map_of doc ''workflow_state'')),
        fc_new = VStr (tr_to tr)\<rparr>]) s2 = (Inr (), s4)"
    by (simp add: wf_audit_def)
  ultimately show ?thesis using w tr may by blast
qed

section \<open>A site with a workflow\<close>

definition site_wf ::
    "'s sql_engine \<Rightarrow> (nat \<Rightarrow> string) \<Rightarrow> (audit_entry \<Rightarrow> row) \<Rightarrow> 's dal \<Rightarrow> registry \<Rightarrow> perm_rule list \<Rightarrow> bus
     \<Rightarrow> (string \<times> wf_def) list \<Rightarrow> 's wf_engine" where
  "site_wf E ph to_row D reg rules b defs =
     \<lparr>we_db = D, we_reg = reg,
      we_perm = perm_engine \<lparr>pf_reg = reg, pf_db = Some D, pf_rules = rules\<rparr>,
      we_bus = Some b, we_audit = Some (db_audit_log E D ph to_row), we_defs = defs\<rparr>"

lemma site_wf_simps [simp]:
  "we_db (site_wf E ph to_row D reg rules b defs) = D"
  "we_audit (site_wf E ph to_row D reg rules b defs) = Some (db_audit_log E D ph to_row)"
  "we_defs (site_wf E ph to_row D reg rules b defs) = defs"
  "may_take (site_wf E ph to_row D reg rules b defs) cx dt action t =
     check_roles cx dt (''transition:'' @ action) (tr_roles t)"
  by (simp_all add: site_wf_def may_take_def perm_engine_def)

lemma site_wf_ok: "wf_services_ok (site_wf E ph to_row D reg rules b defs)"
  by (auto simp: wf_services_ok_def write_in_tx_def db_audit_log_def intro: db_log.write_in_reach)

definition demo_flow :: wf_def where
  "demo_flow = \<lparr>wd_doc_type = ''Task'',
     wd_states = [\<lparr>ws_name = ''Open'', ws_style = []\<rparr>, \<lparr>ws_name = ''Done'', ws_style = []\<rparr>],
     wd_transitions = [\<lparr>tr_from = ''Open'', tr_to = ''Done'', tr_action = ''Finish'',
                        tr_roles = [''User''], tr_guard = None\<rparr>],
     wd_on = []\<rparr>"

definition flow_answers :: answers where
  "flow_answers log q args =
     Inr \<lparr>sr_cols = [''id'', ''workflow_state''], sr_rows = [[SqlBytes ''t1'', SqlBytes ''open'']], sr_err = None\<rparr>"

definition flow_sql :: "(string \<Rightarrow> val list \<Rightarrow> gerror + int) \<Rightarrow> journal sql_engine" where
  "flow_sql ex = journal_engine flow_answers ex"

definition flow_db :: "(string \<Rightarrow> val list \<Rightarrow> gerror + int) \<Rightarrow> journal dal" where
  "flow_db ex = database (flow_sql ex) (sqlite_driver itoa) itoa demo_conf (\<lambda>r. ''fresh'')"

definition flow_site :: "(string \<Rightarrow> val list \<Rightarrow> gerror + int) \<Rightarrow> journal wf_engine" where
  "flow_site ex =
     site_wf (flow_sql ex) sqlite_placeholder (entry_row itoa ''a0'' 1 ''sqlite'') (flow_db ex) demo_reg [] []
       [(''Task'', demo_flow)]"

section \<open>Properties\<close>



text \<open>A failing \<open>Execute\<close> (unknown workflow or record, no transition, role, guard, event, handler, audit
  or commit) has only read the database: the state of the record did not move.\<close>

theorem failed_execute_only_reads:
  assumes "engine_law E" and "D = database E drv tf c fresh"
    and "en = site_wf E ph to_row D reg rules b defs"
    and "wf_execute en oe cx dt i action s = (Inl e, t)"
  shows "read_reach D s t"
proof -
  have "rollback_law (we_db en)" using database_rollback_law [OF assms(1)] by (simp add: assms)
  moreover have "wf_services_ok en" unfolding assms(3) by (rule site_wf_ok)
  ultimately show ?thesis using failed_execute [OF _ _ assms(4)] by (simp add: assms(3))
qed

theorem failed_execute_only_reads_witness:
  "\<exists>e t. wf_execute (flow_site exec_no_audit) demo_env demo_user ''Task'' ''t1'' ''Finish'' empty_journal = (Inl e, t) \<and>
     read_reach (flow_db exec_no_audit) empty_journal t"
proof -
  let ?r = "wf_execute (flow_site exec_no_audit) demo_env demo_user ''Task'' ''t1'' ''Finish'' empty_journal"
  have "fst ?r = Inl (internal_err ''insert failed'' (Some (StdError ''disk full'' None)))" by code_simp
  then have r: "?r = (Inl (internal_err ''insert failed'' (Some (StdError ''disk full'' None))), snd ?r)"
    by (simp add: prod_eq_iff)
  have "engine_law (flow_sql exec_no_audit)" unfolding flow_sql_def by (rule journal_engine_law)
  from failed_execute_only_reads [OF this flow_db_def flow_site_def r] r show ?thesis by blast
qed

text \<open>In a workflow whose transitions end in declared states, no run of transitions leaves them, and a
  state that no transition leaves is final: every run stays there and \<open>Execute\<close> answers with a conflict.\<close>

theorem workflow_states:
  assumes "targets_declared w" and "wf_reach w ok cur nxt"
  shows "(nxt = cur \<or> nxt \<in> ws_name ` set (wd_states w)) \<and>
    (final_state w cur \<longrightarrow> nxt = cur \<and> find_transition w cur action = None)"
  using wf_reach_declared [OF assms] wf_reach_final [OF _ assms(2)] by (auto simp: find_transition_final)

theorem workflow_states_witness:
  "final_state demo_flow ''Done'' \<and> find_transition demo_flow ''Done'' ''Finish'' = None"
proof -
  have "targets_declared demo_flow" by (simp add: targets_declared_def demo_flow_def)
  moreover have "final_state demo_flow ''Done''" by code_simp
  ultimately show ?thesis
    using workflow_states [of demo_flow "\<lambda>t. True" "''Done''" "''Done''" "''Finish''"] wf_refl by blast
qed

text \<open>What the user is offered can be done: when the caller is offered a transition and it is the first one
  that its state and action select, \<open>Execute\<close> finds that transition and its role check passes.\<close>

theorem offered_is_executable:
  assumes "en = site_wf E ph to_row D reg rules b defs" and "map_of defs dt = Some w"
    and "t \<in> set (available_transitions en cx dt cur)"
    and "\<And>t'. t' \<in> set (wd_transitions w) \<Longrightarrow> leaves_from cur t' \<Longrightarrow> equal_fold (tr_action t') (tr_action t) \<Longrightarrow> t' = t"
  shows "find_transition w cur (tr_action t) = Some t \<and> may_take en cx dt (tr_action t) t = Inr ()"
proof -
  have t: "t \<in> set (wd_transitions w)" "leaves_from cur t" "may_take en cx dt (tr_action t) t = Inr ()"
    using assms(1,2,3) by (auto simp: available_transitions_def)
  have "find_transition w cur (tr_action t) \<noteq> None"
    using t by (auto simp: find_transition_def find_None_iff)
  then obtain t' where t': "find_transition w cur (tr_action t) = Some t'" by blast
  with find_transition_Some [OF t'] assms(4) t show ?thesis by auto
qed

theorem offered_is_executable_witness:
  "find_transition demo_flow ''Open'' ''Finish'' = Some (hd (wd_transitions demo_flow))"
proof -
  have o: "available_transitions (flow_site exec_ok) demo_user ''Task'' ''Open'' = wd_transitions demo_flow"
    by (simp add: available_transitions_def flow_site_def demo_flow_def leaves_from_def check_roles_def
        has_role_def demo_user_def)
  have "map_of [(''Task'', demo_flow)] ''Task'' = Some demo_flow" by simp
  moreover have "hd (wd_transitions demo_flow) \<in> set (wd_transitions demo_flow)"
    "tr_action (hd (wd_transitions demo_flow)) = ''Finish''"
    by (simp_all add: demo_flow_def)
  moreover have "t' = hd (wd_transitions demo_flow)" if "t' \<in> set (wd_transitions demo_flow)" for t'
    using that by (simp add: demo_flow_def)
  ultimately show ?thesis
    using offered_is_executable [OF flow_site_def, of "''Task''" demo_flow "hd (wd_transitions demo_flow)" exec_ok
        demo_user "''Open''"] o by metis
qed

end
