(* ===== verification/Tools.thy ===== *)
theory Tools
  imports Json Workflow Gateway
begin

text \<open>
  The registry of RPC methods (\<open>api/rpc/rpc.go\<close>) and the agent's tool registry
  (\<open>agent/tools/tools.go\<close>): one set of templates per document type and role-gated method, generated
  once, and their projection to what an identity may use and see.
\<close>

section \<open>RPC methods\<close>

text \<open>
  What a tool or method returns: nothing, a value, a list of records, or the relationships of the
  schema registry, which keep their own Go type.
\<close>

datatype tool_result =
    ResNil
  | ResVal val
  | ResRecords "row list"
  | ResRelations "relationship list"

type_synonym 's method_handler = "ctx \<Rightarrow> row \<Rightarrow> ('s, gerror, tool_result) step"

record 's rpc_method =
  rm_name :: string
  rm_handler :: "'s method_handler option"
  rm_roles :: "string list"
  rm_http :: string

type_synonym 's rpc_registry = "(string \<times> 's rpc_method) list"

definition rpc_register ::
    "string \<Rightarrow> 's method_handler option \<Rightarrow> string list \<Rightarrow> string \<Rightarrow> 's rpc_registry \<Rightarrow> 's rpc_registry" where
  "rpc_register name h roles verb reg =
     AList.update name \<lparr>rm_name = name, rm_handler = h, rm_roles = roles,
       rm_http = (if verb = [] then ''POST'' else verb)\<rparr> reg"

definition rpc_get :: "'s rpc_registry \<Rightarrow> string \<Rightarrow> 's rpc_method option" where
  "rpc_get reg name = map_of reg name"

definition rpc_methods :: "'s rpc_registry \<Rightarrow> 's rpc_method list" where
  "rpc_methods reg = map snd reg"

section \<open>Tools and templates\<close>

record 's custom_tool =
  ct_name :: string
  ct_description :: string
  ct_parameters :: row
  ct_roles :: "string list"
  ct_handler :: "'s method_handler option"

definition register_custom_tool :: "'s custom_tool \<Rightarrow> 's custom_tool list \<Rightarrow> 's custom_tool list" where
  "register_custom_tool t ts = ts @ [t]"

record tool_template =
  tt_doc_type :: string
  tt_verb :: string
  tt_name :: string
  tt_schema :: row
  tt_gated :: "string list"
  tt_description :: string
  tt_roles :: "string list"

text \<open>\<open>tr_ready\<close> is the latch that \<open>Compile\<close> closes.\<close>

record 's tool_registry =
  tg_perm :: "'s perm_engine"
  tg_workflow :: "'s wf_engine option"
  tg_ready :: bool
  tg_templates :: "tool_template list"

definition new_tool_registry :: "'s perm_engine \<Rightarrow> 's wf_engine option \<Rightarrow> 's tool_registry" where
  "new_tool_registry p w = \<lparr>tg_perm = p, tg_workflow = w, tg_ready = False, tg_templates = []\<rparr>"

section \<open>Schemas\<close>

definition object_schema :: "row \<Rightarrow> string list \<Rightarrow> row" where
  "object_schema props required =
     [(''type'', VStr ''object''), (''properties'', VMap props), (''required'', VList (map VStr required))]"

definition base_field_name :: "string \<Rightarrow> bool" where
  "base_field_name n \<longleftrightarrow>
     n \<in> {''ID'', ''Name'', ''Owner'', ''CreatedAt'', ''UpdatedAt'', ''ModifiedBy'', ''DocStatus'', ''Deleted''}"

definition child_auto_name :: "string \<Rightarrow> bool" where
  "child_auto_name n \<longleftrightarrow> n \<in> {''ID'', ''ParentID'', ''Idx''}"

fun field_json_type :: "field_type \<Rightarrow> string" where
  "field_json_type FTInt = ''integer''"
| "field_json_type FTInt64 = ''integer''"
| "field_json_type FTFloat64 = ''number''"
| "field_json_type FTCurrency = ''number''"
| "field_json_type FTBool = ''boolean''"
| "field_json_type FTJSON = ''object''"
| "field_json_type t = ''string''"

definition put_str :: "string \<Rightarrow> string \<Rightarrow> row \<Rightarrow> row" where
  "put_str k s m = (if s = [] then m else AList.update k (VStr s) m)"

definition field_description :: "field \<Rightarrow> string" where
  "field_description f =
     (if f_type f = FTLink then ''Reference to a '' @ f_link_target f @ '' document'' else f_label f) @
     (if f_required f \<and> f_unique f then '' (required, must be unique)''
      else if f_required f then '' (required)''
      else if f_unique f then '', must be unique'' else []) @
     (if f_agent_hint f = [] then [] else '' '' @ f_agent_hint f)"

definition field_schema :: "field \<Rightarrow> row" where
  "field_schema f =
     (let m = [(''type'', VStr (field_json_type (f_type f)))];
          m = (if f_type f = FTDate then AList.update ''format'' (VStr ''date'') m
               else if f_type f = FTDateTime then AList.update ''format'' (VStr ''date-time'') m else m);
          m = (if f_options f = [] then m else AList.update ''enum'' (VStrs (f_options f)) m);
          m = put_str ''default'' (f_default f) m;
          m = put_str ''format'' (f_format f) m
      in AList.update ''description'' (VStr (field_description f)) m)"

definition child_table_schema :: "compiled_child \<Rightarrow> row" where
  "child_table_schema c =
     [(''type'', VStr ''array''),
      (''items'', VMap [(''type'', VStr ''object''),
         (''properties'', VMap (fold (\<lambda>f m.
            if child_auto_name (f_name f) \<or> f_agent_hidden f \<or> f_computed f then m
            else AList.update (snake_case (f_name f)) (VMap (field_schema f)) m) (cc_fields c) []))])]"

definition payload_field :: "bool \<Rightarrow> field \<Rightarrow> bool" where
  "payload_field on_update f \<longleftrightarrow>
     \<not> (base_field_name (f_name f) \<or> f_agent_hidden f \<or> f_computed f) \<and> \<not> (on_update \<and> f_read_only f)"

definition payload_props :: "compiled_doc \<Rightarrow> bool \<Rightarrow> row" where
  "payload_props d on_update =
     fold (\<lambda>c m. AList.update (snake_case (cc_field_name c)) (VMap (child_table_schema c)) m) (d_child_tables d)
       (fold (\<lambda>f m. AList.update (snake_case (f_name f)) (VMap (field_schema f)) m)
          (filter (payload_field on_update) (d_fields d)) [])"

definition payload_required :: "compiled_doc \<Rightarrow> bool \<Rightarrow> string list" where
  "payload_required d on_update =
     map (\<lambda>f. snake_case (f_name f))
       (filter (\<lambda>f. payload_field on_update f \<and> f_required f \<and> \<not> f_hidden f) (d_fields d))"

definition build_payload_schema :: "compiled_doc \<Rightarrow> bool \<Rightarrow> row" where
  "build_payload_schema d on_update = object_schema (payload_props d on_update) (payload_required d on_update)"

definition gated_fields :: "compiled_doc \<Rightarrow> string list" where
  "gated_fields d = map f_name (filter (\<lambda>f. f_permission_role f \<noteq> []) (d_fields d))"

definition any_permission :: "compiled_doc \<Rightarrow> string \<Rightarrow> bool" where
  "any_permission d action =
     list_ex (\<lambda>p. (action = ''create'' \<and> p_create p) \<or> (action = ''write'' \<and> p_write p) \<or>
                  (action = ''delete'' \<and> p_delete p)) (d_permissions d)"

definition prop_schema :: "string \<Rightarrow> string \<Rightarrow> row \<Rightarrow> val" where
  "prop_schema typ desc extra = VMap ([(''type'', VStr typ), (''description'', VStr desc)] @ extra)"

definition id_schema :: "compiled_doc \<Rightarrow> row" where
  "id_schema d = object_schema
     [(''id'', prop_schema ''string'' (''ID of the '' @ d_name d @ '' record'') [])] [''id'']"

section \<open>Compile\<close>

definition doc_has_workflow :: "'s tool_registry \<Rightarrow> string \<Rightarrow> bool" where
  "doc_has_workflow T dt =
     (case tg_workflow T of None \<Rightarrow> False | Some w \<Rightarrow> list_ex (\<lambda>x. x = dt) (wf_doc_types w))"

definition doc_template :: "compiled_doc \<Rightarrow> string \<Rightarrow> string \<Rightarrow> string \<Rightarrow> row \<Rightarrow> string list \<Rightarrow> tool_template" where
  "doc_template d verb prefix desc sch gated =
     \<lparr>tt_doc_type = d_name d, tt_verb = verb, tt_name = prefix @ snake_case (d_name d), tt_schema = sch,
      tt_gated = gated, tt_description = desc, tt_roles = []\<rparr>"

definition generate_doc_templates :: "'s tool_registry \<Rightarrow> compiled_doc \<Rightarrow> tool_template list" where
  "generate_doc_templates T d =
     (if d_searchable d
      then [doc_template d ''search'' ''search_'' (''Search '' @ d_name d @ '' records.'')
              (object_schema [(''query'', prop_schema ''string'' ''Full-text search query'' []),
                 (''limit'', prop_schema ''integer'' ''Maximum number of results'' [(''default'', VInt 50)])] [''query'']) []]
      else []) @
     [doc_template d ''list'' ''list_'' (''List '' @ d_name d @ '' records.'')
        [(''type'', VStr ''object''),
         (''properties'', VMap [(''page'', prop_schema ''integer'' ''Page number'' [(''default'', VInt 1)]),
            (''limit'', prop_schema ''integer'' ''Records per page'' [(''default'', VInt 50)])])] [],
      doc_template d ''read'' ''get_'' (''Get a '' @ d_name d @ '' record by ID.'') (id_schema d) []] @
     (if any_permission d ''create''
      then [doc_template d ''create'' ''create_'' (''Create a new '' @ d_name d @ '' record. '' @ d_description d)
              (build_payload_schema d False) (gated_fields d)] else []) @
     (if any_permission d ''write''
      then [doc_template d ''update'' ''update_'' (''Update an existing '' @ d_name d @ '' record. '' @ d_description d)
              (build_payload_schema d True) (gated_fields d)] else []) @
     (if any_permission d ''delete''
      then [doc_template d ''delete'' ''delete_'' (''Delete a '' @ d_name d @ '' record.'') (id_schema d) []] else []) @
     (if doc_has_workflow T (d_name d)
      then [doc_template d ''execute_action'' ''execute_action_'' (''Execute a workflow action on a '' @ d_name d @ '' record.'')
              (object_schema [(''id'', prop_schema ''string'' (''ID of the '' @ d_name d @ '' record'') []),
                 (''action'', prop_schema ''string'' ''Workflow action to execute'' [(''enum'', VList [])])] [''id'', ''action'']) []]
      else [])"

definition dots_to_underscores :: "string \<Rightarrow> string" where
  "dots_to_underscores s = map (\<lambda>c. if c = CHR ''.'' then CHR ''_'' else c) s"

text \<open>The gated methods by tool name: the names in the iteration order of the method registry (sorted
  afterwards) and the roles of each name, the last method of a name winning.\<close>

definition gated_methods :: "'s rpc_registry \<Rightarrow> 's rpc_method list" where
  "gated_methods rpc = filter (\<lambda>m. rm_roles m \<noteq> []) (rpc_methods rpc)"

definition method_roles :: "'s rpc_registry \<Rightarrow> (string \<times> string list) list" where
  "method_roles rpc =
     fold (\<lambda>m acc. AList.update (dots_to_underscores (rm_name m)) (rm_roles m) acc) (gated_methods rpc) []"

definition method_template :: "(string \<times> string list) list \<Rightarrow> string \<Rightarrow> tool_template" where
  "method_template roles name =
     \<lparr>tt_doc_type = [], tt_verb = ''method'', tt_name = name,
      tt_schema = [(''type'', VStr ''object''), (''properties'', VMap [])], tt_gated = [],
      tt_description = ''Call the '' @ name @ '' custom RPC method.'',
      tt_roles = (case map_of roles name of Some r \<Rightarrow> r | None \<Rightarrow> [])\<rparr>"

definition tools_compile ::
    "'s rpc_registry \<Rightarrow> registry \<Rightarrow> 's tool_registry \<Rightarrow> (gerror + unit) \<times> 's tool_registry" where
  "tools_compile rpc reg T =
     (if tg_ready T then (Inl (conflict_err ''tool registry already compiled''), T)
      else (Inr (), T\<lparr>tg_ready := True,
        tg_templates := tg_templates T @
          concat (map (generate_doc_templates T) (filter (\<lambda>d. \<not> d_agent_hidden d) (registry_list reg))) @
          map (method_template (method_roles rpc))
            (sort (map (\<lambda>m. dots_to_underscores (rm_name m)) (gated_methods rpc)))\<rparr>))"

section \<open>Projection\<close>

definition passes :: "gerror + unit \<Rightarrow> bool" where
  "passes r = (case r of Inl _ \<Rightarrow> False | Inr _ \<Rightarrow> True)"

definition document_verb :: "string \<Rightarrow> bool" where
  "document_verb v \<longleftrightarrow> v \<in> {''create'', ''update'', ''delete'', ''search'', ''list'', ''read''}"

definition tool_action :: "string \<Rightarrow> string" where
  "tool_action v = (if v \<in> {''search'', ''list'', ''read''} then ''read'' else v)"

definition identity_may_use :: "'s tool_registry \<Rightarrow> ctx \<Rightarrow> tool_template \<Rightarrow> 's \<Rightarrow> bool \<times> 's" where
  "identity_may_use T cx t s =
     (if tt_roles t \<noteq> []
      then (passes (pe_check_roles (tg_perm T) cx (''method:'' @ tt_name t) ''call'' (tt_roles t)), s)
      else if document_verb (tt_verb t)
      then (let (r, s') = pe_check_action (tg_perm T) cx (tt_doc_type t) (tool_action (tt_verb t)) s
            in (passes r, s'))
      else (True, s))"

text \<open>
  \<open>deepCopySchema\<close>: what a JSON round trip makes of a schema. String slices become \<open>[]any\<close> and integers
  floats; schemas hold no times.
\<close>

definition deep_copy_schema :: "row \<Rightarrow> row" where
  "deep_copy_schema m = json_copy_kvs m"

definition map_value :: "val option \<Rightarrow> row" where
  "map_value v = (case v of Some (VMap m) \<Rightarrow> m | _ \<Rightarrow> [])"

definition list_value :: "val option \<Rightarrow> val list" where
  "list_value v = (case v of Some (VList xs) \<Rightarrow> xs | _ \<Rightarrow> [])"

definition allowed_fields_for :: "'s tool_registry \<Rightarrow> ctx \<Rightarrow> tool_template \<Rightarrow> gerror + string list" where
  "allowed_fields_for T cx t = pe_allowed_fields (tg_perm T) cx (tt_doc_type t)"

definition project_schema :: "'s tool_registry \<Rightarrow> ctx \<Rightarrow> tool_template \<Rightarrow> row" where
  "project_schema T cx t =
     (if tt_gated t = [] then tt_schema t
      else case allowed_fields_for T cx t of
             Inl _ \<Rightarrow> tt_schema t
           | Inr allowed \<Rightarrow>
               (let copied = deep_copy_schema (tt_schema t);
                    denied = filter (\<lambda>g. g \<notin> set allowed) (tt_gated t);
                    props = fold (\<lambda>g m. AList.delete (snake_case g) m) denied (map_value (map_of copied ''properties''));
                    required = fold (\<lambda>g xs. remove1 (VStr (snake_case g)) xs) denied
                                 (list_value (map_of copied ''required''))
                in AList.update ''required'' (VList required)
                     (AList.update ''properties'' (VMap props) copied)))"

definition discovery_tools :: "tool_definition list" where
  "discovery_tools =
     [\<lparr>td_name = ''list_document_types'',
       td_description = ''List all Document types registered in the system, optionally filtered by module. '' @
         ''Use describe_document on a Document type to activate its operation tools.'',
       td_parameters = [(''type'', VStr ''object''),
         (''properties'', VMap [(''module'', prop_schema ''string'' ''Optional module name to filter by'' [])])]\<rparr>,
      \<lparr>td_name = ''describe_document'',
       td_description = ''Describe a Document type's fields, permissions, and relationships. '' @
         ''Describing a Document type activates its operation tools (list, get, search, create, update, delete, '' @
         ''execute_action) for this conversation.'',
       td_parameters = object_schema [(''doc_type'', prop_schema ''string'' ''The Document type name'' [])] [''doc_type'']\<rparr>,
      \<lparr>td_name = ''list_relationships'',
       td_description = ''List the relationships (links and child tables) of a Document type.'',
       td_parameters = object_schema [(''doc_type'', prop_schema ''string'' ''The Document type name'' [])] [''doc_type'']\<rparr>]"

definition template_tool :: "'s tool_registry \<Rightarrow> ctx \<Rightarrow> tool_template \<Rightarrow> tool_definition" where
  "template_tool T cx t =
     \<lparr>td_name = tt_name t, td_description = tt_description t, td_parameters = project_schema T cx t\<rparr>"

fun usable_tools :: "'s tool_registry \<Rightarrow> ctx \<Rightarrow> tool_template list \<Rightarrow> 's \<Rightarrow> tool_definition list \<times> 's" where
  "usable_tools T cx [] s = ([], s)"
| "usable_tools T cx (t # ts) s =
     (let (ok, s') = identity_may_use T cx t s;
          (ds, s'') = usable_tools T cx ts s'
      in (if ok then template_tool T cx t # ds else ds, s''))"

definition custom_definitions :: "'s tool_registry \<Rightarrow> ctx \<Rightarrow> 's custom_tool list \<Rightarrow> tool_definition list" where
  "custom_definitions T cx cs =
     map (\<lambda>c. \<lparr>td_name = ct_name c, td_description = ct_description c, td_parameters = ct_parameters c\<rparr>)
       (filter (\<lambda>c. passes (pe_check_roles (tg_perm T) cx (''custom:'' @ ct_name c) ''call'' (ct_roles c))) cs)"

definition for_identity ::
    "'s tool_registry \<Rightarrow> 's custom_tool list \<Rightarrow> ctx \<Rightarrow> identity \<Rightarrow> 's \<Rightarrow> tool_definition list \<times> 's" where
  "for_identity T customs cx i s =
     (if \<not> tg_ready T then ([], s)
      else let cx = auth_new_context cx i;
               (ds, s') = usable_tools T cx (tg_templates T) s
           in (discovery_tools @ ds @ custom_definitions T cx customs, s'))"

section \<open>What the schemas hold\<close>

lemma fold_update_keys:
  "map_of (fold (\<lambda>x m. AList.update (key x) (v x) m) xs m) k \<noteq> None \<longleftrightarrow> k \<in> key ` set xs \<or> map_of m k \<noteq> None"
  by (induction xs arbitrary: m) (auto simp: map_of_update)

lemma payload_props_keys:
  "map_of (payload_props d u) k \<noteq> None \<longleftrightarrow>
     (\<exists>f \<in> set (d_fields d). payload_field u f \<and> k = snake_case (f_name f)) \<or>
     (\<exists>c \<in> set (d_child_tables d). k = snake_case (cc_field_name c))"
  unfolding payload_props_def fold_update_keys by auto

definition schema_props :: "row \<Rightarrow> row" where
  "schema_props sch = map_value (map_of sch ''properties'')"

definition schema_required :: "row \<Rightarrow> val list" where
  "schema_required sch = list_value (map_of sch ''required'')"

lemma object_schema_simps [simp]:
  "schema_props (object_schema ps rs) = ps" "schema_required (object_schema ps rs) = map VStr rs"
  by (simp_all add: schema_props_def schema_required_def object_schema_def map_value_def list_value_def)

text \<open>the create and update schemas of a document have exactly the parameters of its own fields that the
  agent may set, not the system-managed, hidden-from-agents and computed ones nor, on update, the read-only
  ones, and of its child tables; required are exactly the required ones of these that are not hidden.\<close>

theorem payload_schema_exact:
  "(map_of (schema_props (build_payload_schema d u)) k \<noteq> None \<longleftrightarrow>
      (\<exists>f \<in> set (d_fields d). k = snake_case (f_name f) \<and> \<not> base_field_name (f_name f) \<and>
         \<not> f_agent_hidden f \<and> \<not> f_computed f \<and> \<not> (u \<and> f_read_only f)) \<or>
      (\<exists>c \<in> set (d_child_tables d). k = snake_case (cc_field_name c))) \<and>
   (VStr k \<in> set (schema_required (build_payload_schema d u)) \<longleftrightarrow>
      (\<exists>f \<in> set (d_fields d). k = snake_case (f_name f) \<and> f_required f \<and> \<not> f_hidden f \<and>
         \<not> base_field_name (f_name f) \<and> \<not> f_agent_hidden f \<and> \<not> f_computed f \<and> \<not> (u \<and> f_read_only f)))"
  unfolding build_payload_schema_def object_schema_simps payload_props_keys
  by (auto simp: payload_required_def payload_field_def)

section \<open>Projection\<close>

lemma map_of_fold_delete: "map_of (fold (\<lambda>g m. AList.delete (key g) m) gs m) k = (if k \<in> key ` set gs then None else map_of m k)"
  by (induction gs arbitrary: m) (auto simp: map_of_delete)

lemma project_object:
  assumes "tt_schema t = object_schema ps rs" and "tt_gated t \<noteq> []" and "allowed_fields_for T cx t = Inr allowed"
  shows "schema_props (project_schema T cx t) =
      fold (\<lambda>g m. AList.delete (snake_case g) m) (filter (\<lambda>g. g \<notin> set allowed) (tt_gated t)) (json_copy_kvs ps)"
    and "schema_required (project_schema T cx t) =
      fold (\<lambda>g xs. remove1 (VStr (snake_case g)) xs) (filter (\<lambda>g. g \<notin> set allowed) (tt_gated t)) (map VStr rs)"
  using assms
  by (simp_all add: project_schema_def schema_props_def schema_required_def Let_def map_of_update
      deep_copy_schema_def map_of_json_copy object_schema_def map_value_def list_value_def json_copies_strings)

lemma fold_remove1_notin:
  "distinct xs \<Longrightarrow> g \<in> set gs \<Longrightarrow> key g \<notin> set (fold (\<lambda>g xs. remove1 (key g) xs) gs xs)"
proof (induction gs arbitrary: xs)
  case (Cons h gs)
  have sub: "set (fold (\<lambda>g xs. remove1 (key g) xs) gs ys) \<subseteq> set ys" for ys
  proof (induction gs arbitrary: ys)
    case (Cons a gs)
    have "set (remove1 (key a) ys) \<subseteq> set ys" by (rule set_remove1_subset)
    then show ?case using Cons.IH [of "remove1 (key a) ys"] by (simp only: fold_Cons o_apply)
  qed simp
  show ?case
  proof (cases "g \<in> set gs")
    case True
    then show ?thesis using Cons by simp
  next
    case False
    then have "g = h" using Cons.prems by simp
    then have "key g \<notin> set (remove1 (key h) xs)" using Cons.prems by simp
    then show ?thesis using sub [of "remove1 (key h) xs"] by auto
  qed
qed simp

text \<open>The template of a create or update tool, as \<open>generateDocTemplates\<close> emits it.\<close>

definition payload_template :: "compiled_doc \<Rightarrow> bool \<Rightarrow> tool_template" where
  "payload_template d u =
     (if u then doc_template d ''update'' ''update_'' (''Update an existing '' @ d_name d @ '' record. '' @ d_description d)
              (build_payload_schema d True) (gated_fields d)
      else doc_template d ''create'' ''create_'' (''Create a new '' @ d_name d @ '' record. '' @ d_description d)
              (build_payload_schema d False) (gated_fields d))"

lemma payload_template_simps [simp]:
  "tt_schema (payload_template d u) = build_payload_schema d u" "tt_gated (payload_template d u) = gated_fields d"
  "tt_doc_type (payload_template d u) = d_name d"
  by (simp_all add: payload_template_def doc_template_def)

lemma payload_template_generated:
  "any_permission d ''create'' \<Longrightarrow> payload_template d False \<in> set (generate_doc_templates T d)"
  "any_permission d ''write'' \<Longrightarrow> payload_template d True \<in> set (generate_doc_templates T d)"
  by (simp_all add: generate_doc_templates_def payload_template_def)

text \<open>C34: a caller's create and update tools never mention a field that is locked for them: neither as a
  parameter nor as a required one, while every other parameter stays as the schema has it.\<close>

theorem projection_hides_locked:
  assumes "registry_get (pf_reg p) (d_name d) = Inr d" and "tg_perm T = perm_engine p"
    and "distinct (map f_name (d_fields d))" and "distinct (payload_required d u)"
    and "f \<in> set (d_fields d)" and "field_locked (auth_from_context cx) f"
  shows "map_of (schema_props (project_schema T cx (payload_template d u))) (snake_case (f_name f)) = None \<and>
    VStr (snake_case (f_name f)) \<notin> set (schema_required (project_schema T cx (payload_template d u))) \<and>
    (\<forall>k. k \<notin> snake_case ` f_name ` {g \<in> set (d_fields d). field_locked (auth_from_context cx) g} \<longrightarrow>
      map_of (schema_props (project_schema T cx (payload_template d u))) k =
        map_option json_copy (map_of (schema_props (build_payload_schema d u)) k))"
proof -
  let ?i = "auth_from_context cx"
  let ?allowed = "map f_name (filter (\<lambda>f. \<not> field_locked ?i f) (d_fields d))"
  have al: "allowed_fields_for T cx (payload_template d u) = Inr ?allowed"
    using assms(1,2) by (simp add: allowed_fields_for_def perm_engine_def allowed_fields_def)
  have gated: "f_name f \<in> set (gated_fields d)" using assms(5,6) by (auto simp: gated_fields_def field_locked_def)
  have inj: "f' = g" if "f' \<in> set (d_fields d)" "g \<in> set (d_fields d)" "f_name f' = f_name g" for f' g
    using assms(3) that by (auto simp: distinct_map inj_on_def)
  have denied: "g \<in> set (filter (\<lambda>g. g \<notin> set ?allowed) (gated_fields d)) \<longleftrightarrow>
      g \<in> f_name ` {h \<in> set (d_fields d). field_locked ?i h}" for g
    using inj by (auto simp: gated_fields_def field_locked_def)
  have "f_name f \<in> set (filter (\<lambda>g. g \<notin> set ?allowed) (gated_fields d))"
    unfolding denied using assms(5,6) by blast
  note in_denied = this
  have "tt_gated (payload_template d u) \<noteq> []" using gated by auto
  note proj = project_object [OF _ this al, of "payload_props d u" "payload_required d u",
      simplified payload_template_simps build_payload_schema_def, OF refl, folded build_payload_schema_def]
  have keys: "snake_case ` set (filter (\<lambda>g. g \<notin> set ?allowed) (gated_fields d)) =
      snake_case ` f_name ` {h \<in> set (d_fields d). field_locked ?i h}"
    using denied by blast
  have "VStr (snake_case (f_name f)) \<notin> set (schema_required (project_schema T cx (payload_template d u)))"
    unfolding proj(2) using assms(4) in_denied
    by (intro fold_remove1_notin [where key = "\<lambda>g. VStr (snake_case g)"]) (auto simp: distinct_map inj_on_def)
  then show ?thesis
    unfolding proj(1) map_of_fold_delete keys map_of_json_copy using assms(5,6)
    by (auto simp: build_payload_schema_def)
qed

definition demo_tools :: "unit tool_registry" where
  "demo_tools = snd (tools_compile [] gate_reg (new_tool_registry (perm_engine (new_perm gate_reg)) None))"

theorem projection_hides_locked_witness:
  "map_of (schema_props (project_schema demo_tools gate_user (payload_template gate_doc False))) ''cost'' = None"
proof -
  let ?f = "hd (d_fields gate_doc)"
  have "map_of (schema_props (project_schema demo_tools gate_user (payload_template gate_doc False))) (snake_case (f_name ?f)) = None"
  proof (rule conjunct1 [OF projection_hides_locked [where p = "new_perm gate_reg"]])
    show "registry_get (pf_reg (new_perm gate_reg)) (d_name gate_doc) = Inr gate_doc" by code_simp
    show "tg_perm demo_tools = perm_engine (new_perm gate_reg)"
      by (simp add: demo_tools_def tools_compile_def new_tool_registry_def)
    show "distinct (map f_name (d_fields gate_doc))" "distinct (payload_required gate_doc False)"
      "?f \<in> set (d_fields gate_doc)" "field_locked (auth_from_context gate_user) ?f"
      by code_simp+
  qed
  moreover have "snake_case (f_name ?f) = ''cost''" by code_simp
  ultimately show ?thesis by simp
qed

section \<open>Which tools are offered\<close>

lemma identity_may_use_state:
  assumes "tg_perm T = perm_engine p" and "pf_db p = Some D"
  shows "read_reach D s (snd (identity_may_use T cx t s))"
  using check_action_reach [OF assms(2)] assms(1)
  by (auto simp: identity_may_use_def perm_engine_def preserves_def read_refl split: prod.splits)
     (metis snd_conv)+

lemma usable_tools_checked:
  assumes "tg_perm T = perm_engine p" and "pf_db p = Some D"
  shows "def \<in> set (fst (usable_tools T cx ts s)) \<Longrightarrow>
    \<exists>t \<in> set ts. def = template_tool T cx t \<and>
      (\<exists>s'. read_reach D s s' \<and> fst (identity_may_use T cx t s'))"
proof (induction ts arbitrary: s)
  case (Cons t ts)
  obtain ok s' where m: "identity_may_use T cx t s = (ok, s')" by (cases "identity_may_use T cx t s")
  have r: "read_reach D s s'" using identity_may_use_state [OF assms, of s cx t] m by simp
  show ?case
  proof (cases "ok \<and> def = template_tool T cx t")
    case True
    then show ?thesis using m read_refl [of D s] by (intro bexI [of _ t]) auto
  next
    case False
    then have "def \<in> set (fst (usable_tools T cx ts s'))" using Cons.prems m by (auto simp: split_beta split: if_splits)
    from Cons.IH [OF this] r show ?thesis by (auto intro: read_reach_trans)
  qed
qed simp

text \<open>what is offered is permitted. Every tool offered to an identity is a discovery tool, a custom tool
  whose role gate lets it through, or a template of the registry; and then its role gate passes, or, for a
  document tool, the permission engine allows the tool's action on its document type in the state that the
  reads of the call had reached.\<close>

theorem offered_tools_permitted:
  assumes "tg_perm T = perm_engine p" and "pf_db p = Some D"
    and "def \<in> set (fst (for_identity T customs cx i s))"
  shows "def \<in> set discovery_tools \<or>
    (\<exists>c \<in> set customs. td_name def = ct_name c \<and>
       check_roles (auth_new_context cx i) (''custom:'' @ ct_name c) ''call'' (ct_roles c) = Inr ()) \<or>
    (\<exists>t \<in> set (tg_templates T). td_name def = tt_name t \<and>
       (if tt_roles t \<noteq> []
        then check_roles (auth_new_context cx i) (''method:'' @ tt_name t) ''call'' (tt_roles t) = Inr ()
        else document_verb (tt_verb t) \<longrightarrow>
          (\<exists>s'. read_reach D s s' \<and>
             fst (check_action p (auth_new_context cx i) (tt_doc_type t) (tool_action (tt_verb t)) s') = Inr ())))"
proof -
  let ?cx = "auth_new_context cx i"
  have pe: "pe_check_roles (tg_perm T) = check_roles" "pe_check_action (tg_perm T) = check_action p"
    using assms(1) by (simp_all add: perm_engine_def)
  have passes: "passes r \<longleftrightarrow> r = Inr ()" for r by (simp add: passes_def split: sum.splits)
  have ready: "tg_ready T" using assms(3) by (auto simp: for_identity_def split: if_splits)
  with assms(3) consider "def \<in> set discovery_tools"
    | "def \<in> set (fst (usable_tools T ?cx (tg_templates T) s))" | "def \<in> set (custom_definitions T ?cx customs)"
    by (auto simp: for_identity_def split_beta Let_def)
  then show ?thesis
  proof cases
    case 3
    then show ?thesis by (auto simp: custom_definitions_def pe passes)
  next
    case 2
    from usable_tools_checked [OF assms(1,2) this] obtain t s' where
      t: "t \<in> set (tg_templates T)" "def = template_tool T ?cx t" "read_reach D s s'"
        "fst (identity_may_use T ?cx t s')" by blast
    from t(4) have "if tt_roles t \<noteq> []
        then check_roles ?cx (''method:'' @ tt_name t) ''call'' (tt_roles t) = Inr ()
        else document_verb (tt_verb t) \<longrightarrow>
             fst (check_action p ?cx (tt_doc_type t) (tool_action (tt_verb t)) s') = Inr ()"
      by (simp add: identity_may_use_def pe passes split_beta split: if_splits)
    moreover have "td_name def = tt_name t" using t(2) by (simp add: template_tool_def)
    ultimately show ?thesis using t(1,3) by (metis (no_types, lifting))
  qed simp
qed

definition agent_perm :: "journal perm_conf" where
  "agent_perm = perm_set_database small_db (new_perm gate_reg)"

definition agent_tools :: "journal tool_registry" where
  "agent_tools = snd (tools_compile [] gate_reg (new_tool_registry (perm_engine agent_perm) None))"

theorem offered_tools_permitted_witness:
  "\<exists>s'. read_reach small_db empty_journal s' \<and>
     fst (check_action agent_perm gate_user ''Task'' ''read'' s') = Inr ()"
proof -
  let ?i = "zero_identity\<lparr>i_roles := [''user'']\<rparr>"
  let ?def = "template_tool agent_tools gate_user (hd (tg_templates agent_tools))"
  have perm: "tg_perm agent_tools = perm_engine agent_perm" "pf_db agent_perm = Some small_db"
    by (simp_all add: agent_tools_def agent_perm_def tools_compile_def new_tool_registry_def perm_set_database_def)
  have offered: "?def \<in> set (fst (for_identity agent_tools [] background_ctx ?i empty_journal))" by code_simp
  have "list_all (\<lambda>t. tt_roles t = [] \<and> document_verb (tt_verb t) \<and> tool_action (tt_verb t) = ''read'' \<and>
      tt_doc_type t = ''Task'') (tg_templates agent_tools)" "?def \<notin> set discovery_tools" by code_simp+
  then show ?thesis
    using offered_tools_permitted [OF perm offered] by (auto simp: list_all_iff gate_user_def)
qed

text \<open>Seven templates at most for a document, so the number of tools is linear in the schema.\<close>

lemma template_count: "length (generate_doc_templates T d) \<le> 7"
  by (simp add: generate_doc_templates_def)

lemma tool_count:
  "length (tg_templates (snd (tools_compile rpc reg (new_tool_registry p w)))) \<le> 7 * length (registry_list reg) + length rpc"
proof -
  have "length (concat (map (generate_doc_templates T) ds)) \<le> 7 * length ds" for T :: "'a tool_registry" and ds
    by (induction ds) (simp_all add: template_count add_mono)
  from this [of "new_tool_registry p w" "filter (\<lambda>d. \<not> d_agent_hidden d) (registry_list reg)"]
  have "length (concat (map (generate_doc_templates (new_tool_registry p w)) (filter (\<lambda>d. \<not> d_agent_hidden d) (registry_list reg))))
      \<le> 7 * length (registry_list reg)"
    using length_filter_le [of "\<lambda>d. \<not> d_agent_hidden d" "registry_list reg"] by linarith
  moreover have "length (gated_methods rpc) \<le> length rpc"
    using length_filter_le [of "\<lambda>m. rm_roles m \<noteq> []" "rpc_methods rpc"] by (simp add: gated_methods_def rpc_methods_def)
  moreover have "tg_templates (new_tool_registry p w) = []" "\<not> tg_ready (new_tool_registry p w)"
    by (simp_all add: new_tool_registry_def)
  ultimately show ?thesis by (simp add: tools_compile_def)
qed

end
