(* ===== verification/AgentEvents.thy ===== *)
theory AgentEvents
  imports Json
begin

text \<open>
  What the agent runtime sends to its client while a turn runs, and what the client answers
  (\<open>agent/runtime/runtime.go\<close>): streaming events, approval requests and approval responses, with the
  JSON they have on the wire.
\<close>

section \<open>Events and approvals\<close>

record approval_details =
  ad_doc_type :: string
  ad_action :: string
  ad_payload :: row
  ad_reason :: string

record approval_payload =
  ay_action_id :: string
  ay_details :: approval_details

record approval_response =
  ar_action_id :: string
  ar_approved :: bool
  ar_payload :: "row option"

record event =
  ev_type :: string
  ev_content :: string
  ev_tool :: string
  ev_success :: bool
  ev_approval :: "approval_payload option"
  ev_sender :: string

definition plain_event :: "string \<Rightarrow> event" where
  "plain_event ty = \<lparr>ev_type = ty, ev_content = [], ev_tool = [], ev_success = False, ev_approval = None, ev_sender = []\<rparr>"

definition details_json :: "(int \<Rightarrow> string) \<Rightarrow> approval_details \<Rightarrow> string" where
  "details_json jt d = json_fields
     [(''doctype'', json_str (ad_doc_type d)), (''action'', json_str (ad_action d)),
      (''payload'', json_encode jt (VMap (ad_payload d))), (''policy_reason'', json_str (ad_reason d))]"

text \<open>\<open>MarshalJSON\<close>: an approval request is flattened, empty members of any other event are left out.\<close>

definition event_json :: "(int \<Rightarrow> string) \<Rightarrow> event \<Rightarrow> string" where
  "event_json jt e =
     (case (ev_type e = ''approval_required'', ev_approval e) of
        (True, Some a) \<Rightarrow> json_fields
          [(''type'', json_str (ev_type e)), (''action_id'', json_str (ay_action_id a)),
           (''details'', details_json jt (ay_details a))]
      | _ \<Rightarrow> json_fields
          ([(''type'', json_str (ev_type e))] @
           (if ev_content e = [] then [] else [(''content'', json_str (ev_content e))]) @
           (if ev_tool e = [] then [] else [(''tool'', json_str (ev_tool e))]) @
           (if ev_success e then [(''success'', ''true'')] else []) @
           (case ev_approval e of None \<Rightarrow> []
            | Some a \<Rightarrow> [(''approval'', json_fields [(''action_id'', json_str (ay_action_id a)),
                                                 (''details'', details_json jt (ay_details a))])]) @
           (if ev_sender e = [] then [] else [(''sender'', json_str (ev_sender e))])))"

end
