(* ===== verification/Executor.thy ===== *)
theory Executor
  imports Session Planner Tools AgentEvents
begin

text \<open>
  The agent executor (\<open>agent/runtime/executor.go\<close>), the context manager (\<open>agent/runtime/context.go\<close>) and
  the runtime's types (\<open>agent/runtime/runtime.go\<close>): one tool call of the model, from the safety gates to
  the observation that is fed back. The engines are the ones the API layer calls; \<open>'s\<close> is the outside
  world they run in, from which clock readings and ULIDs are drawn. A nil map and an empty one are the
  same here, and writes of hooks and handlers into the argument map are not seen by the runtime.
\<close>

section \<open>Approvals\<close>

text \<open>\<open>ApprovalGateway\<close>: the human's answer, or the text of an error.\<close>

type_synonym 's approvals = "ctx \<Rightarrow> approval_payload \<Rightarrow> ('s, string, approval_response) step"

section \<open>The runtime\<close>

text \<open>A safety layer: its policy, the rate limit over its store, and the usage source.\<close>

record 's layer =
  ly_policy :: safety_policy
  ly_rate :: "ctx \<Rightarrow> identity \<Rightarrow> ('s, gerror, unit) step"
  ly_usage :: "('s \<Rightarrow> string \<Rightarrow> int) option"

text \<open>A provider with the optional interfaces the runtime asks for: \<open>TrackUsage\<close>, \<open>UsageFor\<close> and
  \<open>ApprovalGateway\<close>.\<close>

record 's backend =
  bk_provider :: "'s provider"
  bk_track :: "(string \<Rightarrow> token_usage \<Rightarrow> 's \<Rightarrow> 's) option"
  bk_usage :: "('s \<Rightarrow> string \<Rightarrow> int) option"
  bk_approvals :: "'s approvals option"

text \<open>The name maps that the first turn builds.\<close>

record 's tool_maps =
  tm_doc_types :: "(string \<times> string) list"
  tm_methods :: "(string \<times> string) list"
  tm_customs :: "(string \<times> 's custom_tool) list"

text \<open>
  \<open>rt_draw\<close>, \<open>rt_ulid\<close> and \<open>rt_clock\<close> read the world's clock and ULID source; \<open>rt_jt\<close>, \<open>rt_ft\<close> and \<open>rt_jm\<close>
  render times and decoder messages. \<open>rt_rpc\<close> and \<open>rt_customs\<close> are the package-level registries.
\<close>

record 's runtime =
  rt_backend :: "'s backend"
  rt_tools :: "'s tool_registry"
  rt_schema :: registry
  rt_engine :: "'s engine"
  rt_workflow :: "'s wf_engine option"
  rt_perm :: "'s perm_engine option"
  rt_layer :: "'s layer"
  rt_sink :: bool
  rt_approvals :: "'s approvals option"
  rt_model :: string
  rt_max_steps :: nat
  rt_system :: string
  rt_maps :: "'s tool_maps option"
  rt_rpc :: "'s rpc_registry"
  rt_customs :: "'s custom_tool list"
  rt_draw :: "'s \<Rightarrow> op_env \<times> 's"
  rt_ulid :: "'s \<Rightarrow> string \<times> 's"
  rt_clock :: "'s \<Rightarrow> int"
  rt_jt :: "int \<Rightarrow> string"
  rt_ft :: "int \<Rightarrow> string"
  rt_jm :: "string \<Rightarrow> string"

text \<open>What a turn changes: the world, its session and the events sent to the sink.\<close>

record 's turn =
  tn_world :: 's
  tn_session :: session
  tn_events :: "event list"

definition emit :: "'s runtime \<Rightarrow> event \<Rightarrow> 's turn \<Rightarrow> 's turn" where
  "emit rt e t = (if rt_sink rt then t\<lparr>tn_events := tn_events t @ [e]\<rparr> else t)"

definition say :: "chat_message \<Rightarrow> 's turn \<Rightarrow> 's turn" where
  "say m t = t\<lparr>tn_session := add_message m (tn_session t)\<rparr>"

section \<open>Tool names\<close>

definition compute_maps :: "registry \<Rightarrow> 's rpc_registry \<Rightarrow> 's custom_tool list \<Rightarrow> 's tool_maps" where
  "compute_maps reg rpc customs =
     \<lparr>tm_doc_types = fold (\<lambda>d m. AList.update (snake_case (d_name d)) (d_name d) m) (registry_list reg) [],
      tm_methods = fold (\<lambda>x m. AList.update (dots_to_underscores (rm_name x)) (rm_name x) m) (rpc_methods rpc) [],
      tm_customs = fold (\<lambda>c m. AList.update (ct_name c) c m) customs []\<rparr>"

definition build_maps :: "'s runtime \<Rightarrow> 's runtime" where
  "build_maps rt =
     (case rt_maps rt of
        Some _ \<Rightarrow> rt
      | None \<Rightarrow> rt\<lparr>rt_maps := Some (compute_maps (rt_schema rt) (rt_rpc rt) (rt_customs rt))\<rparr>)"

definition maps_of :: "'s runtime \<Rightarrow> 's tool_maps" where
  "maps_of rt = (case rt_maps rt of Some m \<Rightarrow> m | None \<Rightarrow> \<lparr>tm_doc_types = [], tm_methods = [], tm_customs = []\<rparr>)"

definition operation_prefixes :: "string list" where
  "operation_prefixes = [''create_'', ''update_'', ''delete_'', ''get_'', ''list_'', ''search_'', ''execute_action_'']"

definition split_operation_tool :: "string \<Rightarrow> string \<times> string" where
  "split_operation_tool name =
     (case find (has_prefix name) operation_prefixes of
        Some v \<Rightarrow> (butlast v, drop (length v) name)
      | None \<Rightarrow> ([], []))"

definition doc_type_for :: "'s runtime \<Rightarrow> string \<Rightarrow> string" where
  "doc_type_for rt name =
     (let (op, rest) = split_operation_tool name in
      if op = [] then []
      else case map_of (tm_doc_types (maps_of rt)) rest of Some dt \<Rightarrow> dt | None \<Rightarrow> [])"

definition snake_doc_type_for :: "'s runtime \<Rightarrow> string \<Rightarrow> string" where
  "snake_doc_type_for rt name =
     (let dt = doc_type_for rt name in if dt = [] then [] else snake_case dt)"

definition discovery_tool :: "string \<Rightarrow> bool" where
  "discovery_tool name \<longleftrightarrow> name \<in> {''list_document_types'', ''describe_document'', ''list_relationships''}"

section \<open>The context manager\<close>

definition tools_for_turn :: "'s runtime \<Rightarrow> ctx \<Rightarrow> identity \<Rightarrow> 's turn \<Rightarrow> tool_definition list \<times> 's turn" where
  "tools_for_turn rt cx i t =
     (let (ds, w) = for_identity (rt_tools rt) (rt_customs rt) cx i (tn_world t)
      in (filter (\<lambda>d. is_tool_allowed (ly_policy (rt_layer rt)) (td_name d) \<and>
                   (let sn = snd (split_operation_tool (td_name d))
                    in discovery_tool (td_name d) \<or> sn = [] \<or> seen_doc_type (tn_session t) sn)) ds,
          t\<lparr>tn_world := w\<rparr>))"

definition schemas_for :: "tool_definition list \<Rightarrow> (string \<times> row) list" where
  "schemas_for ds = fold (\<lambda>d m. AList.update (td_name d) (td_parameters d) m) ds []"

section \<open>Arguments\<close>

definition string_arg :: "row \<Rightarrow> string \<Rightarrow> string" where
  "string_arg args k = str_of (map_of args k)"

text \<open>\<open>n, _ := strconv.Atoi(s)\<close>: 0 on a syntax error, the nearest 64-bit value when out of range.\<close>

fun parse_uint :: "int \<Rightarrow> string \<Rightarrow> int option" where
  "parse_uint n [] = Some n"
| "parse_uint n (c # cs) =
     (if \<not> is_digit c then None
      else if 2 ^ 64 div 10 + 1 \<le> n \<or> 2 ^ 64 \<le> n * 10 + (of_char c - 48) then Some (2 ^ 64 - 1)
      else parse_uint (n * 10 + (of_char c - 48)) cs)"

definition atoi_value :: "string \<Rightarrow> int" where
  "atoi_value s =
     (let neg = (case s of c # _ \<Rightarrow> c = CHR ''-'' | [] \<Rightarrow> False);
          ds = (case s of c # t \<Rightarrow> if c = CHR ''-'' \<or> c = CHR ''+'' then t else s | [] \<Rightarrow> [])
      in if ds = [] then 0
         else case parse_uint 0 ds of
                None \<Rightarrow> 0
              | Some n \<Rightarrow> if neg then - min n (2 ^ 63) else min n (2 ^ 63 - 1))"

text \<open>\<open>int(v)\<close> of a float64 drops the fraction; a value beyond 64 bits is implementation-defined in Go.\<close>

definition trunc_float :: "int \<Rightarrow> int \<Rightarrow> int" where
  "trunc_float m e = (if 0 \<le> e then m * 10 ^ nat e else sgn m * (\<bar>m\<bar> div 10 ^ nat (- e)))"

definition int_arg :: "row \<Rightarrow> string \<Rightarrow> int" where
  "int_arg args k =
     (case map_of args k of
        Some (VFloat m e) \<Rightarrow> trunc_float m e
      | Some (VInt i) \<Rightarrow> i
      | Some (VInt64 i) \<Rightarrow> i
      | Some (VStr s) \<Rightarrow> atoi_value s
      | _ \<Rightarrow> 0)"

definition zero_opts :: list_opts where
  "zero_opts = \<lparr>lo_filters = [], lo_order_by = [], lo_limit = 0, lo_offset = 0, lo_include_deleted = False\<rparr>"

definition list_opts_of :: "row \<Rightarrow> list_opts" where
  "list_opts_of args =
     (let opts = zero_opts\<lparr>lo_limit := int_arg args ''limit''\<rparr>; page = int_arg args ''page''
      in if 1 < page
         then (let opts = (if lo_limit opts \<le> 0 then opts\<lparr>lo_limit := 50\<rparr> else opts)
               in opts\<lparr>lo_offset := (page - 1) * lo_limit opts\<rparr>)
         else opts)"

section \<open>Discovery tools\<close>

definition list_document_types :: "registry \<Rightarrow> row \<Rightarrow> gerror + tool_result" where
  "list_document_types reg args =
     (let module = string_arg args ''module'' in
      Inr (ResRecords (map (\<lambda>d. [(''name'', VStr (d_name d)), (''module'', VStr (d_module d)),
                                 (''description'', VStr (d_description d))])
        (filter (\<lambda>d. \<not> d_agent_hidden d \<and> (module = [] \<or> equal_fold (d_module d) module)) (registry_list reg)))))"

definition describe_field :: "field \<Rightarrow> row" where
  "describe_field f =
     [(''name'', VStr (snake_case (f_name f))), (''type'', VStr (field_type_string (f_type f))),
      (''required'', VBool (f_required f))] @
     (if f_options f = [] then [] else [(''options'', VStrs (f_options f))]) @
     (if f_link_target f = [] then [] else [(''link'', VStr (f_link_target f))]) @
     (if f_label f = [] then [] else [(''label'', VStr (f_label f))]) @
     (if f_agent_hint f = [] then [] else [(''hint'', VStr (f_agent_hint f))])"

definition describe_document :: "registry \<Rightarrow> row \<Rightarrow> gerror + tool_result" where
  "describe_document reg args =
     (let dt = string_arg args ''doc_type'' in
      bind_r (registry_get reg dt) (\<lambda>d.
        if d_agent_hidden d then Inl (not_found_err (''document type '' @ dt @ '' is not exposed to agents''))
        else Inr (ResVal (VMap
          [(''name'', VStr (d_name d)), (''description'', VStr (d_description d)), (''module'', VStr (d_module d)),
           (''searchable'', VBool (d_searchable d)),
           (''fields'', VList (map (\<lambda>f. VMap (describe_field f))
              (filter (\<lambda>f. \<not> f_agent_hidden f \<and> \<not> base_field_name (f_name f)) (d_fields d))))]))))"

definition list_relationships :: "registry \<Rightarrow> row \<Rightarrow> gerror + tool_result" where
  "list_relationships reg args =
     (let dt = string_arg args ''doc_type'' in
      bind_r (registry_get reg dt) (\<lambda>_. Inr (ResRelations (registry_relationships reg dt))))"

section \<open>Dispatch\<close>

definition with_env :: "'s runtime \<Rightarrow> (op_env \<Rightarrow> ('s, gerror, 'a) step) \<Rightarrow> ('s, gerror, 'a) step" where
  "with_env rt f = (\<lambda>w. let (oe, w) = rt_draw rt w in f oe w)"

definition dispatch_operation ::
    "'s runtime \<Rightarrow> ctx \<Rightarrow> string \<Rightarrow> string \<Rightarrow> row \<Rightarrow> ('s, gerror, tool_result) step" where
  "dispatch_operation rt cx verb dt args =
     (let en = rt_engine rt; i = string_arg args ''id'' in
      if verb = ''create''
      then bind_s (with_env rt (\<lambda>oe. doc_create en oe cx dt args)) (\<lambda>n. ret (ResVal (VMap [(''id'', VStr n)])))
      else if verb = ''update''
      then bind_s (with_env rt (\<lambda>oe. doc_update en oe cx dt i (AList.delete ''id'' args)))
             (\<lambda>_. ret (ResVal (VMap [(''id'', VStr i)])))
      else if verb = ''delete''
      then bind_s (with_env rt (\<lambda>oe. doc_delete en oe cx dt i))
             (\<lambda>_. ret (ResVal (VMap [(''id'', VStr i), (''deleted'', VBool True)])))
      else if verb = ''read'' \<or> verb = ''get''
      then bind_s (doc_read en cx dt i) (\<lambda>r. ret (ResVal (VMap r)))
      else if verb = ''list''
      then bind_s (doc_list en cx dt (list_opts_of args)) (\<lambda>rs. ret (ResRecords rs))
      else if verb = ''search''
      then bind_s (doc_list en cx dt (zero_opts\<lparr>lo_filters := [(''q'', VStr (string_arg args ''query''))],
             lo_limit := int_arg args ''limit''\<rparr>)) (\<lambda>rs. ret (ResRecords rs))
      else if verb = ''execute_action''
      then (case rt_workflow rt of
              None \<Rightarrow> fail (not_found_err ''no workflow engine configured'')
            | Some fl \<Rightarrow>
                bind_s (with_env rt (\<lambda>oe. wf_execute fl oe cx dt i (string_arg args ''action'')))
                  (\<lambda>_. ret (ResVal (VMap [(''id'', VStr i), (''action'', VStr (string_arg args ''action'')),
                                          (''success'', VBool True)]))))
      else fail (not_found_err (''unknown agent operation: '' @ verb)))"

definition check_tool_roles :: "'s runtime \<Rightarrow> ctx \<Rightarrow> string \<Rightarrow> string list \<Rightarrow> gerror + unit" where
  "check_tool_roles rt cx subject roles =
     (case rt_perm rt of
        Some p \<Rightarrow> if roles = [] then Inr () else pe_check_roles p cx subject ''call'' roles
      | None \<Rightarrow> Inr ())"

definition unknown_tool :: "string \<Rightarrow> gerror" where
  "unknown_tool name = not_found_err (''unknown agent tool: '' @ name)"

definition dispatch_custom :: "'s runtime \<Rightarrow> ctx \<Rightarrow> string \<Rightarrow> row \<Rightarrow> ('s, gerror, tool_result) step" where
  "dispatch_custom rt cx name args =
     (case map_of (tm_customs (maps_of rt)) name of
        None \<Rightarrow> fail (unknown_tool name)
      | Some c \<Rightarrow>
          (case ct_handler c of
             None \<Rightarrow> fail (unknown_tool name)
           | Some h \<Rightarrow>
               bind_s (lift_r (check_tool_roles rt cx (''custom:'' @ ct_name c) (ct_roles c))) (\<lambda>_. h cx args)))"

definition dispatch_method :: "'s runtime \<Rightarrow> ctx \<Rightarrow> string \<Rightarrow> row \<Rightarrow> ('s, gerror, tool_result) step" where
  "dispatch_method rt cx m args =
     (case Option.bind (rpc_get (rt_rpc rt) m) (\<lambda>x. map_option (\<lambda>h. (x, h)) (rm_handler x)) of
        None \<Rightarrow> fail (not_found_err (''custom RPC method not found: '' @ m))
      | Some (x, h) \<Rightarrow>
          bind_s (lift_r (check_tool_roles rt cx (''method:'' @ m) (rm_roles x))) (\<lambda>_. h cx args))"

definition dispatch :: "'s runtime \<Rightarrow> ctx \<Rightarrow> string \<Rightarrow> row \<Rightarrow> ('s, gerror, tool_result) step" where
  "dispatch rt cx name args =
     (if name = ''list_document_types'' then lift_r (list_document_types (rt_schema rt) args)
      else if name = ''describe_document'' then lift_r (describe_document (rt_schema rt) args)
      else if name = ''list_relationships'' then lift_r (list_relationships (rt_schema rt) args)
      else let verb = fst (split_operation_tool name) in
      if verb \<noteq> []
      then (let dt = doc_type_for rt name in
            if dt = [] then fail (unknown_tool name) else dispatch_operation rt cx verb dt args)
      else case map_of (tm_methods (maps_of rt)) name of
             Some m \<Rightarrow> dispatch_method rt cx m args
           | None \<Rightarrow> dispatch_custom rt cx name args)"

section \<open>Observations\<close>

definition mark_doc_types_seen :: "string \<Rightarrow> row \<Rightarrow> session \<Rightarrow> session" where
  "mark_doc_types_seen name args se =
     (if name = ''describe_document''
      then (let dt = string_arg args ''doc_type'' in if dt = [] then se else mark_seen (snake_case dt) se)
      else (let sn = snd (split_operation_tool name) in if sn = [] then se else mark_seen sn se))"

definition record_count :: "gerror + tool_result \<Rightarrow> nat option" where
  "record_count out =
     (case out of Inr (ResRecords rs) \<Rightarrow> Some (length rs) | Inr (ResVal (VList vs)) \<Rightarrow> Some (length vs) | _ \<Rightarrow> None)"

definition relationship_json :: "relationship \<Rightarrow> string" where
  "relationship_json r = json_fields
     [(''FromDoc'', json_str (r_from_doc r)), (''FromField'', json_str (r_from_field r)),
      (''ToDoc'', json_str (r_to_doc r)), (''IsChildTable'', if r_is_child_table r then ''true'' else ''false'')]"

definition result_json :: "(int \<Rightarrow> string) \<Rightarrow> tool_result \<Rightarrow> string" where
  "result_json jt out =
     (case out of
        ResNil \<Rightarrow> ''null''
      | ResVal v \<Rightarrow> json_encode jt v
      | ResRecords rs \<Rightarrow> json_encode jt (VList (map VMap rs))
      | ResRelations [] \<Rightarrow> ''null''
      | ResRelations rs \<Rightarrow> ''['' @ join_with '','' (map relationship_json rs) @ '']'')"

definition error_observation :: "gerror \<Rightarrow> string" where
  "error_observation e =
     ''error: '' @ (case as_error e of Some o1 \<Rightarrow> err_message o1 | None \<Rightarrow> error_text e)"

definition observation :: "(int \<Rightarrow> string) \<Rightarrow> gerror + tool_result \<Rightarrow> string" where
  "observation jt out =
     (case out of
        Inl e \<Rightarrow> error_observation e
      | Inr ResNil \<Rightarrow> ''ok''
      | Inr r \<Rightarrow> (let s = result_json jt r in if 2000 < length s then take 2000 s @ ''... (truncated)'' else s))"

section \<open>One tool call\<close>

definition reason_string :: "approval_reason option \<Rightarrow> string" where
  "reason_string r =
     (case r of None \<Rightarrow> [] | Some AlwaysReason \<Rightarrow> ''AlwaysRequireApproval'' | Some BulkReason \<Rightarrow> ''BulkLimit''
      | Some RoleReason \<Rightarrow> ''RoleOverride'' | Some RequireReason \<Rightarrow> ''RequireApproval'')"

definition tool_verb :: "string \<Rightarrow> row \<Rightarrow> string" where
  "tool_verb name args = (if discovery_tool name then ''read'' else verb_for name args)"

text \<open>\<open>gateApproval\<close>: the arguments to run with, or the observation of a call that does not run.\<close>

definition gate_payload :: "'s runtime \<Rightarrow> string \<Rightarrow> string \<Rightarrow> row \<Rightarrow> approval \<Rightarrow> approval_payload" where
  "gate_payload rt u name args a =
     \<lparr>ay_action_id = ''req-'' @ u,
      ay_details = \<lparr>ad_doc_type = doc_type_for rt name, ad_action = tool_verb name args, ad_payload = args,
                    ad_reason = reason_string (ap_reason a)\<rparr>\<rparr>"

definition approval_event :: "approval_payload \<Rightarrow> event" where
  "approval_event y = (plain_event ''approval_required'')\<lparr>ev_approval := Some y\<rparr>"

definition gate_answer :: "row \<Rightarrow> string + approval_response \<Rightarrow> string + row" where
  "gate_answer args r =
     (case r of
        Inl e \<Rightarrow> Inl (''error: approval flow failed: '' @ e)
      | Inr x \<Rightarrow>
          if \<not> ar_approved x then Inl ''the user denied this operation; do not perform it''
          else case ar_payload x of Some p \<Rightarrow> Inr p | None \<Rightarrow> Inr args)"

definition gate_approval ::
    "'s runtime \<Rightarrow> 's approvals option \<Rightarrow> ctx \<Rightarrow> string \<Rightarrow> row \<Rightarrow> approval \<Rightarrow> 's turn \<Rightarrow> (string + row) \<times> 's turn" where
  "gate_approval rt ap cx name args a t =
     (case ap of
        None \<Rightarrow> (Inl (''error: approval required for '' @ name @ '' but no approval gateway is configured''), t)
      | Some ask \<Rightarrow>
          (let (u, w) = rt_ulid rt (tn_world t);
               y = gate_payload rt u name args a;
               t = emit rt (approval_event y) (t\<lparr>tn_world := w\<rparr>);
               (r, w) = ask cx y (tn_world t)
           in (gate_answer args r, t\<lparr>tn_world := w\<rparr>)))"

definition call_approval :: "'s runtime \<Rightarrow> ctx \<Rightarrow> string \<Rightarrow> row \<Rightarrow> session \<Rightarrow> approval" where
  "call_approval rt cx name args se =
     requires_approval_with_reason (ly_policy (rt_layer rt)) (auth_from_context cx)
       \<lparr>tc_verb = tool_verb name args, tc_tool = name, tc_args = args,
        tc_count = target_count se (snake_doc_type_for rt name)\<rparr>"

definition authorise ::
    "'s runtime \<Rightarrow> 's approvals option \<Rightarrow> ctx \<Rightarrow> string \<Rightarrow> row \<Rightarrow> bool \<Rightarrow> 's turn \<Rightarrow> (string + row) \<times> 's turn" where
  "authorise rt ap cx name args plan_approved t =
     (if plan_approved then (Inr args, t)
      else let a = call_approval rt cx name args (tn_session t)
           in if ap_required a then gate_approval rt ap cx name args a t else (Inr args, t))"

definition agent_ctx :: "ctx \<Rightarrow> string \<Rightarrow> string \<Rightarrow> ctx" where
  "agent_ctx cx sid prompt =
     with_session (with_agent (auth_new_context cx (auth_from_context cx)) sid prompt) sid"

definition note_result :: "'s runtime \<Rightarrow> string \<Rightarrow> row \<Rightarrow> gerror + tool_result \<Rightarrow> session \<Rightarrow> session" where
  "note_result rt name args out se =
     (let se = mark_doc_types_seen name args se; dt = snake_doc_type_for rt name
      in case record_count out of
           Some n \<Rightarrow> if dt = [] then se else set_target_count dt (int n) se
         | None \<Rightarrow> se)"

definition is_ok :: "'e + 'a \<Rightarrow> bool" where
  "is_ok r = (case r of Inl _ \<Rightarrow> False | Inr _ \<Rightarrow> True)"

definition run_tool :: "'s runtime \<Rightarrow> ctx \<Rightarrow> string \<Rightarrow> row \<Rightarrow> string \<Rightarrow> 's turn \<Rightarrow> (gerror + tool_result) \<times> 's turn" where
  "run_tool rt cx name args prompt t =
     (let (out, w) = dispatch rt (agent_ctx cx (se_id (tn_session t)) prompt) name args (tn_world t)
      in (out, t\<lparr>tn_world := w, tn_session := note_result rt name args out (tn_session t)\<rparr>))"

definition tool_event :: "string \<Rightarrow> string \<Rightarrow> bool \<Rightarrow> event" where
  "tool_event ty name ok = (plain_event ty)\<lparr>ev_tool := name, ev_success := ok\<rparr>"

definition execute_tool ::
    "'s runtime \<Rightarrow> 's approvals option \<Rightarrow> ctx \<Rightarrow> string \<Rightarrow> row \<Rightarrow> string \<Rightarrow> bool \<Rightarrow> 's turn \<Rightarrow> string \<times> 's turn" where
  "execute_tool rt ap cx name args prompt plan_approved t =
     (let t = emit rt (tool_event ''tool_start'' name False) t in
      if \<not> is_tool_allowed (ly_policy (rt_layer rt)) name
      then (''error: tool '' @ name @ '' is blocked by the safety policy tool allowlist'',
            emit rt (tool_event ''tool_end'' name False) t)
      else case authorise rt ap cx name args plan_approved t of
             (Inl obs, t) \<Rightarrow> (obs, emit rt (tool_event ''tool_end'' name False) t)
           | (Inr args, t) \<Rightarrow>
               (let (out, t) = run_tool rt cx name args prompt t
                in (observation (rt_jt rt) out, emit rt (tool_event ''tool_end'' name (is_ok out)) t)))"

definition execute_tool_call ::
    "'s runtime \<Rightarrow> 's approvals option \<Rightarrow> ctx \<Rightarrow> llm_call \<Rightarrow> string \<Rightarrow> 's turn \<Rightarrow> string \<times> 's turn" where
  "execute_tool_call rt ap cx call prompt t =
     (let args = (if lc_arguments call = [] then []
                  else case json_object (lc_arguments call) of Some m \<Rightarrow> m | None \<Rightarrow> [])
      in execute_tool rt ap cx (lc_name call) args prompt False t)"

section \<open>Resolving tool names\<close>

lemma map_of_fold_put:
  assumes "x \<in> set xs" and "\<And>y. y \<in> set xs \<Longrightarrow> key y = key x \<Longrightarrow> v y = v x"
  shows "map_of (fold (\<lambda>x m. AList.update (key x) (v x) m) xs m) (key x) = Some (v x)"
  using assms
proof (induction xs arbitrary: m rule: rev_induct)
  case (snoc y ys)
  show ?case
  proof (cases "key y = key x")
    case True
    then have "v y = v x" using snoc.prems(2) [of y] by simp
    then show ?thesis using True by (simp add: map_of_update)
  next
    case False
    then have "x \<in> set ys" using snoc.prems(1) by auto
    moreover have "\<And>z. z \<in> set ys \<Longrightarrow> key z = key x \<Longrightarrow> v z = v x" using snoc.prems(2) by simp
    ultimately have "map_of (fold (\<lambda>x m. AList.update (key x) (v x) m) ys m) (key x) = Some (v x)"
      by (rule snoc.IH)
    then show ?thesis using False by (simp add: map_of_update)
  qed
qed simp

text \<open>No operation prefix begins another, so a prefixed name splits at its own prefix.\<close>

lemma split_operation_simps:
  "split_operation_tool (''create_'' @ s) = (''create'', s)"
  "split_operation_tool (''update_'' @ s) = (''update'', s)"
  "split_operation_tool (''delete_'' @ s) = (''delete'', s)"
  "split_operation_tool (''get_'' @ s) = (''get'', s)"
  "split_operation_tool (''list_'' @ s) = (''list'', s)"
  "split_operation_tool (''search_'' @ s) = (''search'', s)"
  "split_operation_tool (''execute_action_'' @ s) = (''execute_action'', s)"
  by (simp_all add: split_operation_tool_def operation_prefixes_def has_prefix_def)

lemma generated_templates:
  assumes "tt \<in> set (generate_doc_templates T d)"
  obtains verb prefix desc sch gated where "tt = doc_template d verb prefix desc sch gated"
    "(verb, prefix) \<in> {(''search'', ''search_''), (''list'', ''list_''), (''read'', ''get_''), (''create'', ''create_''),
       (''update'', ''update_''), (''delete'', ''delete_''), (''execute_action'', ''execute_action_'')}"
  using assms unfolding generate_doc_templates_def set_append
  by (elim UnE) (simp_all split: if_splits, blast+)

lemma generated_name:
  assumes "tt \<in> set (generate_doc_templates T d)"
  shows "split_operation_tool (tt_name tt) =
      (if tt_verb tt = ''read'' then ''get'' else tt_verb tt, snake_case (d_name d)) \<and>
    (if tt_verb tt = ''read'' then ''get'' else tt_verb tt) \<noteq> []"
  using assms
proof (rule generated_templates)
  fix verb "prefix" desc sch gated
  assume "tt = doc_template d verb prefix desc sch gated"
  then have n: "tt_name tt = prefix @ snake_case (d_name d)" "tt_verb tt = verb"
    by (simp_all add: doc_template_def)
  assume "(verb, prefix) \<in> {(''search'', ''search_''), (''list'', ''list_''), (''read'', ''get_''), (''create'', ''create_''),
       (''update'', ''update_''), (''delete'', ''delete_''), (''execute_action'', ''execute_action_'')}"
  then show ?thesis unfolding n
    by (elim insertE emptyE) (simp_all add: split_operation_simps [simplified])
qed


section \<open>Gates of a tool call\<close>

lemma emit_fields [simp]:
  "tn_world (emit rt e t) = tn_world t" "tn_session (emit rt e t) = tn_session t"
  by (simp_all add: emit_def)

text \<open>
  The gates let a call run with \<open>args'\<close> in the world \<open>w\<close>: the tool is on the allowlist and either needs no
  approval or the gateway approved it, possibly with amended arguments.
\<close>

definition may_run ::
    "'s runtime \<Rightarrow> 's approvals option \<Rightarrow> ctx \<Rightarrow> string \<Rightarrow> row \<Rightarrow> 's turn \<Rightarrow> row \<Rightarrow> 's \<Rightarrow> bool" where
  "may_run rt ap cx name args t args' w \<longleftrightarrow>
     is_tool_allowed (ly_policy (rt_layer rt)) name \<and>
     (if ap_required (call_approval rt cx name args (tn_session t))
      then \<exists>ask y x w'. ap = Some ask \<and> ay_details y = ay_details (gate_payload rt [] name args
                (call_approval rt cx name args (tn_session t))) \<and>
             ask cx y w' = (Inr x, w) \<and> ar_approved x \<and>
             args' = (case ar_payload x of Some p \<Rightarrow> p | None \<Rightarrow> args)
      else args' = args \<and> w = tn_world t)"

text \<open>C7: a tool call of the model reaches an engine only through the gates. Either they let it run and the
  world is what dispatching it made of it, or the session is untouched and the world has seen at most the
  question to the human.\<close>

theorem tool_calls_are_gated:
  "let t' = snd (execute_tool rt ap cx name args prompt False t) in
   (\<exists>args' w. may_run rt ap cx name args t args' w \<and>
      tn_world t' = snd (dispatch rt (agent_ctx cx (se_id (tn_session t)) prompt) name args' w)) \<or>
    tn_session t' = tn_session t \<and>
      (tn_world t' = tn_world t \<or>
       (\<exists>ask y. ap = Some ask \<and> tn_world t' = snd (ask cx y (snd (rt_ulid rt (tn_world t))))))"
proof -
  define t' where "t' = snd (execute_tool rt ap cx name args prompt False t)"
  have run: "tn_world (snd (let (out, t) = run_tool rt cx name a prompt u
       in (observation (rt_jt rt) out, emit rt (tool_event ''tool_end'' name (is_ok out)) t))) =
     snd (dispatch rt (agent_ctx cx (se_id (tn_session u)) prompt) name a (tn_world u))" for a and u
    by (simp add: run_tool_def split: prod.splits)
  let ?t = "emit rt (tool_event ''tool_start'' name False) t"
  let ?a = "call_approval rt cx name args (tn_session t)"
  have "(\<exists>args' w. may_run rt ap cx name args t args' w \<and>
      tn_world t' = snd (dispatch rt (agent_ctx cx (se_id (tn_session t)) prompt) name args' w)) \<or>
    tn_session t' = tn_session t \<and>
      (tn_world t' = tn_world t \<or>
       (\<exists>ask y. ap = Some ask \<and> tn_world t' = snd (ask cx y (snd (rt_ulid rt (tn_world t))))))"
  proof (cases "is_tool_allowed (ly_policy (rt_layer rt)) name")
    case False
    then show ?thesis by (simp add: t'_def execute_tool_def)
  next
    case allowed: True
    show ?thesis
    proof (cases "ap_required ?a")
      case False
      then have "authorise rt ap cx name args False ?t = (Inr args, ?t)" by (simp add: authorise_def)
      then have "tn_world t' = snd (dispatch rt (agent_ctx cx (se_id (tn_session t)) prompt) name args (tn_world t))"
        using allowed run [of args ?t] by (simp add: t'_def execute_tool_def)
      then show ?thesis using allowed False by (auto simp: may_run_def)
    next
      case required: True
      then have au: "authorise rt ap cx name args False ?t = gate_approval rt ap cx name args ?a ?t"
        by (simp add: authorise_def)
      show ?thesis
      proof (cases ap)
        case None
        then show ?thesis using allowed au by (simp add: t'_def execute_tool_def gate_approval_def)
      next
        case (Some ask)
        obtain u w where u: "rt_ulid rt (tn_world t) = (u, w)" by (cases "rt_ulid rt (tn_world t)")
        let ?y = "gate_payload rt u name args ?a"
        obtain r w' where r: "ask cx ?y w = (r, w')" by (cases "ask cx ?y w")
        let ?u = "emit rt (approval_event ?y) (?t\<lparr>tn_world := w\<rparr>)\<lparr>tn_world := w'\<rparr>"
        have au': "authorise rt ap cx name args False ?t = (gate_answer args r, ?u)"
          using au Some u r by (simp add: gate_approval_def)
        show ?thesis
        proof (cases "gate_answer args r")
          case (Inl obs)
          then have "tn_session t' = tn_session t" "tn_world t' = snd (ask cx ?y (snd (rt_ulid rt (tn_world t))))"
            using allowed au' u r by (simp_all add: t'_def execute_tool_def)
          then show ?thesis using Some by blast
        next
          case (Inr args')
          then obtain x where x: "r = Inr x" "ar_approved x"
            "args' = (case ar_payload x of Some p \<Rightarrow> p | None \<Rightarrow> args)"
            by (auto simp: gate_answer_def split: sum.splits if_splits option.splits)
          have "tn_world t' = snd (dispatch rt (agent_ctx cx (se_id (tn_session t)) prompt) name args' w')"
            using allowed au' Inr run [of args' ?u] by (simp add: t'_def execute_tool_def)
          moreover have "may_run rt ap cx name args t args' w'"
            unfolding may_run_def using allowed required Some r x
            by (auto simp: gate_payload_def intro!: exI [of _ ?y] exI [of _ x])
          ultimately show ?thesis by blast
        qed
      qed
    qed
  qed
  then show ?thesis unfolding t'_def Let_def .
qed

section \<open>Approval of bulk work\<close>

lemma note_result_count:
  assumes "record_count out = Some n" and "snake_doc_type_for rt name = dt" and "dt \<noteq> []"
  shows "target_count (note_result rt name args out se) dt = int n"
  using assms by (simp add: note_result_def Let_def target_count_def set_target_count_def)

text \<open>after a listing of more records than the bulk limit, every further call on the same document type
  needs the human's approval, whatever the policy says of its verb and whoever the caller is.\<close>

theorem bulk_listing_needs_approval:
  assumes "record_count out = Some n" and "snake_doc_type_for rt name = dt" and "dt \<noteq> []"
    and "snake_doc_type_for rt name' = dt"
    and "0 < sp_max_bulk (ly_policy (rt_layer rt))" and "sp_max_bulk (ly_policy (rt_layer rt)) < int n"
  shows "ap_required (call_approval rt cx name' args' (note_result rt name args out se))"
proof -
  have "target_count (note_result rt name args out se) (snake_doc_type_for rt name') = int n"
    unfolding assms(4) by (rule note_result_count [OF assms(1-3)])
  then show ?thesis using assms(5, 6)
    by (simp add: call_approval_def requires_approval_with_reason_def Let_def)
qed

section \<open>Agent writes\<close>

lemma agent_ctx_fields [simp]:
  "cx_via_agent (agent_ctx cx sid prompt)" "cx_agent_session (agent_ctx cx sid prompt) = sid"
  "cx_agent_prompt (agent_ctx cx sid prompt) = prompt"
  "auth_from_context (agent_ctx cx sid prompt) = auth_from_context cx"
  by (simp_all add: agent_ctx_def with_session_def with_agent_def auth_new_context_def auth_from_context_def)

definition agent_entry :: "ctx \<Rightarrow> string \<Rightarrow> string \<Rightarrow> string \<Rightarrow> string \<Rightarrow> audit_entry \<Rightarrow> bool" where
  "agent_entry cx sid prompt dt verb e \<longleftrightarrow>
     ae_via_agent e \<and> ae_agent_session e = sid \<and> ae_agent_prompt e = prompt \<and>
     ae_user_id e = i_user_id (auth_from_context cx) \<and> ae_doc_type e = dt \<and> ae_action e = verb"

lemma agent_entry_build:
  "agent_entry cx sid prompt dt verb (build_entry u now (agent_ctx cx sid prompt) verb dt i ch)"
  by (simp add: agent_entry_def build_entry_def)

text \<open>C9: a create, update or delete that the agent performs ends with the commit of a transaction in which
  the last thing written is an audit entry naming the caller, the document type and operation, and the
  agent's session and prompt.\<close>

theorem agent_writes_audited:
  assumes "services_ok (rt_engine rt)" and "en_audit (rt_engine rt) = Some L"
    and "verb \<in> {''create'', ''update'', ''delete''}"
    and "dispatch_operation rt (agent_ctx cx sid prompt) verb dt args w = (Inr out, w')"
  shows "\<exists>e s2 s3. agent_entry cx sid prompt dt verb e \<and> write_in_tx L e s2 = (Inr (), s3) \<and>
    dal_commit (en_db (rt_engine rt)) s3 = (Inr (), w')"
proof -
  obtain oe w0 where d: "rt_draw rt w = (oe, w0)" by (cases "rt_draw rt w")
  let ?cx = "agent_ctx cx sid prompt"
  consider "verb = ''create''" | "verb = ''update''" | "verb = ''delete''" using assms(3) by blast
  then show ?thesis
  proof cases
    case 1
    then obtain n where "doc_create (rt_engine rt) oe ?cx dt args w0 = (Inr n, w')"
      using assms(4) d by (auto simp: dispatch_operation_def with_env_def bind_s_Inr)
    from create_commits [OF assms(1, 2) this] show ?thesis using agent_entry_build 1 by metis
  next
    case 2
    then obtain u where "doc_update (rt_engine rt) oe ?cx dt (string_arg args ''id'') (AList.delete ''id'' args) w0 = (Inr u, w')"
      using assms(4) d by (auto simp: dispatch_operation_def with_env_def bind_s_Inr Let_def)
    from update_commits [OF assms(1, 2) this] show ?thesis using agent_entry_build 2 by metis
  next
    case 3
    then obtain u where "doc_delete (rt_engine rt) oe ?cx dt (string_arg args ''id'') w0 = (Inr u, w')"
      using assms(4) d by (auto simp: dispatch_operation_def with_env_def bind_s_Inr Let_def)
    from delete_commits [OF assms(1, 2) this] show ?thesis using agent_entry_build 3 by metis
  qed
qed

section \<open>Tools of a turn\<close>

text \<open>The tools of a turn are on the allowlist, and an operation tool is one of a document type that the
  session has seen.\<close>

lemma tools_for_turn_narrow:
  assumes "d \<in> set (fst (tools_for_turn rt cx i t))"
  shows "is_tool_allowed (ly_policy (rt_layer rt)) (td_name d)"
    and "split_operation_tool (td_name d) = (op, sn) \<Longrightarrow> sn \<noteq> [] \<Longrightarrow> \<not> discovery_tool (td_name d) \<Longrightarrow>
      seen_doc_type (tn_session t) sn"
  using assms by (auto simp: tools_for_turn_def Let_def split: prod.splits)

lemma tools_for_turn_session [simp]: "tn_session (snd (tools_for_turn rt cx i t)) = tn_session t"
  "tn_events (snd (tools_for_turn rt cx i t)) = tn_events t"
  by (simp_all add: tools_for_turn_def split: prod.splits)

text \<open>Describing a document type attaches its operation tools.\<close>

lemma describe_marks_seen:
  "string_arg args ''doc_type'' = dt \<Longrightarrow> dt \<noteq> [] \<Longrightarrow> snake_case dt \<noteq> [] \<Longrightarrow>
     seen_doc_type (note_result rt ''describe_document'' args out se) (snake_case dt)"
  by (auto simp: note_result_def mark_doc_types_seen_def mark_seen_def seen_doc_type_def set_target_count_def
      map_of_update Let_def split: option.splits)

lemma observation_bound: "length (observation jt (Inr r)) \<le> 2015"
  by (auto simp: observation_def Let_def split: tool_result.splits)

section \<open>A runtime over the demo site\<close>

text \<open>A provider whose answer depends on the number of messages it is sent, and an approval gateway that
  always gives one answer.\<close>

definition scripted :: "(nat \<Rightarrow> chat_response) \<Rightarrow> 's backend" where
  "scripted script =
     \<lparr>bk_provider = \<lparr>lp_chat = (\<lambda>rq s. (Inr (script (length (rq_messages rq))), s)), lp_stream = (\<lambda>rq s. (Inr [], s)),
        lp_tools = True, lp_structured = True,
        lp_info = \<lparr>mi_name = ''demo'', mi_tools = True, mi_structured = True\<rparr>\<rparr>,
      bk_track = None, bk_usage = None, bk_approvals = None\<rparr>"

definition answering :: "bool \<Rightarrow> 's approvals" where
  "answering ok = (\<lambda>cx y s. (Inr \<lparr>ar_action_id = ay_action_id y, ar_approved = ok, ar_payload = None\<rparr>, s))"

definition text_answer :: "string \<Rightarrow> chat_response" where
  "text_answer s = \<lparr>rs_content = s, rs_calls = [], rs_usage = no_usage, rs_finish = ''stop''\<rparr>"

definition call_answer :: "llm_call list \<Rightarrow> chat_response" where
  "call_answer cs = \<lparr>rs_content = [], rs_calls = cs, rs_usage = no_usage, rs_finish = ''tool_calls''\<rparr>"

definition demo_layer :: "'s layer" where
  "demo_layer = \<lparr>ly_policy = demo_policy\<lparr>sp_max_bulk := 2\<rparr>, ly_rate = (\<lambda>cx i. ret ()), ly_usage = None\<rparr>"

definition demo_runtime :: "(nat \<Rightarrow> chat_response) \<Rightarrow> journal runtime" where
  "demo_runtime script =
     (let en = demo_site exec_ok [] in
      \<lparr>rt_backend = scripted script,
       rt_tools = snd (tools_compile [] demo_reg (new_tool_registry (the (en_perm en)) None)),
       rt_schema = demo_reg, rt_engine = en, rt_workflow = None, rt_perm = en_perm en, rt_layer = demo_layer,
       rt_sink = True, rt_approvals = None, rt_model = [], rt_max_steps = 3, rt_system = ''system'',
       rt_maps = Some (compute_maps demo_reg [] []), rt_rpc = [], rt_customs = [],
       rt_draw = Pair demo_env, rt_ulid = Pair ''U1'', rt_clock = (\<lambda>s. 7), rt_jt = itoa, rt_ft = itoa, rt_jm = id\<rparr>)"

lemma demo_runtime_simps:
  "rt_engine (demo_runtime script) = demo_site exec_ok []" "rt_draw (demo_runtime script) w = (demo_env, w)"
  "rt_backend (demo_runtime script) = scripted script" "rt_layer (demo_runtime script) = demo_layer"
  "rt_ulid (demo_runtime script) w = (''U1'', w)" "rt_maps (demo_runtime script) = Some (compute_maps demo_reg [] [])"
  "rt_max_steps (demo_runtime script) = 3"
  by (simp_all add: demo_runtime_def Let_def)

definition demo_turn :: "journal turn" where
  "demo_turn = \<lparr>tn_world = empty_journal, tn_session = new_session ''s1'' 7 demo_identity, tn_events = []\<rparr>"


theorem bulk_listing_needs_approval_witness:
  "ap_required (call_approval (demo_runtime (\<lambda>n. text_answer [])) demo_user ''get_task'' [(''id'', VStr ''t1'')]
     (note_result (demo_runtime (\<lambda>n. text_answer [])) ''list_task'' [] (Inr (ResRecords [[], [], []])) (tn_session demo_turn))) \<and>
   \<not> ap_required (call_approval (demo_runtime (\<lambda>n. text_answer [])) demo_user ''get_task'' [(''id'', VStr ''t1'')]
     (note_result (demo_runtime (\<lambda>n. text_answer [])) ''list_task'' [] (Inr (ResRecords [[], []])) (tn_session demo_turn)))"
proof
  show "ap_required (call_approval (demo_runtime (\<lambda>n. text_answer [])) demo_user ''get_task'' [(''id'', VStr ''t1'')]
     (note_result (demo_runtime (\<lambda>n. text_answer [])) ''list_task'' [] (Inr (ResRecords [[], [], []])) (tn_session demo_turn)))"
  proof (rule bulk_listing_needs_approval)
    show "record_count (Inr (ResRecords [[], [], []])) = Some 3" by code_simp
    show "snake_doc_type_for (demo_runtime (\<lambda>n. text_answer [])) ''list_task'' = ''task''" by code_simp
    show "snake_doc_type_for (demo_runtime (\<lambda>n. text_answer [])) ''get_task'' = ''task''" by code_simp
    show "''task'' \<noteq> []" by simp
    show "0 < sp_max_bulk (ly_policy (rt_layer (demo_runtime (\<lambda>n. text_answer []))))" by code_simp
    show "sp_max_bulk (ly_policy (rt_layer (demo_runtime (\<lambda>n. text_answer [])))) < int 3" by code_simp
  qed
  show "\<not> ap_required (call_approval (demo_runtime (\<lambda>n. text_answer [])) demo_user ''get_task'' [(''id'', VStr ''t1'')]
     (note_result (demo_runtime (\<lambda>n. text_answer [])) ''list_task'' [] (Inr (ResRecords [[], []])) (tn_session demo_turn)))"
    by code_simp
qed

theorem agent_writes_audited_witness:
  "\<exists>e. agent_entry demo_user ''s1'' ''add a task'' ''Task'' ''create'' e"
proof -
  let ?rt = "demo_runtime (\<lambda>n. text_answer [])"
  let ?cx = "agent_ctx demo_user ''s1'' ''add a task''"
  let ?r = "dispatch_operation ?rt ?cx ''create'' ''Task''
              [(''Title'', VStr ''x'')] empty_journal"
  have en: "rt_engine ?rt = demo_site exec_ok []" by (simp add: demo_runtime_def Let_def)
  obtain L where L: "en_audit (rt_engine ?rt) = Some L"
    unfolding en by (simp add: demo_site_def)
  have "services_ok (rt_engine ?rt)" unfolding en demo_site_def by (rule site_engine_ok)
  moreover have "\<exists>w'. ?r = (Inr (ResVal (VMap [(''id'', VStr ''t2'')])), w')"
  proof -
    have "fst (doc_create (demo_site exec_ok []) demo_env ?cx ''Task'' [(''Title'', VStr ''x'')] empty_journal) = Inr ''t2''"
      by code_simp
    then obtain w' where
      c: "doc_create (demo_site exec_ok []) demo_env ?cx ''Task'' [(''Title'', VStr ''x'')] empty_journal = (Inr ''t2'', w')"
      by (metis outcome)
    show ?thesis
      unfolding dispatch_operation_def Let_def with_env_def demo_runtime_simps if_P [OF refl] bind_s_def prod.case c
      by simp
  qed
  ultimately show ?thesis using agent_writes_audited [OF _ L] by blast
qed

end
