(* ===== verification/Transcript.thy ===== *)
theory Transcript
  imports Gateway
begin

text \<open>
  The order of tool calls and their answers in the messages of a conversation: what the agent runtime
  keeps to, and what the provider adapters rely on.
\<close>

text \<open>
  What a provider accepts: a tool message answers a call that the last other message before it declared.
\<close>

fun open_calls :: "string list \<Rightarrow> chat_message list \<Rightarrow> string list" where
  "open_calls ids [] = ids"
| "open_calls ids (m # ms) = open_calls (if cm_role m = ''tool'' then ids else map lc_id (cm_calls m)) ms"

fun answers_calls :: "string list \<Rightarrow> chat_message list \<Rightarrow> bool" where
  "answers_calls ids [] = True"
| "answers_calls ids (m # ms) =
     (if cm_role m = ''tool'' then cm_call_id m \<in> set ids \<and> answers_calls ids ms
      else answers_calls (map lc_id (cm_calls m)) ms)"

lemma open_calls_append: "open_calls ids (xs @ ys) = open_calls (open_calls ids xs) ys"
  by (induction xs arbitrary: ids) auto

lemma answers_calls_append:
  "answers_calls ids (xs @ ys) \<longleftrightarrow> answers_calls ids xs \<and> answers_calls (open_calls ids xs) ys"
  by (induction xs arbitrary: ids) auto

end
