(* ===== verification/AgentRuntime.thy ===== *)
theory AgentRuntime
  imports Executor Transcript
begin

text \<open>
  The turn of the agent (\<open>agent/runtime/runtime.go\<close>) and its plan mode (\<open>agent/runtime/plan.go\<close>): the loop of
  model calls and tool calls, the escalation to a plan when calls depend on each other, the validation of
  the whole plan before its first step, the single approval and the resolution of references. The loop runs
  on the number of tool rounds left, which \<open>MaxSteps\<close> bounds.
\<close>

section \<open>Construction\<close>

record 's options =
  op_provider :: "'s backend option"
  op_tools :: "'s tool_registry option"
  op_perm :: "'s perm_engine option"
  op_registry :: "registry option"
  op_engine :: "'s engine option"
  op_workflow :: "'s wf_engine option"
  op_safety :: "'s layer option"
  op_sink :: bool
  op_approvals :: "'s approvals option"
  op_model :: string
  op_max_steps :: int
  op_system :: string
  op_ttl :: int

definition default_session_ttl :: int where
  "default_session_ttl = 30 * minute"

definition default_system_prompt :: string where
  "default_system_prompt =
     ''You are the AI agent built into this business application. '' @
     ''Interact with business records through the provided tools only; never invent records, '' @
     ''fields, or permissions that are not exposed by the tools you are given. '' @
     ''To operate on a Document Type you must first discover it: call describe_document '' @
     ''(or list_document_types) for the Document Type you need, and only then do its operation '' @
     ''tools (list, get, search, create, update, delete, execute_action) become available. '' @
     ''Read operations are safe; create, update, delete, and workflow actions are gated by policy '' @
     ''and may require human approval before they execute. '' @
     ''Prefer a clear, concise final answer in the user's language.''"

definition runtime_error :: "string \<Rightarrow> gerror" where
  "runtime_error m = StdError (''runtime: '' @ m) None"

definition option_tools :: "'s rpc_registry \<Rightarrow> 's options \<Rightarrow> registry \<Rightarrow> gerror + 's tool_registry" where
  "option_tools rpc opts reg =
     (case op_tools opts of
        Some T \<Rightarrow> Inr T
      | None \<Rightarrow>
          (case op_perm opts of
             None \<Rightarrow> Inl (runtime_error ''a perm engine is required to build the tool registry'')
           | Some p \<Rightarrow>
               (case tools_compile rpc reg (new_tool_registry p (op_workflow opts)) of
                  (Inl e, _) \<Rightarrow> Inl e
                | (Inr _, T) \<Rightarrow> Inr T)))"

text \<open>\<open>env\<close> brings the world's clock and ULID source, the package-level registries and the renderings.\<close>

definition new_runtime :: "'s runtime \<Rightarrow> 's options \<Rightarrow> gerror + ('s runtime \<times> session_manager)" where
  "new_runtime env opts =
     (case (op_provider opts, op_registry opts, op_engine opts, op_safety opts) of
        (None, _, _, _) \<Rightarrow> Inl (runtime_error ''a provider is required'')
      | (_, None, _, _) \<Rightarrow> Inl (runtime_error ''a schema registry is required'')
      | (_, _, None, _) \<Rightarrow> Inl (runtime_error ''a document engine is required'')
      | (_, _, _, None) \<Rightarrow> Inl (runtime_error ''a safety layer is required'')
      | (Some bk, Some reg, Some en, Some ly) \<Rightarrow>
          bind_r (option_tools (rt_rpc env) opts reg) (\<lambda>T.
            Inr (env\<lparr>rt_backend := bk, rt_tools := T, rt_schema := reg, rt_engine := en,
                     rt_workflow := op_workflow opts, rt_perm := op_perm opts,
                     rt_layer := (case bk_usage bk of None \<Rightarrow> ly | Some u \<Rightarrow> ly\<lparr>ly_usage := Some u\<rparr>),
                     rt_sink := op_sink opts, rt_approvals := op_approvals opts, rt_model := op_model opts,
                     rt_max_steps := (if op_max_steps opts \<le> 0 then 10 else nat (op_max_steps opts)),
                     rt_system := (if op_system opts = [] then default_system_prompt else op_system opts),
                     rt_maps := None\<rparr>,
                 new_session_manager (if op_ttl opts \<le> 0 then default_session_ttl else op_ttl opts))))"

section \<open>Calling the model\<close>

definition estimate_tokens :: "chat_message list \<Rightarrow> int" where
  "estimate_tokens msgs =
     fold (\<lambda>m total. fold (\<lambda>c n. n + int (length (lc_arguments c)) div 4) (cm_calls m)
             (total + int (length (cm_content m)) div 4 + int (length (cm_name m)) div 4 + 4)) msgs 0"

definition projected_for :: "string \<Rightarrow> session \<Rightarrow> int" where
  "projected_for msg se = estimate_tokens (se_transcript se) + int (length msg) div 4 + 256"

definition content_message :: "string \<Rightarrow> string \<Rightarrow> chat_message" where
  "content_message role text = \<lparr>cm_role = role, cm_content = text, cm_name = [], cm_call_id = [], cm_calls = []\<rparr>"

definition calls_message :: "llm_call list \<Rightarrow> chat_message" where
  "calls_message cs = \<lparr>cm_role = ''assistant'', cm_content = [], cm_name = [], cm_call_id = [], cm_calls = cs\<rparr>"

definition tool_message :: "string \<Rightarrow> string \<Rightarrow> string \<Rightarrow> chat_message" where
  "tool_message i name text = \<lparr>cm_role = ''tool'', cm_content = text, cm_name = name, cm_call_id = i, cm_calls = []\<rparr>"

definition build_messages :: "'s runtime \<Rightarrow> session \<Rightarrow> chat_message list" where
  "build_messages rt se = content_message ''system'' (rt_system rt) # se_transcript se"

definition token_budget :: "'s runtime \<Rightarrow> 's turn \<Rightarrow> int \<Rightarrow> gerror + unit" where
  "token_budget rt t n =
     check_token_budget (ly_policy (rt_layer rt)) (map_option (\<lambda>u. u (tn_world t)) (ly_usage (rt_layer rt)))
       (se_id (tn_session t)) n"

definition chat_request_for :: "'s runtime \<Rightarrow> session \<Rightarrow> tool_definition list \<Rightarrow> json_format option \<Rightarrow> chat_request" where
  "chat_request_for rt se tools fmt =
     \<lparr>rq_model = rt_model rt, rq_messages = build_messages rt se, rq_tools = tools, rq_temperature = (0, 0),
      rq_max_tokens = 0, rq_format = fmt\<rparr>"

definition track_turn :: "'s backend \<Rightarrow> string \<Rightarrow> token_usage \<Rightarrow> 's \<Rightarrow> 's" where
  "track_turn bk sid u w = (case bk_track bk of Some f \<Rightarrow> f sid u w | None \<Rightarrow> w)"

definition chat ::
    "'s runtime \<Rightarrow> 's backend \<Rightarrow> tool_definition list \<Rightarrow> json_format option \<Rightarrow> 's turn \<Rightarrow> (gerror + chat_response) \<times> 's turn" where
  "chat rt bk tools fmt t =
     (case token_budget rt t (estimate_tokens (build_messages rt (tn_session t))) of
        Inl e \<Rightarrow> (Inl e, t)
      | Inr _ \<Rightarrow>
          (case lp_chat (bk_provider bk) (chat_request_for rt (tn_session t) tools fmt) (tn_world t) of
             (Inl e, w) \<Rightarrow> (Inl (to_gerror e), t\<lparr>tn_world := w\<rparr>)
           | (Inr r, w) \<Rightarrow> (Inr r, t\<lparr>tn_world := track_turn bk (se_id (tn_session t)) (rs_usage r) w\<rparr>)))"

definition emit_tokens :: "'s runtime \<Rightarrow> string \<Rightarrow> 's turn \<Rightarrow> 's turn" where
  "emit_tokens rt text t =
     (if text = [] then t
      else emit rt ((plain_event ''token'')\<lparr>ev_content := text, ev_sender := ''assistant''\<rparr>) t)"

text \<open>A call depends on an earlier one when its arguments contain \<open>ref:<j>\<close>.\<close>

definition has_data_dependency :: "llm_call list \<Rightarrow> bool" where
  "has_data_dependency calls =
     list_ex (\<lambda>(i, c). list_ex (\<lambda>j. contains_str (lc_arguments c) (''ref:'' @ itoa (int j))) [0..<i])
       (List.enumerate 0 calls)"

record response =
  rp_content :: string
  rp_session :: string
  rp_tool_calls :: nat

section \<open>Plan mode\<close>

definition answer_with :: "string \<Rightarrow> nat \<Rightarrow> 's turn \<Rightarrow> (gerror + response) \<times> 's turn" where
  "answer_with msg steps t =
     (Inr \<lparr>rp_content = msg, rp_session = se_id (tn_session t), rp_tool_calls = steps\<rparr>,
      say (content_message ''assistant'' msg) t)"

definition plan_failure :: "string \<Rightarrow> 's turn \<Rightarrow> (gerror + response) \<times> 's turn" where
  "plan_failure msg t = answer_with msg 0 t"

definition planner_format :: json_format where
  "planner_format = \<lparr>jf_name = ''plan'', jf_schema = plan_format\<rparr>"

definition request_plan_with ::
    "'s runtime \<Rightarrow> 's backend \<Rightarrow> tool_definition list \<Rightarrow> string \<Rightarrow> 's turn \<Rightarrow> (string + plan) \<times> 's turn" where
  "request_plan_with rt bk tools extra t =
     (let t = (if extra = [] then t else say (content_message ''user'' extra) t) in
      case chat rt bk tools (Some planner_format) t of
        (Inl e, t) \<Rightarrow> (Inl (error_text e), t)
      | (Inr r, t) \<Rightarrow>
          (case plan_unmarshal (rt_jm rt) (rs_content r) of
             Inl e \<Rightarrow> (Inl e, t)
           | Inr p \<Rightarrow> (Inr p, say (content_message ''assistant'' (rs_content r)) t)))"

definition reason_rank :: "string \<Rightarrow> int" where
  "reason_rank r =
     (if r = ''AlwaysRequireApproval'' then 3 else if r = ''BulkLimit'' then 2 else if r = ''RoleOverride'' then 1 else 0)"

definition stricter_reason :: "approval_reason option \<Rightarrow> string \<Rightarrow> bool" where
  "stricter_reason c cur = (cur = [] \<or> reason_rank cur < reason_rank (reason_string c))"

definition step_approval :: "'s runtime \<Rightarrow> ctx \<Rightarrow> plan_step \<Rightarrow> approval" where
  "step_approval rt cx s =
     requires_approval_with_reason (ly_policy (rt_layer rt)) (auth_from_context cx)
       \<lparr>tc_verb = verb_for (ps_operation s) (ps_args s), tc_tool = ps_operation s, tc_args = ps_args s, tc_count = 0\<rparr>"

text \<open>The reason of the approval of the whole plan, if any step needs one.\<close>

definition plan_reason :: "'s runtime \<Rightarrow> ctx \<Rightarrow> plan \<Rightarrow> string option" where
  "plan_reason rt cx p =
     fold (\<lambda>s acc. let a = step_approval rt cx s in
             if \<not> ap_required a then acc
             else let cur = (case acc of None \<Rightarrow> [] | Some r \<Rightarrow> r)
                  in Some (if stricter_reason (ap_reason a) cur then reason_string (ap_reason a) else cur))
       (pl_steps p) None"

definition plan_summary :: "plan \<Rightarrow> row" where
  "plan_summary p =
     [(''step_count'', VInt (int (length (pl_steps p)))),
      (''steps'', VList (map (\<lambda>s. VMap [(''operation'', VStr (ps_operation s)),
                                       (''depends_on'', VList (map VInt (ps_depends s)))]) (pl_steps p)))]"

text \<open>\<open>planApproval\<close>: whether the plan may run.\<close>

definition plan_approval ::
    "'s runtime \<Rightarrow> 's approvals option \<Rightarrow> ctx \<Rightarrow> plan \<Rightarrow> 's turn \<Rightarrow> bool \<times> 's turn" where
  "plan_approval rt ap cx p t =
     (case plan_reason rt cx p of
        None \<Rightarrow> (True, t)
      | Some strict \<Rightarrow>
          (case ap of
             None \<Rightarrow> (False, t)
           | Some ask \<Rightarrow>
               (let (u, w) = rt_ulid rt (tn_world t);
                    y = \<lparr>ay_action_id = ''req-'' @ u,
                         ay_details = \<lparr>ad_doc_type = [], ad_action = ''plan'', ad_payload = plan_summary p, ad_reason = strict\<rparr>\<rparr>;
                    t = emit rt (approval_event y) (t\<lparr>tn_world := w\<rparr>);
                    (r, w) = ask cx y (tn_world t)
                in (case r of Inl _ \<Rightarrow> False | Inr x \<Rightarrow> ar_approved x, t\<lparr>tn_world := w\<rparr>))))"

definition extract_result :: "string \<Rightarrow> string \<Rightarrow> string + val" where
  "extract_result res fld =
     (if fld = [] then Inr (VStr res)
      else case json_object res of
             None \<Rightarrow> Inl (''cannot extract '' @ go_quote fld @ '' from a non-object result'')
           | Some m \<Rightarrow>
               (case map_of m fld of
                  None \<Rightarrow> Inl (''result has no field '' @ go_quote fld)
                | Some v \<Rightarrow> Inr v))"

text \<open>The value of one argument.\<close>

definition resolve_arg :: "(int \<times> string) list \<Rightarrow> val \<Rightarrow> string + val" where
  "resolve_arg results v =
     (case v of
        VStr s \<Rightarrow>
          if \<not> has_prefix s ''ref:'' then Inr v
          else (let ref = drop 4 s;
                    (idx, fld) = (case index_byte ref (CHR ''.'') of
                                    Some d \<Rightarrow> (take d ref, drop (Suc d) ref) | None \<Rightarrow> (ref, []))
                in case atoi idx of
                     None \<Rightarrow> Inl (''invalid result reference '' @ go_quote ref)
                   | Some i \<Rightarrow>
                       (case map_of results i of
                          None \<Rightarrow> Inl (''step references result '' @ go_quote ref @ '' that was not produced by an earlier step'')
                        | Some res \<Rightarrow> extract_result res fld))
      | _ \<Rightarrow> Inr v)"

fun resolve_all :: "(int \<times> string) list \<Rightarrow> row \<Rightarrow> string + row" where
  "resolve_all results [] = Inr []"
| "resolve_all results ((k, v) # args) =
     bind_r (resolve_arg results v) (\<lambda>v'. bind_r (resolve_all results args) (\<lambda>r. Inr ((k, v') # r)))"

definition resolve_refs :: "(int \<times> string) list \<Rightarrow> row \<Rightarrow> string + row" where
  "resolve_refs results args = (if results = [] then Inr args else resolve_all results args)"

definition append_plan_step :: "'s runtime \<Rightarrow> string \<Rightarrow> string \<Rightarrow> row \<Rightarrow> string \<Rightarrow> 's turn \<Rightarrow> 's turn" where
  "append_plan_step rt i name args obs t =
     say (tool_message i name obs)
       (say (calls_message [\<lparr>lc_id = i, lc_name = name, lc_arguments = json_encode (rt_jt rt) (VMap args)\<rparr>]) t)"

text \<open>
  The arguments as the transcript shows them after the call: an update that was dispatched has deleted
  \<open>id\<close> from the map it was given.
\<close>

definition recorded_args :: "'s runtime \<Rightarrow> string \<Rightarrow> row \<Rightarrow> row" where
  "recorded_args rt name args =
     (if is_tool_allowed (ly_policy (rt_layer rt)) name \<and> \<not> discovery_tool name \<and>
         fst (split_operation_tool name) = ''update'' \<and> doc_type_for rt name \<noteq> []
      then AList.delete ''id'' args else args)"

definition plan_call_id :: "'s runtime \<Rightarrow> 's turn \<Rightarrow> string \<times> 's turn" where
  "plan_call_id rt t = (let (u, w) = rt_ulid rt (tn_world t) in (''call_'' @ u, t\<lparr>tn_world := w\<rparr>))"

text \<open>The steps from number \<open>i\<close> on; returns how many were executed.\<close>

fun run_steps ::
    "'s runtime \<Rightarrow> 's approvals option \<Rightarrow> ctx \<Rightarrow> string \<Rightarrow> (string \<times> row) list \<Rightarrow> int \<Rightarrow> (int \<times> string) list
     \<Rightarrow> plan_step list \<Rightarrow> 's turn \<Rightarrow> nat \<times> 's turn" where
  "run_steps rt ap cx msg schemas i results [] t = (0, t)"
| "run_steps rt ap cx msg schemas i results (s # ss) t =
     (let op = ps_operation s; (cid, t) = plan_call_id rt t in
      case resolve_refs results (ps_args s) of
        Inl e \<Rightarrow>
          run_steps rt ap cx msg schemas (i + 1) results ss (append_plan_step rt cid op (ps_args s) (''error: '' @ e) t)
      | Inr args \<Rightarrow>
          (case validate_step_args (rt_ft rt) op args (map_of schemas op) of
             Some e \<Rightarrow>
               run_steps rt ap cx msg schemas (i + 1) results ss (append_plan_step rt cid op args (''error: '' @ e) t)
           | None \<Rightarrow>
               (let (obs, t) = execute_tool rt ap cx op args msg True t;
                    t = append_plan_step rt cid op (recorded_args rt op args) obs t;
                    (n, t) = run_steps rt ap cx msg schemas (i + 1) ((i, obs) # results) ss t
                in (Suc n, t))))"

definition deterministic_summary :: "session \<Rightarrow> string" where
  "deterministic_summary se =
     ''The plan completed. Last results:'' @ [CHR 0x0A] @ ''- '' @
     join_with (CHR 0x0A # ''- '')
       (take 3 (map cm_content (filter (\<lambda>m. cm_role m = ''tool'') (rev (se_transcript se)))))"

definition synthesize_summary :: "'s runtime \<Rightarrow> 's backend \<Rightarrow> 's turn \<Rightarrow> string \<times> 's turn" where
  "synthesize_summary rt bk t =
     (case chat rt bk [] None t of
        (Inl e, t) \<Rightarrow> (deterministic_summary (tn_session t), t)
      | (Inr r, t) \<Rightarrow> (rs_content r, t))"

definition run_validated_plan ::
    "'s runtime \<Rightarrow> 's backend \<Rightarrow> 's approvals option \<Rightarrow> ctx \<Rightarrow> string \<Rightarrow> (string \<times> row) list \<Rightarrow> plan \<Rightarrow> 's turn
     \<Rightarrow> (gerror + response) \<times> 's turn" where
  "run_validated_plan rt bk ap cx msg schemas p t =
     (let (ok, t) = plan_approval rt ap cx p t in
      if \<not> ok then answer_with ''The plan was not approved; no steps were executed.'' 0 t
      else let (n, t) = run_steps rt ap cx msg schemas 0 [] (pl_steps p) t;
               (final, t) = synthesize_summary rt bk t
           in answer_with final n t)"

definition plan_rejected :: "string \<Rightarrow> string" where
  "plan_rejected e = ''Your previous plan was rejected before any step executed: '' @ e @
     '' Produce a corrected plan that satisfies all constraints.''"

definition unparseable :: "string \<Rightarrow> string" where
  "unparseable e = ''The model could not produce a parseable plan. '' @ e"

definition execute_plan_mode ::
    "'s runtime \<Rightarrow> 's backend \<Rightarrow> 's approvals option \<Rightarrow> ctx \<Rightarrow> string \<Rightarrow> tool_definition list \<Rightarrow> (string \<times> row) list
     \<Rightarrow> 's turn \<Rightarrow> (gerror + response) \<times> 's turn" where
  "execute_plan_mode rt bk ap cx msg tools schemas t =
     (case request_plan_with rt bk tools [] t of
        (Inl e, t) \<Rightarrow> plan_failure (unparseable e) t
      | (Inr p, t) \<Rightarrow>
          (case plan_validate (rt_ft rt) (Some p) schemas of
             None \<Rightarrow> run_validated_plan rt bk ap cx msg schemas p t
           | Some v \<Rightarrow>
               (case request_plan_with rt bk tools (plan_rejected v) t of
                  (Inl e, t) \<Rightarrow> plan_failure (unparseable e) t
                | (Inr p, t) \<Rightarrow>
                    (case plan_validate (rt_ft rt) (Some p) schemas of
                       None \<Rightarrow> run_validated_plan rt bk ap cx msg schemas p t
                     | Some v \<Rightarrow> plan_failure
                         (''The model could not produce a valid plan. No operations were performed. Validation: '' @ v) t))))"

section \<open>The loop\<close>

fun run_calls ::
    "'s runtime \<Rightarrow> 's approvals option \<Rightarrow> ctx \<Rightarrow> string \<Rightarrow> llm_call list \<Rightarrow> 's turn \<Rightarrow> 's turn" where
  "run_calls rt ap cx msg [] t = t"
| "run_calls rt ap cx msg (c # cs) t =
     (let (obs, t) = execute_tool_call rt ap cx c msg t
      in run_calls rt ap cx msg cs (say (tool_message (lc_id c) (lc_name c) obs) t))"

definition too_many_steps :: "'s runtime \<Rightarrow> gerror" where
  "too_many_steps rt = validation_err ''agent exceeded the maximum number of tool-call steps''
     [(''max_steps'', VInt (int (rt_max_steps rt)))]"

definition next_response ::
    "'s runtime \<Rightarrow> 's backend \<Rightarrow> ctx \<Rightarrow> 's turn \<Rightarrow> (gerror + chat_response) \<times> 's turn" where
  "next_response rt bk cx t =
     (let (tools, t) = tools_for_turn rt cx (auth_from_context cx) t in
      case chat rt bk tools None t of
        (Inl e, t) \<Rightarrow> (Inl e, t)
      | (Inr r, t) \<Rightarrow> (Inr r, emit_tokens rt (rs_content r) t))"

text \<open>\<open>left\<close> is \<open>maxSteps - toolSteps\<close>: the tool rounds that may still run.\<close>

fun react ::
    "'s runtime \<Rightarrow> 's backend \<Rightarrow> 's approvals option \<Rightarrow> ctx \<Rightarrow> string \<Rightarrow> nat \<Rightarrow> chat_response \<Rightarrow> 's turn
     \<Rightarrow> (gerror + response) \<times> 's turn" where
  "react rt bk ap cx msg left r t =
     (if rs_calls r = [] then answer_with (rs_content r) (rt_max_steps rt - left) t
      else case left of
        0 \<Rightarrow> (Inl (too_many_steps rt), t)
      | Suc left' \<Rightarrow>
          if has_data_dependency (rs_calls r)
          then (let (tools, t) = tools_for_turn rt cx (auth_from_context cx) t
                in execute_plan_mode rt bk ap cx msg tools (schemas_for tools) t)
          else (case next_response rt bk cx (run_calls rt ap cx msg (rs_calls r) (say (calls_message (rs_calls r)) t)) of
                  (Inl e, t) \<Rightarrow> (Inl e, t)
                | (Inr r', t) \<Rightarrow> react rt bk ap cx msg left' r' t))"

declare react.simps [simp del]

section \<open>Execute\<close>

datatype 's exec_option = WithProvider "'s backend" | WithApprovals "'s approvals"

text \<open>The provider and the approval gateway of a turn; a later option of a kind wins.\<close>

definition turn_backend :: "'s runtime \<Rightarrow> 's exec_option list \<Rightarrow> 's backend option" where
  "turn_backend rt opts = fold (\<lambda>o1 acc. case o1 of WithProvider b \<Rightarrow> Some b | _ \<Rightarrow> acc) opts None"

definition turn_approvals :: "'s runtime \<Rightarrow> 's exec_option list \<Rightarrow> 's approvals option" where
  "turn_approvals rt opts =
     (case fold (\<lambda>o1 acc. case o1 of WithApprovals a \<Rightarrow> Some a | _ \<Rightarrow> acc) opts None of
        Some a \<Rightarrow> Some a
      | None \<Rightarrow>
          (case turn_backend rt opts of
             Some b \<Rightarrow> (case bk_approvals b of Some a \<Rightarrow> Some a | None \<Rightarrow> rt_approvals rt)
           | None \<Rightarrow> rt_approvals rt))"

text \<open>The turn after the session is known; the context carries it.\<close>

definition execute_turn ::
    "'s runtime \<Rightarrow> 's backend \<Rightarrow> 's approvals option \<Rightarrow> ctx \<Rightarrow> string \<Rightarrow> 's turn \<Rightarrow> (gerror + response) \<times> 's turn" where
  "execute_turn rt bk ap cx msg t =
     (case ly_rate (rt_layer rt) cx (auth_from_context cx) (tn_world t) of
        (Inl e, w) \<Rightarrow> (Inl e, t\<lparr>tn_world := w\<rparr>)
      | (Inr _, w) \<Rightarrow>
          (let t = t\<lparr>tn_world := w\<rparr> in
           case token_budget rt t (projected_for msg (tn_session t)) of
             Inl e \<Rightarrow> (Inl e, t)
           | Inr _ \<Rightarrow>
               (case next_response rt bk cx (say (content_message ''user'' msg) t) of
                  (Inl e, t) \<Rightarrow> (Inl e, t)
                | (Inr r, t) \<Rightarrow> react rt bk ap cx msg (rt_max_steps rt) r t)))"

text \<open>\<open>Execute\<close>: the session is shared by pointer, so the manager sees what the turn did to it.\<close>

definition store_session :: "session \<Rightarrow> session_manager \<Rightarrow> session_manager" where
  "store_session se m =
     (case map_of (sm_sessions m) (se_id se) of
        None \<Rightarrow> m
      | Some _ \<Rightarrow> m\<lparr>sm_sessions := AList.update (se_id se) se (sm_sessions m)\<rparr>)"

definition execute ::
    "'s runtime \<Rightarrow> 's exec_option list \<Rightarrow> ctx \<Rightarrow> string \<Rightarrow> session_manager \<Rightarrow> 's
     \<Rightarrow> (gerror + response) \<times> 's turn \<times> session_manager \<times> 's runtime" where
  "execute rt opts cx msg m w =
     (let rt = build_maps rt;
          bk = (case turn_backend rt opts of Some b \<Rightarrow> b | None \<Rightarrow> rt_backend rt);
          i = auth_from_context cx;
          (u, w) = rt_ulid rt w;
          (se, m) = session_for u (rt_clock rt w) cx i m;
          cx = with_session (auth_new_context cx i) (se_id se);
          (r, t) = execute_turn rt bk (turn_approvals rt opts) cx msg \<lparr>tn_world = w, tn_session = se, tn_events = []\<rparr>
      in (r, t, store_session (tn_session t) m, rt))"

section \<open>The transcript\<close>

definition well_formed_transcript :: "session \<Rightarrow> bool" where
  "well_formed_transcript se = answers_calls [] (se_transcript se)"

definition session_calls :: "session \<Rightarrow> string list" where
  "session_calls se = open_calls [] (se_transcript se)"

lemma message_roles [simp]:
  "cm_role (content_message role s) = role" "cm_role (calls_message cs) = ''assistant''"
  "cm_role (tool_message i n s) = ''tool''" "cm_call_id (tool_message i n s) = i" "cm_calls (calls_message cs) = cs"
  "cm_calls (content_message role s) = []" "cm_calls (tool_message i n s) = []"
  by (simp_all add: content_message_def calls_message_def tool_message_def)

lemma say_fields [simp]:
  "tn_world (say m t) = tn_world t" "tn_events (say m t) = tn_events t"
  "se_transcript (tn_session (say m t)) = se_transcript (tn_session t) @ [m]"
  "se_id (tn_session (say m t)) = se_id (tn_session t)"
  by (simp_all add: say_def add_message_def)

lemma say_tool:
  assumes "well_formed_transcript (tn_session t)" and "i \<in> set (session_calls (tn_session t))"
  shows "well_formed_transcript (tn_session (say (tool_message i n s) t))"
    and "session_calls (tn_session (say (tool_message i n s) t)) = session_calls (tn_session t)"
  using assms
  by (simp_all add: well_formed_transcript_def session_calls_def answers_calls_append open_calls_append)

lemma say_other:
  assumes "well_formed_transcript (tn_session t)" and "cm_role m \<noteq> ''tool''"
  shows "well_formed_transcript (tn_session (say m t))"
    and "session_calls (tn_session (say m t)) = map lc_id (cm_calls m)"
  using assms
  by (simp_all add: well_formed_transcript_def session_calls_def answers_calls_append open_calls_append)

text \<open>Steps that leave the transcript and the session's identity alone.\<close>

definition quiet :: "'s turn \<Rightarrow> 's turn \<Rightarrow> bool" where
  "quiet t t' \<longleftrightarrow> se_transcript (tn_session t') = se_transcript (tn_session t) \<and>
     se_id (tn_session t') = se_id (tn_session t)"

lemma quiet_refl [simp]: "quiet t t"
  by (simp add: quiet_def)

lemma quiet_trans [trans]: "quiet t u \<Longrightarrow> quiet u v \<Longrightarrow> quiet t v"
  by (simp add: quiet_def)

lemma quiet_emit [simp]: "quiet t (emit rt e t)" "quiet t (emit_tokens rt s t)"
  by (simp_all add: quiet_def emit_tokens_def)

lemma quiet_world [simp]: "quiet t (t\<lparr>tn_world := w\<rparr>)"
  by (simp add: quiet_def)

lemma note_result_transcript [simp]:
  "se_transcript (note_result rt name args out se) = se_transcript se"
  "se_id (note_result rt name args out se) = se_id se"
  by (simp_all add: note_result_def mark_doc_types_seen_def mark_seen_def set_target_count_def Let_def split: option.splits)

lemma quiet_run_tool: "quiet t (snd (run_tool rt cx name args prompt t))"
  by (simp add: quiet_def run_tool_def split: prod.splits)

lemma quiet_authorise: "quiet t (snd (authorise rt ap cx name args b t))"
  by (auto simp: quiet_def authorise_def gate_approval_def Let_def split: prod.splits option.splits)

lemma quiet_execute_tool: "quiet t (snd (execute_tool rt ap cx name args prompt b t))"
proof -
  let ?t = "emit rt (tool_event ''tool_start'' name False) t"
  have "quiet t ?t" by simp
  also have "quiet ?t (snd (authorise rt ap cx name args b ?t))" by (rule quiet_authorise)
  finally have q: "quiet t (snd (authorise rt ap cx name args b ?t))" .
  show ?thesis
  proof (cases "is_tool_allowed (ly_policy (rt_layer rt)) name")
    case False
    then show ?thesis by (simp add: execute_tool_def quiet_def)
  next
    case True
    obtain r u where au: "authorise rt ap cx name args b ?t = (r, u)" by (cases "authorise rt ap cx name args b ?t")
    show ?thesis
    proof (cases r)
      case (Inl obs)
      then show ?thesis using True au q by (simp add: execute_tool_def quiet_def)
    next
      case (Inr args')
      have "quiet u (snd (run_tool rt cx name args' prompt u))" by (rule quiet_run_tool)
      then show ?thesis using True au q Inr
        by (simp add: execute_tool_def quiet_def case_prod_beta)
    qed
  qed
qed

lemma quiet_chat: "quiet t (snd (chat rt bk tools fmt t))"
  by (auto simp: chat_def split: sum.splits prod.splits)

lemma quiet_tools: "quiet t (snd (tools_for_turn rt cx i t))"
  by (simp add: quiet_def)

lemma quiet_next_response: "quiet t (snd (next_response rt bk cx t))"
proof -
  obtain ds u where u: "tools_for_turn rt cx (auth_from_context cx) t = (ds, u)" by (cases "tools_for_turn rt cx (auth_from_context cx) t")
  then have "quiet t u" using quiet_tools [of t rt cx "auth_from_context cx"] by simp
  moreover have "quiet u (snd (chat rt bk ds None u))" by (rule quiet_chat)
  ultimately have q: "quiet t (snd (chat rt bk ds None u))" by (rule quiet_trans)
  obtain r v where v: "chat rt bk ds None u = (r, v)" by (cases "chat rt bk ds None u")
  show ?thesis using q u v quiet_emit(2) [of v rt] by (cases r) (auto simp: next_response_def intro: quiet_trans)
qed

lemma quiet_plan_approval: "quiet t (snd (plan_approval rt ap cx p t))"
  by (auto simp: quiet_def plan_approval_def Let_def split: prod.splits option.splits)

lemma quiet_call_id: "quiet t (snd (plan_call_id rt t))"
  by (simp add: plan_call_id_def split: prod.splits)

lemma quiet_wf:
  assumes "quiet t t'"
  shows "well_formed_transcript (tn_session t') = well_formed_transcript (tn_session t)"
    and "session_calls (tn_session t') = session_calls (tn_session t)"
  using assms by (simp_all add: quiet_def well_formed_transcript_def session_calls_def)

lemma run_calls_wf:
  assumes "well_formed_transcript (tn_session t)" and "lc_id ` set cs \<subseteq> set (session_calls (tn_session t))"
  shows "well_formed_transcript (tn_session (run_calls rt ap cx msg cs t))"
  using assms
proof (induction cs arbitrary: t)
  case (Cons c cs)
  obtain obs u where u: "execute_tool_call rt ap cx c msg t = (obs, u)" by (cases "execute_tool_call rt ap cx c msg t")
  have "quiet t u" using quiet_execute_tool u by (metis execute_tool_call_def snd_conv)
  note q = quiet_wf [OF this]
  let ?u = "say (tool_message (lc_id c) (lc_name c) obs) u"
  have "well_formed_transcript (tn_session u)" "lc_id c \<in> set (session_calls (tn_session u))"
    using Cons.prems q by simp_all
  note s = say_tool [OF this]
  have "lc_id ` set cs \<subseteq> set (session_calls (tn_session ?u))" using Cons.prems(2) s(2) q(2) by simp
  from Cons.IH [OF s(1) this] show ?case by (simp add: u)
qed simp

lemma append_plan_step_wf:
  assumes "well_formed_transcript (tn_session t)"
  shows "well_formed_transcript (tn_session (append_plan_step rt i name args obs t))"
  unfolding append_plan_step_def
  by (rule say_tool(1)) (simp_all add: say_other assms)

lemma answer_with_wf:
  "well_formed_transcript (tn_session t) \<Longrightarrow> well_formed_transcript (tn_session (snd (answer_with s n t)))"
  by (simp add: answer_with_def say_other)

lemma run_steps_wf:
  "well_formed_transcript (tn_session t) \<Longrightarrow>
     well_formed_transcript (tn_session (snd (run_steps rt ap cx msg schemas i results ss t)))"
proof (induction ss arbitrary: i results t)
  case (Cons s ss)
  obtain cid u where c: "plan_call_id rt t = (cid, u)" by (cases "plan_call_id rt t")
  have wf: "well_formed_transcript (tn_session u)"
    using Cons.prems quiet_wf(1) [OF quiet_call_id [of t rt]] c by simp
  show ?case
  proof (cases "resolve_refs results (ps_args s)")
    case (Inl e)
    then show ?thesis using c Cons.IH [OF append_plan_step_wf [OF wf]] by simp
  next
    case (Inr args)
    show ?thesis
    proof (cases "validate_step_args (rt_ft rt) (ps_operation s) args (map_of schemas (ps_operation s))")
      case (Some e)
      then show ?thesis using c Inr Cons.IH [OF append_plan_step_wf [OF wf]] by simp
    next
      case None
      obtain obs v where v: "execute_tool rt ap cx (ps_operation s) args msg True u = (obs, v)"
        by (cases "execute_tool rt ap cx (ps_operation s) args msg True u")
      have "well_formed_transcript (tn_session v)"
        using wf quiet_wf(1) [OF quiet_execute_tool [of u rt ap cx "ps_operation s" args msg True]] v by simp
      then show ?thesis using c Inr None v Cons.IH [OF append_plan_step_wf]
        by (simp add: case_prod_beta Let_def)
    qed
  qed
qed simp

lemma request_plan_wf:
  assumes "well_formed_transcript (tn_session t)"
  shows "well_formed_transcript (tn_session (snd (request_plan_with rt bk tools extra t)))"
proof -
  define u where "u = (if extra = [] then t else say (content_message ''user'' extra) t)"
  have u: "well_formed_transcript (tn_session u)" using assms by (simp add: u_def say_other)
  obtain r v where v: "chat rt bk tools (Some planner_format) u = (r, v)"
    by (cases "chat rt bk tools (Some planner_format) u")
  have "well_formed_transcript (tn_session v)"
    using u quiet_wf(1) [OF quiet_chat [of u rt bk tools "Some planner_format"]] v by simp
  then show ?thesis
    using v by (auto simp: request_plan_with_def u_def [symmetric] say_other split: sum.splits)
qed

lemma run_validated_plan_wf:
  assumes "well_formed_transcript (tn_session t)"
  shows "well_formed_transcript (tn_session (snd (run_validated_plan rt bk ap cx msg schemas p t)))"
proof -
  obtain ok u where u: "plan_approval rt ap cx p t = (ok, u)" by (cases "plan_approval rt ap cx p t")
  have wu: "well_formed_transcript (tn_session u)"
    using assms quiet_wf(1) [OF quiet_plan_approval [of t rt ap cx p]] u by simp
  obtain n v where v: "run_steps rt ap cx msg schemas 0 [] (pl_steps p) u = (n, v)"
    by (cases "run_steps rt ap cx msg schemas 0 [] (pl_steps p) u")
  have wv: "well_formed_transcript (tn_session v)"
    using run_steps_wf [OF wu, of rt ap cx msg schemas 0 "[]" "pl_steps p"] v by simp
  have "well_formed_transcript (tn_session (snd (synthesize_summary rt bk v)))"
    using wv quiet_wf(1) [OF quiet_chat [of v rt bk "[]" None]]
    by (auto simp: synthesize_summary_def split: prod.splits sum.splits)
  then show ?thesis using u v wu by (simp add: run_validated_plan_def answer_with_wf case_prod_beta)
qed

lemma plan_mode_wf:
  assumes "well_formed_transcript (tn_session t)"
  shows "well_formed_transcript (tn_session (snd (execute_plan_mode rt bk ap cx msg tools schemas t)))"
proof -
  have 1: "well_formed_transcript (tn_session u)" if "request_plan_with rt bk tools [] t = (r, u)" for r u
    using request_plan_wf [OF assms, of rt bk tools "[]"] that by simp
  have 2: "well_formed_transcript (tn_session v)"
    if "request_plan_with rt bk tools [] t = (r, u)" "request_plan_with rt bk tools x u = (q, v)" for r u x q v
    using request_plan_wf [OF 1 [OF that(1)], of rt bk tools x] that(2) by simp
  show ?thesis
    by (auto simp: execute_plan_mode_def plan_failure_def split: prod.splits sum.splits option.splits
        intro!: answer_with_wf run_validated_plan_wf dest: 1 2)
qed

lemma react_wf:
  "well_formed_transcript (tn_session t) \<Longrightarrow> well_formed_transcript (tn_session (snd (react rt bk ap cx msg left r t)))"
proof (induction left arbitrary: r t)
  case 0
  then show ?case by (simp add: react.simps answer_with_wf)
next
  case (Suc left)
  let ?t = "say (calls_message (rs_calls r)) t"
  have s: "well_formed_transcript (tn_session ?t)" "session_calls (tn_session ?t) = map lc_id (rs_calls r)"
    using say_other [OF Suc.prems, of "calls_message (rs_calls r)"] by simp_all
  have rc: "well_formed_transcript (tn_session (run_calls rt ap cx msg (rs_calls r) ?t))"
    by (rule run_calls_wf [OF s(1)]) (simp add: s(2))
  obtain q u where u: "next_response rt bk cx (run_calls rt ap cx msg (rs_calls r) ?t) = (q, u)"
    by (cases "next_response rt bk cx (run_calls rt ap cx msg (rs_calls r) ?t)")
  have wu: "well_formed_transcript (tn_session u)"
    using rc quiet_wf(1) [OF quiet_next_response [of "run_calls rt ap cx msg (rs_calls r) ?t" rt bk cx]] u by simp
  have pm: "well_formed_transcript (tn_session (snd (execute_plan_mode rt bk ap cx msg tools schemas v)))"
    if "tools_for_turn rt cx i t = (tools, v)" for i tools schemas v
    using that Suc.prems quiet_wf(1) [OF quiet_tools [of t rt cx i]] by (simp add: plan_mode_wf)
  show ?case
    using u wu Suc answer_with_wf [OF Suc.prems] pm
    by (subst react.simps) (auto split: sum.splits prod.splits)
qed

lemma execute_turn_wf:
  assumes "well_formed_transcript (tn_session t)"
  shows "well_formed_transcript (tn_session (snd (execute_turn rt bk ap cx msg t)))"
proof -
  have s: "well_formed_transcript (tn_session (say (content_message ''user'' msg) (t\<lparr>tn_world := w\<rparr>)))" for w
    using assms by (simp add: say_other)
  have "well_formed_transcript (tn_session v)"
    if "next_response rt bk cx (say (content_message ''user'' msg) (t\<lparr>tn_world := w\<rparr>)) = (r, v)" for r v w
    using s [of w] quiet_wf(1) [OF quiet_next_response, of rt bk cx "say (content_message ''user'' msg) (t\<lparr>tn_world := w\<rparr>)"] that
    by simp
  then show ?thesis using assms
    by (auto simp: execute_turn_def Let_def react_wf split: sum.splits prod.splits)
qed

end
