(* ===== verification/TurnSafety.thy ===== *)
theory TurnSafety
  imports AgentRuntime
begin

text \<open>
  What a turn of the agent guarantees: transcripts a provider accepts, a bound on the tool rounds, and
  plans that run only when they are valid as a whole and approved.
\<close>

section \<open>Transcripts\<close>

definition sessions_well_formed :: "session_manager \<Rightarrow> bool" where
  "sessions_well_formed m \<longleftrightarrow> (\<forall>(k, se) \<in> set (sm_sessions m). well_formed_transcript se)"

lemma new_session_wf: "well_formed_transcript (new_session u now i)"
  by (simp add: new_session_def well_formed_transcript_def)

lemma sessions_wf_subset:
  "sessions_well_formed m \<Longrightarrow> set (sm_sessions m') \<subseteq> set (sm_sessions m) \<Longrightarrow> sessions_well_formed m'"
  by (auto simp: sessions_well_formed_def)

lemma sessions_wf_put:
  "sessions_well_formed m \<Longrightarrow> well_formed_transcript se \<Longrightarrow>
     sessions_well_formed (m\<lparr>sm_sessions := AList.update k se (sm_sessions m)\<rparr>)"
  using set_update_subset [of k se "sm_sessions m"] by (auto simp: sessions_well_formed_def)

lemma sessions_wf_new:
  "sessions_well_formed m \<Longrightarrow> sessions_well_formed (snd (manager_new u now i m)) \<and>
     well_formed_transcript (fst (manager_new u now i m))"
proof -
  assume m: "sessions_well_formed m"
  have "sessions_well_formed (snd (evict_expired now m))"
    by (rule sessions_wf_subset [OF m]) (auto simp: evict_expired_def Let_def)
  then show ?thesis by (simp add: manager_new_def Let_def sessions_wf_put new_session_wf)
qed

lemma sessions_wf_get:
  assumes "sessions_well_formed m"
  shows "sessions_well_formed (snd (manager_get now k m)) \<and>
    (\<forall>se. fst (manager_get now k m) = Some se \<longrightarrow> well_formed_transcript se)"
proof (cases "map_of (sm_sessions m) k")
  case None
  then show ?thesis using assms by (simp add: manager_get_def)
next
  case (Some se)
  then have "well_formed_transcript se" using assms by (auto simp: sessions_well_formed_def dest: map_of_SomeD)
  then have "well_formed_transcript (se\<lparr>se_last := now\<rparr>)" by (simp add: well_formed_transcript_def)
  moreover have "sessions_well_formed (m\<lparr>sm_sessions := AList.delete k (sm_sessions m)\<rparr>)"
    by (rule sessions_wf_subset [OF assms]) (auto simp: AList.delete_eq)
  ultimately show ?thesis using assms Some by (simp add: manager_get_def Let_def sessions_wf_put)
qed

lemma session_for_wf:
  assumes "sessions_well_formed m" and "session_for u now cx i m = (se, m')"
  shows "sessions_well_formed m' \<and> well_formed_transcript se"
proof -
  let ?k = "session_from_context cx"
  have g: "sessions_well_formed (snd (manager_get now ?k m))"
    "\<And>se. fst (manager_get now ?k m) = Some se \<Longrightarrow> well_formed_transcript se"
    using sessions_wf_get [OF assms(1)] by blast+
  show ?thesis
    using assms(2) sessions_wf_new [OF assms(1), of u now i] sessions_wf_new [OF g(1), of u now i] g
    by (cases "manager_get now ?k m") (auto simp: session_for_def Let_def split: if_splits option.splits)
qed

text \<open>C29: whatever a turn runs into, every transcript the manager holds stays one that a provider accepts: each
  tool message answers a call that the assistant message before it declared.\<close>

theorem transcripts_stay_well_formed:
  assumes "sessions_well_formed m" and "execute rt opts cx msg m w = (r, t, m', rt')"
  shows "sessions_well_formed m' \<and> well_formed_transcript (tn_session t)"
proof -
  obtain u w1 where u: "rt_ulid (build_maps rt) w = (u, w1)" by (cases "rt_ulid (build_maps rt) w")
  obtain se m1 where se: "session_for u (rt_clock (build_maps rt) w1) cx (auth_from_context cx) m = (se, m1)"
    by (cases "session_for u (rt_clock (build_maps rt) w1) cx (auth_from_context cx) m")
  note wf = session_for_wf [OF assms(1) se]
  let ?t = "\<lparr>tn_world = w1, tn_session = se, tn_events = []\<rparr>"
  obtain bk cx' where e: "execute_turn (build_maps rt) bk (turn_approvals (build_maps rt) opts) cx' msg ?t = (r, t)"
    and m': "m' = store_session (tn_session t) m1"
    using assms(2) u se by (auto simp: execute_def Let_def split: prod.splits)
  have "well_formed_transcript (tn_session t)"
    using execute_turn_wf [of ?t "build_maps rt" bk "turn_approvals (build_maps rt) opts" cx' msg] e wf by simp
  then show ?thesis using wf m' by (simp add: store_session_def sessions_wf_put split: option.splits)
qed

theorem transcripts_stay_well_formed_witness:
  "\<exists>r t m' rt'. execute (demo_runtime (\<lambda>n. call_answer [\<lparr>lc_id = ''c1'', lc_name = ''list_task'', lc_arguments = []\<rparr>])) []
       demo_user ''hello'' (new_session_manager 0) empty_journal = (r, t, m', rt') \<and>
     sessions_well_formed m' \<and> well_formed_transcript (tn_session t)"
proof -
  let ?e = "execute (demo_runtime (\<lambda>n. call_answer [\<lparr>lc_id = ''c1'', lc_name = ''list_task'', lc_arguments = []\<rparr>])) []
       demo_user ''hello'' (new_session_manager 0) empty_journal"
  obtain r t m' rt' where e: "?e = (r, t, m', rt')" by (cases ?e) auto
  have "sessions_well_formed (new_session_manager 0)"
    by (simp add: sessions_well_formed_def new_session_manager_def)
  from transcripts_stay_well_formed [OF this e] show ?thesis using e by blast
qed

section \<open>A bound on the tool rounds\<close>

definition rounds :: "session \<Rightarrow> nat" where
  "rounds se = length (filter (\<lambda>m. cm_role m = ''assistant'' \<and> cm_calls m \<noteq> []) (se_transcript se))"

lemma quiet_rounds: "quiet t t' \<Longrightarrow> rounds (tn_session t') = rounds (tn_session t)"
  by (simp add: quiet_def rounds_def)

lemma rounds_say [simp]:
  "rounds (tn_session (say (calls_message cs) t)) = rounds (tn_session t) + (if cs = [] then 0 else 1)"
  "rounds (tn_session (say (tool_message i n s) t)) = rounds (tn_session t)"
  "rounds (tn_session (say (content_message role s) t)) = rounds (tn_session t)"
  by (simp_all add: rounds_def)

lemma rounds_run_calls: "rounds (tn_session (run_calls rt ap cx msg cs t)) = rounds (tn_session t)"
proof (induction cs arbitrary: t)
  case (Cons c cs)
  obtain obs u where u: "execute_tool_call rt ap cx c msg t = (obs, u)" by (cases "execute_tool_call rt ap cx c msg t")
  have "quiet t u" using quiet_execute_tool u by (metis execute_tool_call_def snd_conv)
  then show ?case using Cons.IH u by (simp add: quiet_rounds)
qed simp

text \<open>A provider that never stops asking for independent tool calls.\<close>

definition runaway :: "'s provider \<Rightarrow> bool" where
  "runaway p \<longleftrightarrow> (\<forall>rq w. \<exists>r w'. lp_chat p rq w = (Inr r, w') \<and> rs_calls r \<noteq> [] \<and> \<not> has_data_dependency (rs_calls r))"

lemma runaway_next:
  assumes "runaway (bk_provider bk)" and "ly_usage (rt_layer rt) = None"
  shows "\<exists>r u. next_response rt bk cx t = (Inr r, u) \<and> rs_calls r \<noteq> [] \<and> \<not> has_data_dependency (rs_calls r) \<and>
    rounds (tn_session u) = rounds (tn_session t)"
proof -
  obtain ds v where v: "tools_for_turn rt cx (auth_from_context cx) t = (ds, v)"
    by (cases "tools_for_turn rt cx (auth_from_context cx) t")
  obtain r w where "lp_chat (bk_provider bk) (chat_request_for rt (tn_session v) ds None) (tn_world v) = (Inr r, w)"
    and r: "rs_calls r \<noteq> []" "\<not> has_data_dependency (rs_calls r)"
    using assms(1) unfolding runaway_def by blast
  then have "next_response rt bk cx t =
      (Inr r, emit_tokens rt (rs_content r) (v\<lparr>tn_world := track_turn bk (se_id (tn_session v)) (rs_usage r) w\<rparr>))"
    using v assms(2) by (simp add: next_response_def chat_def token_budget_def check_token_budget_def)
  moreover have "rounds (tn_session (snd (next_response rt bk cx t))) = rounds (tn_session t)"
    by (rule quiet_rounds [OF quiet_next_response])
  ultimately show ?thesis using r by auto
qed

lemma runaway_react:
  assumes "runaway (bk_provider bk)" and "ly_usage (rt_layer rt) = None"
  shows "rs_calls r \<noteq> [] \<Longrightarrow> \<not> has_data_dependency (rs_calls r) \<Longrightarrow>
    fst (react rt bk ap cx msg left r t) = Inl (too_many_steps rt) \<and>
    rounds (tn_session (snd (react rt bk ap cx msg left r t))) = rounds (tn_session t) + left"
proof (induction left arbitrary: r t)
  case 0
  then show ?case by (simp add: react.simps)
next
  case (Suc left)
  let ?t = "run_calls rt ap cx msg (rs_calls r) (say (calls_message (rs_calls r)) t)"
  obtain r' u where u: "next_response rt bk cx ?t = (Inr r', u)" "rs_calls r' \<noteq> []"
    "\<not> has_data_dependency (rs_calls r')" "rounds (tn_session u) = rounds (tn_session ?t)"
    using runaway_next [OF assms, of cx ?t] by blast
  have "react rt bk ap cx msg (Suc left) r t = react rt bk ap cx msg left r' u"
    using Suc.prems u(1) by (simp add: react.simps)
  then show ?case using Suc.IH [OF u(2,3), of u] u(4) Suc.prems(1) by (simp add: rounds_run_calls)
qed

text \<open>C30: a model that keeps requesting tools cannot keep a turn going. After exactly the configured number of
  tool rounds, each recorded in the transcript, the turn ends with the error that names the limit.\<close>

theorem runaway_turn_stops:
  assumes "runaway (bk_provider bk)" and "ly_usage (rt_layer rt) = None"
    and "ly_rate (rt_layer rt) cx (auth_from_context cx) (tn_world t) = (Inr (), w)"
  shows "fst (execute_turn rt bk ap cx msg t) = Inl (too_many_steps rt) \<and>
    rounds (tn_session (snd (execute_turn rt bk ap cx msg t))) = rounds (tn_session t) + rt_max_steps rt"
proof -
  let ?t = "say (content_message ''user'' msg) (t\<lparr>tn_world := w\<rparr>)"
  obtain r u where u: "next_response rt bk cx ?t = (Inr r, u)" "rs_calls r \<noteq> []"
    "\<not> has_data_dependency (rs_calls r)" "rounds (tn_session u) = rounds (tn_session ?t)"
    using runaway_next [OF assms(1,2), of cx ?t] by blast
  have "execute_turn rt bk ap cx msg t = react rt bk ap cx msg (rt_max_steps rt) r u"
    using assms(2,3) u(1) by (simp add: execute_turn_def token_budget_def check_token_budget_def)
  then show ?thesis using runaway_react [OF assms(1,2) u(2,3), of ap cx msg "rt_max_steps rt" u] u(4) by simp
qed

theorem runaway_turn_stops_witness:
  "rounds (tn_session (snd (execute_turn (demo_runtime (\<lambda>n. call_answer [\<lparr>lc_id = ''c1'', lc_name = ''list_task'', lc_arguments = []\<rparr>]))
     (scripted (\<lambda>n. call_answer [\<lparr>lc_id = ''c1'', lc_name = ''list_task'', lc_arguments = []\<rparr>])) None demo_user ''go'' demo_turn))) = 3"
proof -
  let ?s = "\<lambda>n :: nat. call_answer [\<lparr>lc_id = ''c1'', lc_name = ''list_task'', lc_arguments = []\<rparr>]"
  have r: "runaway (bk_provider (scripted ?s :: journal backend))"
    by (simp add: runaway_def scripted_def call_answer_def has_data_dependency_def)
  have l: "ly_usage (rt_layer (demo_runtime ?s)) = None"
    "ly_rate (rt_layer (demo_runtime ?s)) demo_user (auth_from_context demo_user) (tn_world demo_turn) = (Inr (), tn_world demo_turn)"
    by (simp_all add: demo_runtime_simps demo_layer_def)
  have "rounds (tn_session demo_turn) = 0" by (simp add: rounds_def demo_turn_def new_session_def)
  then show ?thesis using runaway_turn_stops [OF r l] by (simp add: demo_runtime_simps)
qed

section \<open>Plans\<close>

text \<open>\<open>R\<close> relates worlds between which only the model and the human were spoken to.\<close>

definition only_talks :: "('s \<Rightarrow> 's \<Rightarrow> bool) \<Rightarrow> 's runtime \<Rightarrow> 's backend \<Rightarrow> 's approvals option \<Rightarrow> bool" where
  "only_talks R rt bk ap \<longleftrightarrow> reflp R \<and> transp R \<and> (\<forall>rq. preserves R (lp_chat (bk_provider bk) rq)) \<and>
     (\<forall>sid u w. R w (track_turn bk sid u w)) \<and> (\<forall>w. R w (snd (rt_ulid rt w))) \<and>
     (\<forall>ask cx y. ap = Some ask \<longrightarrow> preserves R (ask cx y))"

lemma talks_trans: "only_talks R rt bk ap \<Longrightarrow> R x y \<Longrightarrow> R y z \<Longrightarrow> R x z"
  unfolding only_talks_def transp_def by blast

lemma talks_refl: "only_talks R rt bk ap \<Longrightarrow> R x x"
  by (simp add: only_talks_def reflp_def)

lemma talks_chat:
  assumes "only_talks R rt bk ap"
  shows "R (tn_world t) (tn_world (snd (chat rt bk tools fmt t)))"
proof (cases "token_budget rt t (estimate_tokens (build_messages rt (tn_session t)))")
  case (Inl e)
  then show ?thesis by (simp add: chat_def talks_refl [OF assms])
next
  case (Inr x)
  obtain r w where w: "lp_chat (bk_provider bk) (chat_request_for rt (tn_session t) tools fmt) (tn_world t) = (r, w)"
    by (cases "lp_chat (bk_provider bk) (chat_request_for rt (tn_session t) tools fmt) (tn_world t)")
  have "preserves R (lp_chat (bk_provider bk) (chat_request_for rt (tn_session t) tools fmt))"
    using assms by (simp add: only_talks_def)
  then have rw: "R (tn_world t) w" unfolding preserves_def using w by (metis snd_conv)
  moreover have "R w (track_turn bk i u w)" for i u using assms by (simp add: only_talks_def)
  ultimately show ?thesis using Inr w talks_trans [OF assms] by (cases r) (auto simp: chat_def)
qed

lemma talks_request_plan:
  assumes "only_talks R rt bk ap"
  shows "R (tn_world t) (tn_world (snd (request_plan_with rt bk tools extra t)))"
proof -
  define u where "u = (if extra = [] then t else say (content_message ''user'' extra) t)"
  have "tn_world u = tn_world t" by (simp add: u_def)
  moreover have "R (tn_world u) (tn_world (snd (chat rt bk tools (Some planner_format) u)))"
    by (rule talks_chat [OF assms])
  ultimately show ?thesis
    by (auto simp: request_plan_with_def u_def [symmetric] split: prod.splits sum.splits)
qed

lemma answer_with_world [simp]: "tn_world (snd (answer_with s n t)) = tn_world t"
  "tn_world (snd (plan_failure s t)) = tn_world t"
  by (simp_all add: answer_with_def plan_failure_def)

definition plan_consent :: "'s runtime \<Rightarrow> 's approvals option \<Rightarrow> ctx \<Rightarrow> plan \<Rightarrow> bool" where
  "plan_consent rt ap cx p \<longleftrightarrow>
     (\<forall>s \<in> set (pl_steps p). \<not> ap_required (step_approval rt cx s)) \<or>
     (\<exists>ask y x w w'. ap = Some ask \<and> ad_payload (ay_details y) = plan_summary p \<and> ask cx y w = (Inr x, w') \<and> ar_approved x)"

lemma plan_reason_fold:
  "fold (\<lambda>s acc. let a = f s in
      if \<not> ap_required a then acc
      else let cur = (case acc of None \<Rightarrow> [] | Some r \<Rightarrow> r)
           in Some (if stricter_reason (ap_reason a) cur then reason_string (ap_reason a) else cur)) ss acc = None \<longleftrightarrow>
    acc = None \<and> (\<forall>s \<in> set ss. \<not> ap_required (f s))"
  by (induction ss arbitrary: acc) (auto simp: Let_def)

lemma plan_reason_None: "plan_reason rt cx p = None \<longleftrightarrow> (\<forall>s \<in> set (pl_steps p). \<not> ap_required (step_approval rt cx s))"
  unfolding plan_reason_def using plan_reason_fold [of "step_approval rt cx" "pl_steps p" None] by simp

lemma plan_approval_consent:
  assumes "only_talks R rt bk ap" and "plan_approval rt ap cx p t = (ok, u)"
  shows "R (tn_world t) (tn_world u) \<and> (ok \<longrightarrow> plan_consent rt ap cx p)"
proof (cases "plan_reason rt cx p")
  case None
  then have "plan_consent rt ap cx p" by (simp add: plan_consent_def plan_reason_None)
  moreover have "u = t" using assms(2) None by (simp add: plan_approval_def)
  ultimately show ?thesis by (simp add: talks_refl [OF assms(1)])
next
  case (Some strict)
  show ?thesis
  proof (cases ap)
    case None
    then show ?thesis using assms(2) Some talks_refl [OF assms(1)] by (auto simp: plan_approval_def)
  next
    case ask: (Some ask)
    obtain i w where w: "rt_ulid rt (tn_world t) = (i, w)" by (cases "rt_ulid rt (tn_world t)")
    let ?y = "\<lparr>ay_action_id = ''req-'' @ i,
       ay_details = \<lparr>ad_doc_type = [], ad_action = ''plan'', ad_payload = plan_summary p, ad_reason = strict\<rparr>\<rparr>"
    obtain r w' where r: "ask cx ?y w = (r, w')" by (cases "ask cx ?y w")
    have "R (tn_world t) w" using assms(1) w by (metis only_talks_def snd_conv)
    moreover have "preserves R (ask cx ?y)" using assms(1) ask by (simp add: only_talks_def)
    then have "R w w'" unfolding preserves_def using r by (metis snd_conv)
    ultimately have "R (tn_world t) w'" by (rule talks_trans [OF assms(1)])
    moreover have "tn_world u = w'" "ok = (case r of Inl _ \<Rightarrow> False | Inr x \<Rightarrow> ar_approved x)"
      using assms(2) Some ask w r by (auto simp: plan_approval_def)
    moreover have "plan_consent rt ap cx p" if "r = Inr x" "ar_approved x" for x
      unfolding plan_consent_def using that ask r
      by (intro disjI2 exI [of _ ask] exI [of _ ?y] exI [of _ x] exI [of _ w] exI [of _ w']) simp
    ultimately show ?thesis by (auto split: sum.splits)
  qed
qed

definition plan_ran ::
    "('s \<Rightarrow> 's \<Rightarrow> bool) \<Rightarrow> 's runtime \<Rightarrow> 's approvals option \<Rightarrow> ctx \<Rightarrow> string \<Rightarrow> (string \<times> row) list \<Rightarrow> 's \<Rightarrow> 's \<Rightarrow> plan \<Rightarrow> bool" where
  "plan_ran R rt ap cx msg schemas w w' p \<longleftrightarrow>
     (\<exists>t u. R w (tn_world t) \<and> snd (run_steps rt ap cx msg schemas 0 [] (pl_steps p) t) = u \<and> R (tn_world u) w')"

lemma run_validated_cases:
  assumes "only_talks R rt bk ap" and "R w (tn_world t)"
  shows "R w (tn_world (snd (run_validated_plan rt bk ap cx msg schemas p t))) \<or>
    plan_consent rt ap cx p \<and>
    plan_ran R rt ap cx msg schemas w (tn_world (snd (run_validated_plan rt bk ap cx msg schemas p t))) p"
proof -
  obtain ok u where u: "plan_approval rt ap cx p t = (ok, u)" by (cases "plan_approval rt ap cx p t")
  note c = plan_approval_consent [OF assms(1) u]
  have wu: "R w (tn_world u)" by (rule talks_trans [OF assms]) (simp add: c)
  show ?thesis
  proof (cases ok)
    case False
    then show ?thesis using u wu by (simp add: run_validated_plan_def)
  next
    case True
    obtain n v where v: "run_steps rt ap cx msg schemas 0 [] (pl_steps p) u = (n, v)"
      by (cases "run_steps rt ap cx msg schemas 0 [] (pl_steps p) u")
    have "R (tn_world v) (tn_world (snd (synthesize_summary rt bk v)))"
      using talks_chat [OF assms(1), of v "[]" None]
      by (cases "chat rt bk [] None v"; cases "fst (chat rt bk [] None v)") (simp_all add: synthesize_summary_def)
    then have "plan_ran R rt ap cx msg schemas w (tn_world (snd (run_validated_plan rt bk ap cx msg schemas p t))) p"
      unfolding plan_ran_def using u v True wu
      by (intro exI [of _ u] exI [of _ v]) (simp add: run_validated_plan_def case_prod_beta)
    then show ?thesis using True c by blast
  qed
qed

text \<open>C8: in plan mode either nothing happens beyond talking to the model and the human, or a plan runs whose
  every step was validated before the first one started, and for which no step needs approval or the human
  approved the plan as a whole.\<close>

theorem plans_run_valid_and_approved:
  assumes "only_talks R rt bk ap" and "execute_plan_mode rt bk ap cx msg tools schemas t = (r, t')"
  shows "R (tn_world t) (tn_world t') \<or>
    (\<exists>p. plan_validate (rt_ft rt) (Some p) schemas = None \<and> plan_consent rt ap cx p \<and>
       plan_ran R rt ap cx msg schemas (tn_world t) (tn_world t') p)"
proof -
  obtain q u where u: "request_plan_with rt bk tools [] t = (q, u)" by (cases "request_plan_with rt bk tools [] t")
  have wu: "R (tn_world t) (tn_world u)" using talks_request_plan [OF assms(1), of t tools "[]"] u by simp
  show ?thesis
  proof (cases q)
    case (Inl e)
    then show ?thesis using assms(2) u wu by (auto simp: execute_plan_mode_def plan_failure_def answer_with_def)
  next
    case p: (Inr p)
    show ?thesis
    proof (cases "plan_validate (rt_ft rt) (Some p) schemas")
      case None
      then show ?thesis using assms(2) u p run_validated_cases [OF assms(1) wu, of cx msg schemas p]
        by (auto simp: execute_plan_mode_def)
    next
      case (Some x)
      obtain q2 v where v: "request_plan_with rt bk tools (plan_rejected x) u = (q2, v)"
        by (cases "request_plan_with rt bk tools (plan_rejected x) u")
      have "R (tn_world u) (tn_world v)"
        using talks_request_plan [OF assms(1), of u tools "plan_rejected x"] v by simp
      with wu have wv: "R (tn_world t) (tn_world v)" by (rule talks_trans [OF assms(1)])
      show ?thesis
      proof (cases q2)
        case (Inl e)
        then show ?thesis using assms(2) u p Some v wv by (auto simp: execute_plan_mode_def plan_failure_def answer_with_def)
      next
        case p2: (Inr p2)
        show ?thesis
          using assms(2) u p Some v p2 wv run_validated_cases [OF assms(1) wv, of cx msg schemas p2]
          by (cases "plan_validate (rt_ft rt) (Some p2) schemas")
            (auto simp: execute_plan_mode_def plan_failure_def answer_with_def)
      qed
    qed
  qed
qed

theorem plans_run_valid_and_approved_witness:
  "\<exists>r t'. execute_plan_mode (demo_runtime (\<lambda>n. text_answer ''{}'')) (scripted (\<lambda>n. text_answer ''{}''))
     (Some (answering True)) demo_user ''go'' [] [] demo_turn = (r, t') \<and> tn_world t' = empty_journal"
proof -
  let ?rt = "demo_runtime (\<lambda>n. text_answer ''{}'')" and ?bk = "scripted (\<lambda>n. text_answer ''{}'') :: journal backend"
  let ?e = "execute_plan_mode ?rt ?bk (Some (answering True)) demo_user ''go'' [] [] demo_turn"
  have "only_talks (=) ?rt ?bk (Some (answering True))"
    by (auto simp: only_talks_def preserves_def scripted_def answering_def track_turn_def demo_runtime_simps
        intro: reflpI transpI)
  note gate = plans_run_valid_and_approved [OF this]
  obtain r t' where e: "?e = (r, t')" by (cases ?e)
  have "plan_validate (rt_ft ?rt) (Some p) [] \<noteq> None" for p
    by (cases "pl_steps p") (auto simp: plan_validate_def check_step_def)
  with gate [OF e] have "tn_world t' = empty_journal" by (auto simp: demo_turn_def)
  then show ?thesis using e by blast
qed

end
