(* ===== verification/AppDag.thy ===== *)
theory AppDag
  imports Auth "HOL-Library.Multiset"
begin

text \<open>
  Application definitions with their lifecycle hooks and the dependency order (\<open>app/app.go\<close>).
  \<open>ResolveDAG\<close> is a depth-first search that recurses through a closure; it is written with fuel, and
  the fuel of \<open>resolve_dag\<close>, one more than the number of applications, is proved to suffice.
\<close>

section \<open>Definitions\<close>

record app_module =
  am_name :: string
  am_title :: string

record dependency =
  dp_app :: string
  dp_min_version :: string

text \<open>A hook type implements any of the three lifecycle interfaces; the site it is given is \<open>'s\<close>.\<close>

record 's lifecycle =
  hk_install :: "(ctx \<Rightarrow> ('s, gerror, unit) step) option"
  hk_upgrade :: "(ctx \<Rightarrow> string \<Rightarrow> ('s, gerror, unit) step) option"
  hk_uninstall :: "(ctx \<Rightarrow> bool \<Rightarrow> ('s, gerror, unit) step) option"

record 's app_definition =
  ad_name :: string
  ad_title :: string
  ad_version :: string
  ad_description :: string
  ad_publisher :: string
  ad_modules :: "app_module list"
  ad_dependencies :: "dependency list"
  ad_hooks :: "'s lifecycle option"

definition install_hook :: "'s app_definition \<Rightarrow> (ctx \<Rightarrow> ('s, gerror, unit) step) option" where
  "install_hook d = Option.bind (ad_hooks d) hk_install"

definition upgrade_hook :: "'s app_definition \<Rightarrow> (ctx \<Rightarrow> string \<Rightarrow> ('s, gerror, unit) step) option" where
  "upgrade_hook d = Option.bind (ad_hooks d) hk_upgrade"

definition uninstall_hook :: "'s app_definition \<Rightarrow> (ctx \<Rightarrow> bool \<Rightarrow> ('s, gerror, unit) step) option" where
  "uninstall_hook d = Option.bind (ad_hooks d) hk_uninstall"

section \<open>The search\<close>

datatype visit_mark = Visiting | Visited

definition dep_names :: "'s app_definition \<Rightarrow> string list" where
  "dep_names a = map dp_app (ad_dependencies a)"

definition circular_app :: "string \<Rightarrow> gerror" where
  "circular_app n = new_error CodeInternal
     (''ErrCircularAppDependency: circular dependency detected involving app: '' @ n) [] None"

definition missing_app :: "string \<Rightarrow> gerror" where
  "missing_app n = new_error CodeValidation (''missing dependency app: '' @ n) [] None"

type_synonym 's dag_state = "(string \<times> visit_mark) list \<times> 's app_definition list"

function visit_app :: "nat \<Rightarrow> (string \<times> 's app_definition) list \<Rightarrow> string \<Rightarrow> 's dag_state
    \<Rightarrow> (gerror + 's dag_state) option"
  and visit_apps :: "nat \<Rightarrow> (string \<times> 's app_definition) list \<Rightarrow> string list \<Rightarrow> 's dag_state
    \<Rightarrow> (gerror + 's dag_state) option" where
  "visit_app 0 m n st = None"
| "visit_app (Suc k) m n st =
     (case map_of (fst st) n of
        Some Visited \<Rightarrow> Some (Inr st)
      | Some Visiting \<Rightarrow> Some (Inl (circular_app n))
      | None \<Rightarrow>
          (case map_of m n of
             None \<Rightarrow> Some (Inl (missing_app n))
           | Some a \<Rightarrow>
               (case visit_apps k m (dep_names a) (AList.update n Visiting (fst st), snd st) of
                  None \<Rightarrow> None
                | Some (Inl e) \<Rightarrow> Some (Inl e)
                | Some (Inr st') \<Rightarrow> Some (Inr (AList.update n Visited (fst st'), snd st' @ [a])))))"
| "visit_apps k m [] st = Some (Inr st)"
| "visit_apps k m (n # ns) st =
     (case visit_app k m n st of
        None \<Rightarrow> None
      | Some (Inl e) \<Rightarrow> Some (Inl e)
      | Some (Inr st') \<Rightarrow> visit_apps k m ns st')"
  by pat_completeness auto
termination
  by (relation "measures [\<lambda>x. case x of Inl (k, _) \<Rightarrow> k | Inr (k, _) \<Rightarrow> k,
       \<lambda>x. case x of Inl _ \<Rightarrow> 0 | Inr (_, _, ns, _) \<Rightarrow> Suc (length ns)]") auto

definition app_map :: "'s app_definition list \<Rightarrow> (string \<times> 's app_definition) list" where
  "app_map apps = fold (\<lambda>a m. AList.update (ad_name a) a m) apps []"

definition resolve_dag :: "'s app_definition list \<Rightarrow> (gerror + 's app_definition list) option" where
  "resolve_dag apps =
     (case visit_apps (Suc (length apps)) (app_map apps) (map ad_name apps) ([], []) of
        None \<Rightarrow> None
      | Some (Inl e) \<Rightarrow> Some (Inl e)
      | Some (Inr st) \<Rightarrow> Some (Inr (snd st)))"

section \<open>Enough fuel\<close>

text \<open>The applications not reached so far.\<close>

definition unmarked :: "(string \<times> 's app_definition) list \<Rightarrow> (string \<times> visit_mark) list \<Rightarrow> string set" where
  "unmarked m vis = {n. map_of m n \<noteq> None \<and> map_of vis n = None}"

lemma finite_unmarked [simp]: "finite (unmarked m vis)"
  by (rule finite_subset [of _ "fst ` set m"]) (auto simp: unmarked_def map_of_eq_None_iff)

lemma unmarked_update: "unmarked m (AList.update n x vis) = unmarked m vis - {n}"
  by (auto simp: unmarked_def map_of_update)

lemma visit_marks:
  "visit_app k m n st = Some (Inr st') \<Longrightarrow> unmarked m (fst st') \<subseteq> unmarked m (fst st)"
  "visit_apps k m ns st = Some (Inr st') \<Longrightarrow> unmarked m (fst st') \<subseteq> unmarked m (fst st)"
proof (induction k m n st and k m ns st arbitrary: st' and st' rule: visit_app_visit_apps.induct)
  case (2 k m n st)
  show ?case
  proof (cases "map_of (fst st) n")
    case None
    then obtain a st1 where a: "map_of m n = Some a"
      "visit_apps k m (dep_names a) (AList.update n Visiting (fst st), snd st) = Some (Inr st1)"
      "st' = (AList.update n Visited (fst st1), snd st1 @ [a])"
      using "2.prems" by (auto split: option.splits sum.splits)
    then show ?thesis using "2.IH" [OF None a(1) a(2)] by (auto simp: unmarked_update)
  next
    case (Some v)
    then show ?thesis using "2.prems" by (cases v) auto
  qed
next
  case (4 k m n ns st)
  from "4.prems" obtain st1 where 1: "visit_app k m n st = Some (Inr st1)" "visit_apps k m ns st1 = Some (Inr st')"
    by (auto split: option.splits sum.splits)
  show ?case using "4.IH"(1) [OF 1(1)] "4.IH"(2) [OF 1(1) refl 1(2)] by blast
qed auto

lemma visit_returns:
  "card (unmarked m (fst st)) < k \<Longrightarrow> visit_app k m n st \<noteq> None"
  "card (unmarked m (fst st)) < k \<Longrightarrow> visit_apps k m ns st \<noteq> None"
proof (induction k m n st and k m ns st rule: visit_app_visit_apps.induct)
  case (2 k m n st)
  show ?case
  proof (cases "map_of (fst st) n = None \<and> map_of m n \<noteq> None")
    case True
    then have n: "n \<in> unmarked m (fst st)" by (simp add: unmarked_def)
    then have "card (unmarked m (fst st) - {n}) < k"
      using "2.prems" card_Diff1_less [OF finite_unmarked n] by linarith
    with True obtain a where a: "map_of m n = Some a" by blast
    have "visit_apps k m (dep_names a) (AList.update n Visiting (fst st), snd st) \<noteq> None"
      if "0 < k" using "2.IH" True a \<open>card (unmarked m (fst st) - {n}) < k\<close> by (simp add: unmarked_update)
    then show ?thesis
      using True a \<open>card (unmarked m (fst st) - {n}) < k\<close> by (auto split: option.splits sum.splits)
  next
    case False
    then show ?thesis by (auto split: option.splits visit_mark.splits)
  qed
next
  case (4 k m n ns st)
  show ?case
  proof (cases "visit_app k m n st")
    case None
    then show ?thesis using 4 by simp
  next
    case (Some r)
    show ?thesis
    proof (cases r)
      case (Inr st')
      have "card (unmarked m (fst st')) \<le> card (unmarked m (fst st))"
        using visit_marks(1) [of k m n st st'] Some Inr by (intro card_mono) auto
      then show ?thesis using 4 Some Inr by simp
    qed (use Some in simp)
  qed
qed auto

section \<open>Order\<close>

fun deps_first :: "string set \<Rightarrow> 's app_definition list \<Rightarrow> bool" where
  "deps_first seen [] = True"
| "deps_first seen (a # as) =
     (set (dep_names a) \<subseteq> seen \<and> ad_name a \<notin> seen \<and> deps_first (insert (ad_name a) seen) as)"

lemma deps_first_append:
  "deps_first seen (as @ [a]) \<longleftrightarrow> deps_first seen as \<and>
     set (dep_names a) \<subseteq> seen \<union> ad_name ` set as \<and> ad_name a \<notin> seen \<union> ad_name ` set as"
  by (induction as arbitrary: seen) auto

lemma deps_first_distinct: "deps_first seen as \<Longrightarrow> distinct (map ad_name as) \<and> ad_name ` set as \<inter> seen = {}"
  by (induction as arbitrary: seen) auto

definition dag_ok :: "(string \<times> 's app_definition) list \<Rightarrow> 's dag_state \<Rightarrow> bool" where
  "dag_ok m st \<longleftrightarrow> deps_first {} (snd st) \<and>
     (\<forall>n. map_of (fst st) n = Some Visited \<longleftrightarrow> n \<in> ad_name ` set (snd st)) \<and>
     (\<forall>a \<in> set (snd st). map_of m (ad_name a) = Some a)"

definition keyed :: "(string \<times> 's app_definition) list \<Rightarrow> bool" where
  "keyed m \<longleftrightarrow> (\<forall>n a. map_of m n = Some a \<longrightarrow> ad_name a = n)"

lemma keyed_update: "keyed m \<Longrightarrow> keyed (AList.update (ad_name a) a m)"
  by (simp add: keyed_def map_of_update)

lemma keyed_fold: "keyed m \<Longrightarrow> keyed (fold (\<lambda>a m. AList.update (ad_name a) a m) apps m)"
proof (induction apps arbitrary: m)
  case (Cons a apps)
  then show ?case using Cons.IH [OF keyed_update [OF Cons.prems]] by simp
qed simp

lemma keyed_app_map: "keyed (app_map apps)"
proof -
  have "keyed []" by (simp add: keyed_def)
  then show ?thesis unfolding app_map_def by (rule keyed_fold)
qed

lemma dag_ok_unvisited: "dag_ok m st \<Longrightarrow> map_of (fst st) n \<noteq> Some Visited \<Longrightarrow> n \<notin> ad_name ` set (snd st)"
  unfolding dag_ok_def by blast

lemma dag_ok_visiting:
  assumes "dag_ok m st" and "map_of (fst st) n = None"
  shows "dag_ok m (AList.update n Visiting (fst st), snd st)"
proof -
  have "n \<notin> ad_name ` set (snd st)" using dag_ok_unvisited [OF assms(1)] assms(2) by simp
  then show ?thesis using assms(1) by (simp add: dag_ok_def map_of_update)
qed

text \<open>A successful visit marks its applications as visited and leaves the ones being visited alone.\<close>

definition progress :: "'s dag_state \<Rightarrow> 's dag_state \<Rightarrow> bool" where
  "progress st st' \<longleftrightarrow>
     (\<forall>x. map_of (fst st) x = Some Visited \<longrightarrow> map_of (fst st') x = Some Visited) \<and>
     (\<forall>x. map_of (fst st') x = Some Visiting \<longleftrightarrow> map_of (fst st) x = Some Visiting)"

lemma progress_trans: "progress s t \<Longrightarrow> progress t u \<Longrightarrow> progress s u"
  by (simp add: progress_def)

lemma visit_finished:
  assumes "dag_ok m (AList.update n Visiting (fst st), snd st)"
    and "map_of (fst st) n = None" and "map_of m n = Some a" and "ad_name a = n"
    and "dag_ok m st1" and "progress (AList.update n Visiting (fst st), snd st) st1"
    and "\<forall>d \<in> set (dep_names a). map_of (fst st1) d = Some Visited"
  shows "dag_ok m (AList.update n Visited (fst st1), snd st1 @ [a])"
    and "progress st (AList.update n Visited (fst st1), snd st1 @ [a])"
proof -
  have "map_of (fst st1) n = Some Visiting" using assms(6) by (simp add: progress_def map_of_update)
  then have "n \<notin> ad_name ` set (snd st1)" using dag_ok_unvisited [OF assms(5)] by simp
  moreover have "set (dep_names a) \<subseteq> ad_name ` set (snd st1)" using assms(5,7) by (auto simp: dag_ok_def)
  ultimately show "dag_ok m (AList.update n Visited (fst st1), snd st1 @ [a])"
    using assms(3,4,5) by (auto simp: dag_ok_def deps_first_append map_of_update)
  show "progress st (AList.update n Visited (fst st1), snd st1 @ [a])"
    using assms(2,6) by (auto simp: progress_def map_of_update split: if_splits)
qed

lemma visit_sound:
  assumes "keyed m"
  shows "visit_app k m n st = Some (Inr st') \<Longrightarrow> dag_ok m st \<Longrightarrow>
      dag_ok m st' \<and> progress st st' \<and> map_of (fst st') n = Some Visited"
    and "visit_apps k m ns st = Some (Inr st') \<Longrightarrow> dag_ok m st \<Longrightarrow>
      dag_ok m st' \<and> progress st st' \<and> (\<forall>n \<in> set ns. map_of (fst st') n = Some Visited)"
  using assms
proof (induction k m n st and k m ns st arbitrary: st' and st' rule: visit_app_visit_apps.induct)
  case (2 k m n st)
  show ?case
  proof (cases "map_of (fst st) n")
    case None
    then obtain a st1 where a: "map_of m n = Some a"
      "visit_apps k m (dep_names a) (AList.update n Visiting (fst st), snd st) = Some (Inr st1)"
      "st' = (AList.update n Visited (fst st1), snd st1 @ [a])"
      using "2.prems" by (auto split: option.splits sum.splits)
    have name: "ad_name a = n" using "2.prems"(3) a(1) by (simp add: keyed_def)
    have ok: "dag_ok m (AList.update n Visiting (fst st), snd st)"
      using "2.prems"(2) None by (rule dag_ok_visiting)
    have IH: "dag_ok m st1" "progress (AList.update n Visiting (fst st), snd st) st1"
      "\<forall>d \<in> set (dep_names a). map_of (fst st1) d = Some Visited"
      using "2.IH" [OF None a(1) a(2) ok "2.prems"(3)] by auto
    show ?thesis using visit_finished [OF ok None a(1) name IH] by (simp add: a(3) map_of_update)
  next
    case (Some v)
    then show ?thesis using "2.prems" by (cases v) (auto simp: progress_def)
  qed
next
  case (4 k m n ns st)
  from "4.prems"(1) obtain st1 where 1: "visit_app k m n st = Some (Inr st1)" "visit_apps k m ns st1 = Some (Inr st')"
    by (auto split: option.splits sum.splits)
  have a: "dag_ok m st1" "progress st st1" "map_of (fst st1) n = Some Visited"
    using "4.IH"(1) [OF 1(1) "4.prems"(2,3)] by auto
  have b: "dag_ok m st'" "progress st1 st'" "\<forall>n \<in> set ns. map_of (fst st') n = Some Visited"
    using "4.IH"(2) [OF 1(1) refl 1(2) a(1) "4.prems"(3)] by auto
  show ?case using a b progress_trans [OF a(2) b(2)] by (auto simp: progress_def)
qed (auto simp: progress_def)

section \<open>Errors\<close>

definition dag_edges :: "(string \<times> 's app_definition) list \<Rightarrow> (string \<times> string) set" where
  "dag_edges m = {(n, d). \<exists>a. map_of m n = Some a \<and> d \<in> set (dep_names a)}"

definition visit_fault :: "(string \<times> 's app_definition) list \<Rightarrow> string \<Rightarrow> gerror \<Rightarrow> bool" where
  "visit_fault m n e \<longleftrightarrow>
     (\<exists>x. e = circular_app x \<and> (x, x) \<in> (dag_edges m)\<^sup>+) \<or>
     (\<exists>x. e = missing_app x \<and> map_of m x = None \<and> (n, x) \<in> (dag_edges m)\<^sup>*)"

lemma visit_fault_edge: "(n, d) \<in> dag_edges m \<Longrightarrow> visit_fault m d e \<Longrightarrow> visit_fault m n e"
  unfolding visit_fault_def by (elim disjE) (blast intro: converse_rtrancl_into_rtrancl)+

lemma visit_error:
  assumes "keyed m"
  shows "visit_app k m n st = Some (Inl e) \<Longrightarrow> dag_ok m st \<Longrightarrow>
      (\<forall>v. map_of (fst st) v = Some Visiting \<longrightarrow> (v, n) \<in> (dag_edges m)\<^sup>+) \<Longrightarrow> visit_fault m n e"
    and "visit_apps k m ns st = Some (Inl e) \<Longrightarrow> dag_ok m st \<Longrightarrow>
      (\<forall>n \<in> set ns. \<forall>v. map_of (fst st) v = Some Visiting \<longrightarrow> (v, n) \<in> (dag_edges m)\<^sup>+) \<Longrightarrow>
      \<exists>n \<in> set ns. visit_fault m n e"
  using assms
proof (induction k m n st and k m ns st rule: visit_app_visit_apps.induct)
  case (2 k m n st)
  show ?case
  proof (cases "map_of (fst st) n")
    case None
    show ?thesis
    proof (cases "map_of m n")
      case no: None
      then show ?thesis using "2.prems" None by (auto simp: visit_fault_def)
    next
      case (Some a)
      have err: "visit_apps k m (dep_names a) (AList.update n Visiting (fst st), snd st) = Some (Inl e)"
        using "2.prems"(1) None Some by (auto split: option.splits sum.splits)
      have edge: "(n, d) \<in> dag_edges m" if "d \<in> set (dep_names a)" for d
        using Some that by (auto simp: dag_edges_def)
      have ok: "dag_ok m (AList.update n Visiting (fst st), snd st)"
        using "2.prems"(2) None by (rule dag_ok_visiting)
      have "\<forall>d \<in> set (dep_names a). \<forall>v. map_of (fst (AList.update n Visiting (fst st), snd st)) v = Some Visiting
          \<longrightarrow> (v, d) \<in> (dag_edges m)\<^sup>+"
        using "2.prems"(3) edge by (auto simp: map_of_update intro: trancl_into_trancl)
      then obtain d where "d \<in> set (dep_names a)" "visit_fault m d e"
        using "2.IH" [OF None Some err ok] "2.prems"(4) by blast
      then show ?thesis using edge visit_fault_edge by metis
    qed
  next
    case (Some v)
    then show ?thesis using "2.prems" by (cases v) (auto simp: visit_fault_def)
  qed
next
  case (4 k m n ns st)
  show ?case
  proof (cases "visit_app k m n st = Some (Inl e)")
    case True
    then show ?thesis using "4.IH"(1) [OF True "4.prems"(2) _ "4.prems"(4)] "4.prems"(3) by simp
  next
    case False
    then obtain st1 where 1: "visit_app k m n st = Some (Inr st1)" "visit_apps k m ns st1 = Some (Inl e)"
      using "4.prems"(1) by (auto split: option.splits sum.splits)
    have "dag_ok m st1" "progress st st1" using visit_sound(1) [OF "4.prems"(4) 1(1) "4.prems"(2)] by auto
    then show ?thesis
      using "4.IH"(2) [OF 1(1) refl 1(2)] "4.prems"(3,4) by (auto simp: progress_def)
  qed
qed auto

lemma ordered_no_cycle:
  assumes "deps_first {} as" and "\<And>n a. a \<in> set as \<Longrightarrow> map_of m (ad_name a) = Some a"
    and "x \<in> ad_name ` set as"
  shows "(x, x) \<notin> (dag_edges m)\<^sup>+"
proof -
  have "\<exists>rank :: string \<Rightarrow> nat. (\<forall>n \<in> ad_name ` set as. rank n < length as) \<and>
      (\<forall>a \<in> set as. \<forall>d \<in> set (dep_names a). d \<in> ad_name ` set as \<and> rank d < rank (ad_name a))"
    using assms(1)
  proof (induction as rule: rev_induct)
    case (snoc a as)
    then obtain rank :: "string \<Rightarrow> nat" where r: "\<forall>n \<in> ad_name ` set as. rank n < length as"
      "\<forall>a \<in> set as. \<forall>d \<in> set (dep_names a). d \<in> ad_name ` set as \<and> rank d < rank (ad_name a)"
      by (auto simp: deps_first_append)
    have d: "set (dep_names a) \<subseteq> ad_name ` set as" "ad_name a \<notin> ad_name ` set as"
      using snoc.prems by (auto simp: deps_first_append)
    let ?r = "rank(ad_name a := length as)"
    have "\<forall>n \<in> ad_name ` set (as @ [a]). ?r n < length (as @ [a])"
      using r(1) less_SucI by auto
    moreover have "\<forall>b \<in> set (as @ [a]). \<forall>d \<in> set (dep_names b). d \<in> ad_name ` set (as @ [a]) \<and> ?r d < ?r (ad_name b)"
      using r d by (auto simp: subset_iff image_iff) metis+
    ultimately show ?case by blast
  qed simp
  then obtain rank :: "string \<Rightarrow> nat" where r:
    "\<forall>a \<in> set as. \<forall>d \<in> set (dep_names a). d \<in> ad_name ` set as \<and> rank d < rank (ad_name a)" by blast
  have "(x, y) \<in> (dag_edges m)\<^sup>+ \<Longrightarrow> y \<in> ad_name ` set as \<and> rank y < rank x" for y
  proof (induction rule: trancl_induct)
    case (base y)
    then show ?case using assms(2,3) r by (fastforce simp: dag_edges_def)
  next
    case (step y z)
    then show ?case using assms(2) r by (fastforce simp: dag_edges_def)
  qed
  then show ?thesis by blast
qed

section \<open>Properties\<close>

lemma app_map_lookup:
  "map_of (fold (\<lambda>a m. AList.update (ad_name a) a m) apps m) n =
     (case find (\<lambda>a. ad_name a = n) (rev apps) of Some a \<Rightarrow> Some a | None \<Rightarrow> map_of m n)"
  by (induction apps arbitrary: m rule: rev_induct) (auto simp: map_of_update)

lemma app_map_Some: "map_of (app_map apps) n = Some a \<Longrightarrow> a \<in> set apps \<and> ad_name a = n"
  unfolding app_map_def app_map_lookup by (auto split: option.splits dest: find_SomeD)

lemma app_map_None: "map_of (app_map apps) n = None \<longleftrightarrow> n \<notin> ad_name ` set apps"
  unfolding app_map_def app_map_lookup by (auto simp: find_None_iff split: option.splits dest: find_SomeD)

lemma card_app_map: "card (unmarked (app_map apps) []) \<le> length apps"
proof -
  have "unmarked (app_map apps) [] \<subseteq> set (map ad_name apps)"
    by (auto simp: unmarked_def) (metis app_map_None not_None_eq)
  then have "card (unmarked (app_map apps) []) \<le> card (set (map ad_name apps))" by (intro card_mono) auto
  also have "\<dots> \<le> length apps" using card_length [of "map ad_name apps"] by simp
  finally show ?thesis .
qed

lemma dag_ok_start: "dag_ok m ([], [])"
  by (simp add: dag_ok_def)

lemma resolve_dag_Inr:
  assumes "resolve_dag apps = Some (Inr out)"
  shows "deps_first {} out" and "ad_name ` set out = ad_name ` set apps"
    and "\<And>a. a \<in> set out \<Longrightarrow> map_of (app_map apps) (ad_name a) = Some a"
proof -
  obtain st where st: "visit_apps (Suc (length apps)) (app_map apps) (map ad_name apps) ([], []) = Some (Inr st)"
    "out = snd st" using assms by (auto simp: resolve_dag_def split: option.splits sum.splits)
  have ok: "dag_ok (app_map apps) st" "\<forall>n \<in> set (map ad_name apps). map_of (fst st) n = Some Visited"
    using visit_sound(2) [OF keyed_app_map st(1) dag_ok_start] by auto
  then show "deps_first {} out" by (simp add: st(2) dag_ok_def)
  show m: "map_of (app_map apps) (ad_name a) = Some a" if "a \<in> set out" for a
    using ok(1) that by (simp add: st(2) dag_ok_def)
  show "ad_name ` set out = ad_name ` set apps"
    using ok m by (auto simp: st(2) dag_ok_def dest: app_map_Some)
qed


definition demo_app :: "string \<Rightarrow> string list \<Rightarrow> unit app_definition" where
  "demo_app n deps = \<lparr>ad_name = n, ad_title = [], ad_version = ''1'', ad_description = [], ad_publisher = [],
     ad_modules = [], ad_dependencies = map (\<lambda>d. \<lparr>dp_app = d, dp_min_version = []\<rparr>) deps, ad_hooks = None\<rparr>"


text \<open>the search always returns, and it finds an order exactly when no application depends on itself
  through others and every dependency is present; otherwise its error names an application on a cycle or a
  missing one.\<close>

theorem resolve_dag_returns:
  "(\<exists>out. resolve_dag apps = Some (Inr out) \<and> acyclic (dag_edges (app_map apps)) \<and>
      Range (dag_edges (app_map apps)) \<subseteq> ad_name ` set apps) \<or>
   (\<exists>x. resolve_dag apps = Some (Inl (circular_app x)) \<and> (x, x) \<in> (dag_edges (app_map apps))\<^sup>+) \<or>
   (\<exists>x. resolve_dag apps = Some (Inl (missing_app x)) \<and> x \<in> Range (dag_edges (app_map apps)) - ad_name ` set apps)"
proof -
  let ?m = "app_map apps"
  let ?v = "visit_apps (Suc (length apps)) ?m (map ad_name apps) ([], [])"
  have "?v \<noteq> None" using card_app_map [of apps] by (intro visit_returns) simp
  then obtain r where v: "?v = Some r" by blast
  show ?thesis
  proof (cases r)
    case (Inl e)
    then obtain n where n: "n \<in> ad_name ` set apps" "visit_fault ?m n e"
      using visit_error(2) [OF keyed_app_map v [unfolded Inl] dag_ok_start] by auto
    have res: "resolve_dag apps = Some (Inl e)" using v Inl by (simp add: resolve_dag_def)
    show ?thesis
      using n(2) unfolding visit_fault_def
    proof (elim disjE exE conjE)
      fix x assume x: "e = missing_app x" "map_of ?m x = None" "(n, x) \<in> (dag_edges ?m)\<^sup>*"
      have "x \<notin> ad_name ` set apps" using x(2) by (simp add: app_map_None)
      moreover from this n(1) have "n \<noteq> x" by blast
      with x(3) have "x \<in> Range (dag_edges ?m)" by (metis Range.intros rtranclE)
      ultimately show ?thesis using res x(1) by blast
    qed (use res in blast)
  next
    case (Inr st)
    then have res: "resolve_dag apps = Some (Inr (snd st))" using v by (simp add: resolve_dag_def)
    note r = resolve_dag_Inr [OF res]
    have covered: "a \<in> set (snd st)" if "map_of ?m n = Some a" for n a
    proof -
      have "ad_name a \<in> ad_name ` set (snd st)" using app_map_Some [OF that] r(2) by blast
      then obtain b where "b \<in> set (snd st)" "ad_name b = ad_name a" by auto
      then show ?thesis using r(3) [of b] app_map_Some [OF that] that by simp
    qed
    have "x \<in> ad_name ` set (snd st)" if "(x, y) \<in> dag_edges ?m" for x y
      using that covered app_map_Some by (fastforce simp: dag_edges_def)
    then have "acyclic (dag_edges ?m)"
      using ordered_no_cycle [OF r(1) r(3)] by (meson acyclic_def tranclD)
    moreover have "set (dep_names a) \<subseteq> ad_name ` set as" if "deps_first {} as" "a \<in> set as" for a and as :: "'a app_definition list"
      using that by (induction as rule: rev_induct) (auto simp: deps_first_append)
    then have "Range (dag_edges ?m) \<subseteq> ad_name ` set apps"
      using covered r(1,2) by (fastforce simp: dag_edges_def)
    ultimately show ?thesis using res by blast
  qed
qed

end
