(* ===== verification/Http.thy ===== *)
theory Http
  imports Document Json
begin

text \<open>
  Requests, responses and the middleware of the HTTP interface (\<open>api/render/render.go\<close> and
  \<open>api/middleware\<close>). The server of the standard library is a parameter: a request carries what the
  handlers read of it, the URL parameters that the router binds among them, and a handler turns it into
  a response. Headers are read and written under their canonical names.
\<close>

section \<open>Requests and responses\<close>

record http_request =
  rq_method :: string
  rq_headers :: "(string \<times> string) list"
  rq_query :: "(string \<times> string list) list"
  rq_params :: "(string \<times> string) list"
  rq_body :: string
  rq_length :: int
  rq_remote :: string
  rq_host :: string

text \<open>\<open>r.Header.Get\<close>, \<open>r.URL.Query().Get\<close> and \<open>chi.URLParam\<close>: a missing value is the empty string.\<close>

definition text_at :: "(string \<times> string) list \<Rightarrow> string \<Rightarrow> string" where
  "text_at m k = (case map_of m k of Some v \<Rightarrow> v | None \<Rightarrow> [])"

definition query_get :: "(string \<times> string list) list \<Rightarrow> string \<Rightarrow> string" where
  "query_get q k = (case map_of q k of Some (v # vs) \<Rightarrow> v | _ \<Rightarrow> [])"

record meta_details =
  md_total :: int
  md_limit :: int
  md_offset :: int

record error_detail =
  ed_code :: string
  ed_message :: string
  ed_details :: row

record envelope =
  ev_data :: val
  ev_meta :: "meta_details option"
  ev_error :: "error_detail option"

record http_response =
  rs_status :: nat
  rs_headers :: "(string \<times> string) list"
  rs_body :: "envelope option"

type_synonym 's http_handler = "ctx \<Rightarrow> http_request \<Rightarrow> 's \<Rightarrow> http_response \<times> 's"

definition json_type :: "(string \<times> string) list" where
  "json_type = [(''Content-Type'', ''application/json'')]"

definition respond_json :: "nat \<Rightarrow> val \<Rightarrow> meta_details option \<Rightarrow> http_response" where
  "respond_json status data meta =
     \<lparr>rs_status = status, rs_headers = json_type,
      rs_body = Some \<lparr>ev_data = data, ev_meta = meta, ev_error = None\<rparr>\<rparr>"

text \<open>The framework error that an error carries; any other error is reported as an internal one.\<close>

definition rendered_error :: "gerror \<Rightarrow> gerror" where
  "rendered_error e =
     (case as_error e of Some o1 \<Rightarrow> o1 | None \<Rightarrow> internal_err ''an unexpected error occurred'' (Some e))"

definition error_status :: "gerror \<Rightarrow> nat" where
  "error_status e = (case err_code (rendered_error e) of Some c \<Rightarrow> http_status c | None \<Rightarrow> 500)"

definition respond_error :: "gerror \<Rightarrow> http_response" where
  "respond_error e =
     (let o1 = rendered_error e in
      \<lparr>rs_status = error_status e, rs_headers = json_type,
       rs_body = Some \<lparr>ev_data = VNil, ev_meta = None,
         ev_error = Some \<lparr>ed_code = (case err_code o1 of Some c \<Rightarrow> code_string c | None \<Rightarrow> []),
                          ed_message = err_message o1, ed_details = err_details o1\<rparr>\<rparr>\<rparr>)"

text \<open>A response without a body, as \<open>w.WriteHeader\<close> leaves it.\<close>

definition bare :: "nat \<Rightarrow> http_response" where
  "bare status = \<lparr>rs_status = status, rs_headers = [], rs_body = None\<rparr>"

subsection \<open>The text of an envelope\<close>

text \<open>A member that \<open>omitempty\<close> leaves out.\<close>

definition json_omitted :: "bool \<Rightarrow> string \<Rightarrow> string \<Rightarrow> (string \<times> string) list" where
  "json_omitted omit k v = (if omit then [] else [(k, v)])"

definition meta_json :: "meta_details option \<Rightarrow> string" where
  "meta_json m =
     (case m of
        None \<Rightarrow> ''null''
      | Some d \<Rightarrow> json_fields (json_omitted (md_total d = 0) ''total_count'' (itoa (md_total d)) @
                    json_omitted (md_limit d = 0) ''limit'' (itoa (md_limit d)) @
                    json_omitted (md_offset d = 0) ''offset'' (itoa (md_offset d))))"

definition error_json :: "(int \<Rightarrow> string) \<Rightarrow> error_detail option \<Rightarrow> string" where
  "error_json jt x =
     (case x of
        None \<Rightarrow> ''null''
      | Some d \<Rightarrow> json_fields ([(''code'', json_str (ed_code d)), (''message'', json_str (ed_message d))] @
                     json_omitted (ed_details d = []) ''details'' (json_encode jt (VMap (ed_details d)))))"

definition envelope_json :: "(int \<Rightarrow> string) \<Rightarrow> envelope \<Rightarrow> string" where
  "envelope_json jt x =
     json_fields [(''data'', json_encode jt (ev_data x)), (''meta'', meta_json (ev_meta x)),
        (''error'', error_json jt (ev_error x))] @ nl"

lemma respond_error_status [simp]: "rs_status (respond_error e) = error_status e"
  by (simp add: respond_error_def Let_def)

lemma as_error_orjanda: "as_error e = Some x \<Longrightarrow> \<exists>c m d y. x = OrjError c m d y"
  by (induction e rule: as_error.induct) auto

lemma rendered_error_is_orjanda: "\<exists>c m d x. rendered_error e = OrjError c m d x"
  by (cases "as_error e") (auto simp: rendered_error_def error_defs dest: as_error_orjanda)

lemma error_status_range: "400 \<le> error_status e \<and> error_status e \<le> 500"
  using rendered_error_is_orjanda [of e] http_status_error
  by (auto simp: error_status_def)

lemma error_status_simps [simp]:
  "error_status (OrjError c m d x) = http_status c"
  "error_status (auth_err m) = 401" "error_status (validation_err m d) = 400"
  "error_status (permission_err m) = 403" "error_status (not_found_err m) = 404"
  by (simp_all add: error_status_def rendered_error_def error_defs)

section \<open>Bodies\<close>

definition bad_body :: gerror where
  "bad_body = validation_err ''invalid JSON request body'' []"

text \<open>A string field of the struct that a request body is decoded into.\<close>

definition struct_field :: "string \<Rightarrow> row \<Rightarrow> string option" where
  "struct_field name m = member_as want_str [] name m"

section \<open>Middleware\<close>

subsection \<open>CORS\<close>

definition cors_origin :: "string list \<Rightarrow> string \<Rightarrow> (string \<times> string) list" where
  "cors_origin allowed origin =
     (if list_ex (\<lambda>o1. o1 = ''*'' \<or> equal_fold o1 origin) allowed
      then [(''Access-Control-Allow-Origin'', origin)]
      else case allowed of [] \<Rightarrow> [] | o1 # _ \<Rightarrow> [(''Access-Control-Allow-Origin'', o1)])"

definition cors_headers :: "string list \<Rightarrow> string \<Rightarrow> (string \<times> string) list" where
  "cors_headers allowed origin =
     (if origin = [] then []
      else cors_origin allowed origin @
        [(''Access-Control-Allow-Methods'', ''GET, POST, PUT, PATCH, DELETE, OPTIONS''),
         (''Access-Control-Allow-Headers'', ''Authorization, Content-Type, X-Request-ID, X-Tenant-ID''),
         (''Access-Control-Allow-Credentials'', ''true'')])"

definition with_headers :: "(string \<times> string) list \<Rightarrow> http_response \<Rightarrow> http_response" where
  "with_headers hs r = r\<lparr>rs_headers := hs @ rs_headers r\<rparr>"

definition cors :: "string list \<Rightarrow> 's http_handler \<Rightarrow> 's http_handler" where
  "cors allowed next cx rq s =
     (let hs = cors_headers allowed (text_at (rq_headers rq) ''Origin'') in
      if rq_method rq = ''OPTIONS'' then (with_headers hs (bare 204), s)
      else let (r, s') = next cx rq s in (with_headers hs r, s'))"

subsection \<open>Authentication\<close>

text \<open>The provider's \<open>ValidateToken\<close>; it may return no identity.\<close>

type_synonym 's token_check = "string \<Rightarrow> 's \<Rightarrow> (gerror + identity option) \<times> 's"

text \<open>The credentials of a request: none, a token, or a header that is not of the form \<open>Bearer token\<close>.\<close>

datatype credentials = NoToken | BadHeader | Token string

definition request_token :: "http_request \<Rightarrow> credentials" where
  "request_token rq =
     (let h = text_at (rq_headers rq) ''Authorization'';
          q = query_get (rq_query rq) ''access_token''
      in if h \<noteq> []
         then (case index_byte h (CHR '' '') of
                 None \<Rightarrow> BadHeader
               | Some n \<Rightarrow> if \<not> equal_fold (take n h) ''Bearer'' then BadHeader
                           else if drop (Suc n) h = [] then NoToken else Token (drop (Suc n) h))
         else if q \<noteq> [] then Token q else NoToken)"

definition auth_mw :: "'s token_check option \<Rightarrow> 's http_handler \<Rightarrow> 's http_handler" where
  "auth_mw provider next cx rq s =
     (case request_token rq of
        BadHeader \<Rightarrow> (respond_error (auth_err ''invalid authorization header format''), s)
      | NoToken \<Rightarrow> next cx rq s
      | Token t \<Rightarrow>
          (case provider of
             None \<Rightarrow> (respond_error (auth_err ''authentication provider not configured''), s)
           | Some check \<Rightarrow>
               (case check t s of
                  (Inr (Some i), s') \<Rightarrow> next (auth_new_context cx i) rq s'
                | (_, s') \<Rightarrow> (respond_error (auth_err ''invalid or expired token''), s'))))"

subsection \<open>Rate limit\<close>

record request_limit =
  rl_limit :: int
  rl_window :: int

definition new_request_limit :: "int \<Rightarrow> int \<Rightarrow> request_limit" where
  "new_request_limit limit window =
     \<lparr>rl_limit = (if limit \<le> 0 then 1000 else limit), rl_window = (if window \<le> 0 then minute else window)\<rparr>"

definition limit_key :: "ctx \<Rightarrow> http_request \<Rightarrow> string" where
  "limit_key cx rq =
     (let u = i_user_id (auth_from_context cx) in if u = [] then rq_remote rq else u)"

definition stamps_at :: "(string \<times> int list) list \<Rightarrow> string \<Rightarrow> int list" where
  "stamps_at m key = (case map_of m key of Some ts \<Rightarrow> ts | None \<Rightarrow> [])"

text \<open>One request of a caller at a time: whether it may pass, and the stamps it leaves.\<close>

definition limit_step :: "request_limit \<Rightarrow> int \<Rightarrow> int list \<Rightarrow> bool \<times> int list" where
  "limit_step L now ts =
     (let valid = filter (\<lambda>t. now - rl_window L < t) ts
      in if rl_limit L \<le> int (length valid) then (False, valid) else (True, valid @ [now]))"

text \<open>\<open>dur\<close> renders a duration; the limiter's table is a component of the server's state.\<close>

definition rate_limit_mw ::
    "(int \<Rightarrow> string) \<Rightarrow> request_limit \<Rightarrow> int \<Rightarrow> 's http_handler \<Rightarrow> ((string \<times> int list) list \<times> 's) http_handler" where
  "rate_limit_mw dur L now next cx rq = (\<lambda>(m, s).
     let key = limit_key cx rq;
         (pass, ts) = limit_step L now (stamps_at m key);
         m' = AList.update key ts m
     in if \<not> pass
        then (respond_error (validation_err ''rate limit exceeded''
                [(''limit'', VInt (rl_limit L)), (''window'', VStr (dur (rl_window L)))]), (m', s))
        else let (r, s') = next cx rq s in (r, (m', s')))"

subsection \<open>Permission\<close>

definition method_action :: "string \<Rightarrow> string" where
  "method_action m =
     (let u = to_upper m in
      if u = ''GET'' then ''read'' else if u = ''POST'' then ''create''
      else if u = ''PATCH'' \<or> u = ''PUT'' then ''write''
      else if u = ''DELETE'' then ''delete'' else ''read'')"

definition permission_mw :: "'s perm_engine option \<Rightarrow> 's http_handler \<Rightarrow> 's http_handler" where
  "permission_mw pe next cx rq s =
     (let dt = text_at (rq_params rq) ''doctype'' in
      if dt = [] then next cx rq s
      else case pe of
             None \<Rightarrow> next cx rq s
           | Some p \<Rightarrow>
               (case pe_check_action p cx dt (method_action (rq_method rq)) s of
                  (Inl e, s') \<Rightarrow> (respond_error e, s')
                | (Inr _, s') \<Rightarrow> next cx rq s'))"

end
