(* ===== verification/Rest.thy ===== *)
theory Rest
  imports Http Tools
begin

text \<open>
  The REST document handlers (\<open>api/rest/handlers.go\<close>), the dispatch of custom methods
  (\<open>DispatchHandler\<close> of \<open>api/rpc/rpc.go\<close>) and the metadata handlers (\<open>api/meta.go\<close>). A struct is rendered
  as the object of its members, so the order of members in the text is not modelled.
\<close>

section \<open>Documents\<close>

definition ok_response :: "nat \<Rightarrow> val \<Rightarrow> http_response" where
  "ok_response status v = respond_json status v None"

text \<open>Runs a step of an engine; an error is rendered.\<close>

definition answer :: "('s, gerror, 'a) step \<Rightarrow> ('a \<Rightarrow> 's \<Rightarrow> http_response \<times> 's) \<Rightarrow> 's \<Rightarrow> http_response \<times> 's" where
  "answer m f s = (case m s of (Inl e, s') \<Rightarrow> (respond_error e, s') | (Inr a, s') \<Rightarrow> f a s')"

definition non_negative :: "string \<Rightarrow> int" where
  "non_negative t = (case atoi t of Some n \<Rightarrow> if 0 \<le> n then n else 0 | None \<Rightarrow> 0)"

definition reserved_param :: "string \<Rightarrow> bool" where
  "reserved_param k \<longleftrightarrow> k \<in> {''fields'', ''filters'', ''order_by'', ''limit'', ''offset'', ''q''}"

text \<open>A JSON object of filters first, then every parameter that is not reserved, then the search text.\<close>

definition json_filters :: "string \<Rightarrow> row" where
  "json_filters t =
     (if has_prefix t ''{'' then (case json_object t of Some m \<Rightarrow> m | None \<Rightarrow> []) else [])"

definition param_filters :: "(string \<times> string list) list \<Rightarrow> row \<Rightarrow> row" where
  "param_filters q m =
     fold (\<lambda>(k, vs) m. if reserved_param k then m
                       else case vs of [] \<Rightarrow> m | v # _ \<Rightarrow> AList.update k (VStr v) m) q m"

definition list_filters :: "(string \<times> string list) list \<Rightarrow> row" where
  "list_filters q =
     (let m = param_filters q (json_filters (query_get q ''filters''));
          t = query_get q ''q''
      in if t = [] then m else AList.update ''q'' (VStr t) m)"

definition rest_list_opts :: "(string \<times> string list) list \<Rightarrow> list_opts" where
  "rest_list_opts q =
     \<lparr>lo_filters = list_filters q, lo_order_by = query_get q ''order_by'',
      lo_limit = non_negative (query_get q ''limit''), lo_offset = non_negative (query_get q ''offset''),
      lo_include_deleted = False\<rparr>"

definition rest_list :: "'s engine \<Rightarrow> 's http_handler" where
  "rest_list en cx rq =
     (let lo = rest_list_opts (rq_query rq) in
      answer (doc_list en cx (text_at (rq_params rq) ''doctype'') lo) (\<lambda>rows s.
        (respond_json 200 (VList (map VMap rows))
           (Some \<lparr>md_total = int (length rows), md_limit = lo_limit lo, md_offset = lo_offset lo\<rparr>), s)))"

definition rest_read :: "'s engine \<Rightarrow> 's http_handler" where
  "rest_read en cx rq =
     answer (doc_read en cx (text_at (rq_params rq) ''doctype'') (text_at (rq_params rq) ''id''))
       (\<lambda>r s. (ok_response 200 (VMap r), s))"

text \<open>The record after a write, or its id alone when the caller may not read it.\<close>

definition written_record :: "'s engine \<Rightarrow> ctx \<Rightarrow> string \<Rightarrow> string \<Rightarrow> nat \<Rightarrow> 's \<Rightarrow> http_response \<times> 's" where
  "written_record en cx dt i status s =
     (case doc_read en cx dt i s of
        (Inl e, s') \<Rightarrow> (ok_response status (VMap [(''id'', VStr i)]), s')
      | (Inr r, s') \<Rightarrow> (ok_response status (VMap r), s'))"

definition rest_create :: "'s engine \<Rightarrow> op_env \<Rightarrow> 's http_handler" where
  "rest_create en oe cx rq s =
     (let dt = text_at (rq_params rq) ''doctype'' in
      case body_object (read_body (rq_body rq)) of
        None \<Rightarrow> (respond_error bad_body, s)
      | Some data \<Rightarrow> answer (doc_create en oe cx dt data) (\<lambda>i. written_record en cx dt i 201) s)"

definition rest_update :: "'s engine \<Rightarrow> op_env \<Rightarrow> 's http_handler" where
  "rest_update en oe cx rq s =
     (let dt = text_at (rq_params rq) ''doctype''; i = text_at (rq_params rq) ''id'' in
      case body_object (read_body (rq_body rq)) of
        None \<Rightarrow> (respond_error bad_body, s)
      | Some data \<Rightarrow> answer (doc_update en oe cx dt i data) (\<lambda>_. written_record en cx dt i 200) s)"

definition rest_delete :: "'s engine \<Rightarrow> op_env \<Rightarrow> 's http_handler" where
  "rest_delete en oe cx rq =
     (let dt = text_at (rq_params rq) ''doctype''; i = text_at (rq_params rq) ''id'' in
      answer (doc_delete en oe cx dt i)
        (\<lambda>_ s. (ok_response 200 (VMap [(''id'', VStr i), (''success'', VBool True)]), s)))"

section \<open>Custom methods\<close>

definition relation_val :: "relationship \<Rightarrow> val" where
  "relation_val r =
     VMap [(''FromDoc'', VStr (r_from_doc r)), (''FromField'', VStr (r_from_field r)),
           (''ToDoc'', VStr (r_to_doc r)), (''IsChildTable'', VBool (r_is_child_table r))]"

fun result_val :: "tool_result \<Rightarrow> val" where
  "result_val ResNil = VNil"
| "result_val (ResVal v) = v"
| "result_val (ResRecords rs) = VList (map VMap rs)"
| "result_val (ResRelations rs) = VList (map relation_val rs)"

definition method_path :: "http_request \<Rightarrow> string" where
  "method_path rq =
     (let a = text_at (rq_params rq) ''app''; m = text_at (rq_params rq) ''module'';
          f = text_at (rq_params rq) ''method''
      in trim_prefix (if a \<noteq> [] \<and> m \<noteq> [] \<and> f \<noteq> [] then a @ ''.'' @ m @ ''.'' @ f
                      else text_at (rq_params rq) ''*'') ''/'')"

text \<open>The arguments: the body's object, when there is a body, under the query parameters.\<close>

definition rpc_body :: "http_request \<Rightarrow> row option" where
  "rpc_body rq =
     (if rq_length rq \<le> 0 then Some []
      else case read_body (rq_body rq) of BodyEOF \<Rightarrow> Some [] | b \<Rightarrow> body_object b)"

definition query_args :: "(string \<times> string list) list \<Rightarrow> row \<Rightarrow> row" where
  "query_args q m =
     fold (\<lambda>(k, vs) m. case vs of [] \<Rightarrow> m | v # _ \<Rightarrow> AList.update k (VStr v) m) q m"

text \<open>Calling a nil handler panics; the recoverer answers 500.\<close>

definition rpc_call :: "'s rpc_method \<Rightarrow> 's http_handler" where
  "rpc_call m cx rq s =
     (case rpc_body rq of
        None \<Rightarrow> (respond_error bad_body, s)
      | Some args \<Rightarrow>
          (case rm_handler m of
             None \<Rightarrow> (bare 500, s)
           | Some h \<Rightarrow> answer (h cx (query_args (rq_query rq) args)) (\<lambda>res s. (ok_response 200 (result_val res), s)) s))"

definition rpc_dispatch :: "'s rpc_registry \<Rightarrow> 's perm_engine \<Rightarrow> 's http_handler" where
  "rpc_dispatch rpc pe cx rq s =
     (let path = method_path rq in
      case rpc_get rpc path of
        None \<Rightarrow> (respond_error (not_found_err (''custom RPC method not found: '' @ path)), s)
      | Some m \<Rightarrow>
          if rm_http m \<noteq> [] \<and> \<not> equal_fold (rq_method rq) (rm_http m)
          then (respond_error (validation_err ''method not allowed for this RPC endpoint''
                  [(''allowed_method'', VStr (rm_http m))]), s)
          else case (if rm_roles m = [] then Inr ()
                     else pe_check_roles pe cx (''method:'' @ rm_name m) ''call'' (rm_roles m)) of
                 Inl e \<Rightarrow> (respond_error e, s)
               | Inr _ \<Rightarrow> rpc_call m cx rq s)"

section \<open>Metadata\<close>

definition str_member :: "string \<Rightarrow> string \<Rightarrow> row" where
  "str_member k s = (if s = [] then [] else [(k, VStr s)])"

definition doc_summary :: "compiled_doc \<Rightarrow> val" where
  "doc_summary d =
     VMap [(''name'', VStr (d_name d)), (''module'', VStr (d_module d)), (''title_field'', VStr (d_title_field d)),
           (''searchable'', VBool (d_searchable d)), (''submittable'', VBool (d_submittable d)),
           (''icon'', VStr (d_icon d)), (''description'', VStr (d_description d))]"

definition meta_list :: "registry \<Rightarrow> 's http_handler" where
  "meta_list reg cx rq s = (ok_response 200 (VList (map doc_summary (registry_list reg))), s)"

definition field_meta :: "field \<Rightarrow> val" where
  "field_meta f =
     VMap ([(''name'', VStr (f_name f)), (''db_column'', VStr (f_db_column f)),
            (''type'', VStr (field_type_string (f_type f))), (''label'', VStr (f_label f)),
            (''required'', VBool (f_required f))] @
           (if f_options f = [] then [] else [(''options'', VStrs (f_options f))]) @
           str_member ''link'' (f_link_target f) @ [(''hidden'', VBool (f_hidden f))] @
           (if f_read_only f then [(''read_only'', VBool True)] else []))"

text \<open>Whether the caller may act, as the permission engine answers; without one, everything is allowed.\<close>

definition may_act :: "'s perm_engine option \<Rightarrow> ctx \<Rightarrow> string \<Rightarrow> string \<Rightarrow> 's \<Rightarrow> bool \<times> 's" where
  "may_act pe cx dt action s =
     (case pe of
        None \<Rightarrow> (True, s)
      | Some p \<Rightarrow> (case pe_check_action p cx dt action s of (Inr _, s') \<Rightarrow> (True, s') | (Inl _, s') \<Rightarrow> (False, s')))"

definition meta_allowed :: "'s perm_engine option \<Rightarrow> ctx \<Rightarrow> string \<Rightarrow> string list" where
  "meta_allowed pe cx dt =
     (case pe of
        None \<Rightarrow> []
      | Some p \<Rightarrow> (case pe_allowed_fields p cx dt of Inr names \<Rightarrow> names | Inl _ \<Rightarrow> []))"

definition meta_fields :: "'s perm_engine option \<Rightarrow> ctx \<Rightarrow> string \<Rightarrow> field list \<Rightarrow> field list" where
  "meta_fields pe cx dt fs =
     filter (\<lambda>f. \<not> f_hidden f \<and>
       \<not> (pe \<noteq> None \<and> f_permission_role f \<noteq> [] \<and> f_name f \<notin> set (meta_allowed pe cx dt))) fs"

definition doc_meta_val :: "compiled_doc \<Rightarrow> field list \<Rightarrow> bool \<Rightarrow> bool \<Rightarrow> bool \<Rightarrow> bool \<Rightarrow> val" where
  "doc_meta_val d fs r w c x =
     VMap ([(''name'', VStr (d_name d)), (''title_field'', VStr (d_title_field d)),
            (''searchable'', VBool (d_searchable d)), (''submittable'', VBool (d_submittable d))] @
           str_member ''icon'' (d_icon d) @ str_member ''description'' (d_description d) @
           [(''fields'', VList (map field_meta fs)),
            (''permissions'', VMap [(''can_read'', VBool r), (''can_write'', VBool w),
                                    (''can_create'', VBool c), (''can_delete'', VBool x)])])"

definition get_doc_meta :: "registry \<Rightarrow> 's perm_engine option \<Rightarrow> 's http_handler" where
  "get_doc_meta reg pe cx rq s =
     (let dt = text_at (rq_params rq) ''doctype'' in
      case registry_get reg dt of
        Inl e \<Rightarrow> (respond_error e, s)
      | Inr d \<Rightarrow>
          (let (r, s) = may_act pe cx dt ''read'' s;
               (w, s) = may_act pe cx dt ''write'' s;
               (c, s) = may_act pe cx dt ''create'' s;
               (x, s) = may_act pe cx dt ''delete'' s
           in if \<not> r then (respond_error (permission_err (''permission denied: no read access to '' @ dt)), s)
              else (ok_response 200 (doc_meta_val d (meta_fields pe cx dt (d_fields d)) r w c x), s)))"

definition get_links :: "registry \<Rightarrow> 's http_handler" where
  "get_links reg cx rq s =
     (ok_response 200 (VList (map relation_val (registry_relationships reg (text_at (rq_params rq) ''doctype'')))), s)"

end
