(* ===== verification/Login.thy ===== *)
theory Login
  imports Http
begin

text \<open>
  The built-in login (\<open>api/auth.go\<close>). bcrypt, the clock and the ULIDs are parameters. The state is the
  JWT provider with what lies behind the data layer; the provider is the one issuer of tokens in the
  repository, and a server without one does not enable the handler.
\<close>

section \<open>Login\<close>

text \<open>\<open>asBool\<close>: what a driver returns for a boolean column.\<close>

definition as_bool :: "val \<Rightarrow> bool" where
  "as_bool v =
     (case v of VBool b \<Rightarrow> b | VInt64 i \<Rightarrow> i \<noteq> 0 | VInt i \<Rightarrow> i \<noteq> 0 | VFloat m e \<Rightarrow> m \<noteq> 0
      | VStr s \<Rightarrow> s \<in> {''true'', ''1'', ''1.0''} | _ \<Rightarrow> False)"

definition roles_query :: "string \<Rightarrow> select" where
  "roles_query user = zero_select\<lparr>s_doc_type := ''UserRole'', s_filters := [(''parent_id'', VStr user)]\<rparr>"

definition row_roles :: "row list \<Rightarrow> string list" where
  "row_roles rows = filter (\<lambda>r. r \<noteq> []) (map (\<lambda>r. str_of (map_of r ''role'')) rows)"

definition roles_for_user :: "'s dal \<Rightarrow> string \<Rightarrow> 's \<Rightarrow> string list \<times> 's" where
  "roles_for_user D user s =
     (case dal_query D (roles_query user) s of
        (Inl e, s') \<Rightarrow> ([], s') | (Inr rows, s') \<Rightarrow> (row_roles rows, s'))"

definition user_query :: "string \<Rightarrow> select" where
  "user_query email = zero_select\<lparr>s_doc_type := ''User'', s_filters := [(''email'', VStr email)], s_limit := 1\<rparr>"

definition not_enabled :: gerror where
  "not_enabled = auth_err ''authentication is not enabled on this provider''"

definition token_response :: "string \<times> string \<Rightarrow> http_response" where
  "token_response t =
     respond_json 200 (VMap [(''access_token'', VStr (fst t)), (''token_type'', VStr ''bearer''),
       (''refresh_token'', VStr (snd t)), (''expires_in'', VInt 900)]) None"

text \<open>What a login draws: the clock reading and the ids of the two tokens.\<close>

record auth_env =
  au_now :: int
  au_j1 :: string
  au_j2 :: string

text \<open>The checks on a stored row, in the order of the code.\<close>

definition row_refusal :: "(string \<Rightarrow> string \<Rightarrow> bool) \<Rightarrow> row \<Rightarrow> string \<Rightarrow> string option" where
  "row_refusal bcrypt r password =
     (let hashed = str_of (map_of r ''password'') in
      if \<not> as_bool (get_or_nil r ''active'') then Some ''account is disabled''
      else if hashed = [] \<or> \<not> bcrypt hashed password then Some ''invalid credentials'' else None)"

definition login_identity :: "row \<Rightarrow> string \<Rightarrow> string list \<Rightarrow> identity" where
  "login_identity r email roles =
     \<lparr>i_user_id = str_of (map_of r ''id''), i_email = email, i_full_name = str_of (map_of r ''full_name''),
      i_roles = roles, i_tenant = [], i_source = ''local''\<rparr>"

definition login_row ::
    "jwt_lib \<Rightarrow> auth_env \<Rightarrow> (string \<Rightarrow> string \<Rightarrow> bool) \<Rightarrow> 's dal \<Rightarrow> string \<Rightarrow> string \<Rightarrow> row
     \<Rightarrow> jwt_provider \<times> 's \<Rightarrow> http_response \<times> (jwt_provider \<times> 's)" where
  "login_row L a bcrypt D email password r = (\<lambda>(p, s).
     case row_refusal bcrypt r password of
       Some m \<Rightarrow> (respond_error (auth_err m), (p, s))
     | None \<Rightarrow>
         (let (roles, s) = roles_for_user D (str_of (map_of r ''id'')) s in
          case generate_token_pair L p (au_now a) (au_j1 a) (au_j2 a) (login_identity r email roles) of
            Inl e \<Rightarrow> (respond_error e, (p, s))
          | Inr t \<Rightarrow> (token_response t, (p, s))))"

definition login_email :: "string \<Rightarrow> string" where
  "login_email t = trim_space (to_lower t)"

definition auth_login ::
    "jwt_lib \<Rightarrow> auth_env \<Rightarrow> (string \<Rightarrow> string \<Rightarrow> bool) \<Rightarrow> 's dal \<Rightarrow> bool \<Rightarrow> (jwt_provider \<times> 's) http_handler" where
  "auth_login L a bcrypt D enabled cx rq = (\<lambda>(p, s).
     if \<not> enabled then (respond_error not_enabled, (p, s))
     else case body_object (read_body (rq_body rq)) of
       None \<Rightarrow> (respond_error bad_body, (p, s))
     | Some m \<Rightarrow>
         (case (struct_field ''email'' m, struct_field ''password'' m) of
            (Some em, Some pw) \<Rightarrow>
              (let email = login_email em in
               if email = [] \<or> pw = [] then (respond_error (auth_err ''email and password are required''), (p, s))
               else case dal_query D (user_query email) s of
                      (Inr (r # _), s') \<Rightarrow> login_row L a bcrypt D email pw r (p, s')
                    | (_, s') \<Rightarrow> (respond_error (auth_err ''invalid credentials''), (p, s')))
          | _ \<Rightarrow> (respond_error bad_body, (p, s))))"

definition auth_refresh :: "jwt_lib \<Rightarrow> auth_env \<Rightarrow> bool \<Rightarrow> (jwt_provider \<times> 's) http_handler" where
  "auth_refresh L a enabled cx rq = (\<lambda>(p, s).
     if \<not> enabled then (respond_error not_enabled, (p, s))
     else case body_object (read_body (rq_body rq)) of
       None \<Rightarrow> (respond_error bad_body, (p, s))
     | Some m \<Rightarrow>
         (case struct_field ''refresh_token'' m of
            None \<Rightarrow> (respond_error bad_body, (p, s))
          | Some tok \<Rightarrow>
              if tok = [] then (respond_error (auth_err ''refresh_token is required''), (p, s))
              else (case refresh_token L (au_now a) (au_j1 a) (au_j2 a) tok p of
                      (Inl e, p') \<Rightarrow> (respond_error e, (p', s))
                    | (Inr t, p') \<Rightarrow> (token_response t, (p', s)))))"

section \<open>What a login proves\<close>

lemma ok_statuses [simp]:
  "rs_status (token_response t) = 200" "rs_status (respond_json n v m) = n"
  by (simp_all add: token_response_def respond_json_def)

lemma generate_error: "generate_token_pair L p now j1 j2 i = Inl e \<Longrightarrow> error_status e = 500"
  by (auto simp: generate_token_pair_def error_defs split: option.splits)

lemma login_row_result:
  assumes "sign_parse_law L (jp_secret p)" and "login_row L a bcrypt D email pw r (p, s1) = (resp, (p', s'))"
  shows "p' = p \<and> (if rs_status resp = 200
    then row_refusal bcrypt r pw = None \<and>
      (\<exists>acc rfr. resp = token_response (acc, rfr) \<and>
        (\<forall>t < j_date L (au_now a + jp_access_ttl p). validate_token L p t acc =
           Inr (login_identity r email (fst (roles_for_user D (str_of (map_of r ''id'')) s1)))))
    else rs_status resp \<in> {401, 500})"
proof (cases "row_refusal bcrypt r pw")
  case (Some m)
  then show ?thesis using assms(2) by (auto simp: login_row_def)
next
  case None
  obtain roles s2 where ro: "roles_for_user D (str_of (map_of r ''id'')) s1 = (roles, s2)" by fastforce
  show ?thesis
  proof (cases "generate_token_pair L p (au_now a) (au_j1 a) (au_j2 a) (login_identity r email roles)")
    case (Inl e)
    then have "resp = respond_error e" "p' = p" using assms(2) None ro by (auto simp: login_row_def)
    then show ?thesis using generate_error [OF Inl] by simp
  next
    case (Inr x)
    obtain acc rfr where x: "x = (acc, rfr)" by fastforce
    have "resp = token_response (acc, rfr)" "p' = p" using assms(2) None ro Inr x by (auto simp: login_row_def)
    then show ?thesis using issued_tokens(1) [OF assms(1) Inr [unfolded x]] None ro by auto
  qed
qed

text \<open>A login is refused before a row is looked at, or it is decided by the first row found.\<close>

lemma auth_login_cases:
  assumes "auth_login L a bcrypt D enabled cx rq (p, s) = (resp, (p', s'))"
  obtains x where "resp = respond_error x" "error_status x \<in> {400, 401}" "p' = p"
  | m em pw r rest s1 where "enabled" "body_object (read_body (rq_body rq)) = Some m"
      "struct_field ''email'' m = Some em" "struct_field ''password'' m = Some pw" "pw \<noteq> []"
      "dal_query D (user_query (login_email em)) s = (Inr (r # rest), s1)"
      "login_row L a bcrypt D (login_email em) pw r (p, s1) = (resp, (p', s'))"
proof -
  note run = assms [unfolded auth_login_def prod.case]
  consider "\<not> enabled" | "enabled" "body_object (read_body (rq_body rq)) = None"
    | m where "enabled" "body_object (read_body (rq_body rq)) = Some m" "struct_field ''email'' m = None \<or> struct_field ''password'' m = None"
    | m em pw where "enabled" "body_object (read_body (rq_body rq)) = Some m"
        "struct_field ''email'' m = Some em" "struct_field ''password'' m = Some pw"
    by fastforce
  then show ?thesis
  proof cases
    case 1
    then show ?thesis using run by (intro that(1) [of not_enabled]) (auto simp: not_enabled_def)
  next
    case 2
    then show ?thesis using run by (intro that(1) [of bad_body]) (auto simp: bad_body_def)
  next
    case 3
    then show ?thesis using run by (intro that(1) [of bad_body]) (auto simp: bad_body_def split: option.splits)
  next
    case (4 m em pw)
    obtain q s1 where q: "dal_query D (user_query (login_email em)) s = (q, s1)" by fastforce
    consider "login_email em = [] \<or> pw = []" | r rest where "pw \<noteq> []" "login_email em \<noteq> []" "q = Inr (r # rest)"
      | "pw \<noteq> []" "login_email em \<noteq> []" "\<nexists>r rest. q = Inr (r # rest)" by blast
    then show ?thesis
    proof cases
      case 1
      then show ?thesis
        using run 4 by (intro that(1) [of "auth_err ''email and password are required''"]) (auto simp: Let_def)
    next
      case (2 r rest)
      then show ?thesis using run 4 q by (intro that(2) [of m em pw r rest s1]) (auto simp: Let_def)
    next
      case 3
      then show ?thesis
        using run 4 q
        by (intro that(1) [of "auth_err ''invalid credentials''"]) (auto simp: Let_def split: sum.splits list.splits)
    qed
  qed
qed

text \<open>C21: A login that answers with tokens has checked a stored row: the first one with the given address is
  active and its hash accepts the password. The access token then authenticates, until it expires, as that
  row's user with the roles stored for it; every other login leaves the provider as it was.\<close>

theorem login_mints_stored_identity:
  assumes "sign_parse_law L (jp_secret p)" and "auth_login L a bcrypt D enabled cx rq (p, s) = (resp, (p', s'))"
  shows "p' = p \<and> (if rs_status resp = 200
    then \<exists>m em pw r rest s1 acc rfr. enabled \<and> body_object (read_body (rq_body rq)) = Some m \<and>
      struct_field ''email'' m = Some em \<and> struct_field ''password'' m = Some pw \<and> pw \<noteq> [] \<and>
      dal_query D (user_query (login_email em)) s = (Inr (r # rest), s1) \<and> as_bool (get_or_nil r ''active'') \<and>
      bcrypt (str_of (map_of r ''password'')) pw \<and> resp = token_response (acc, rfr) \<and>
      (\<forall>t < j_date L (au_now a + jp_access_ttl p). validate_token L p t acc =
         Inr (login_identity r (login_email em) (fst (roles_for_user D (str_of (map_of r ''id'')) s1))))
    else rs_status resp \<in> {400, 401, 500})"
  using assms(2)
proof (cases rule: auth_login_cases)
  case (1 x)
  then show ?thesis by auto
next
  case (2 m em pw r rest s1)
  from login_row_result [OF assms(1) 2(7)] show ?thesis
    using 2 by (auto simp: row_refusal_def Let_def split: if_splits)
qed

definition login_claims :: "string \<Rightarrow> string \<Rightarrow> int \<Rightarrow> claims" where
  "login_claims ty jti ex = (demo_claims ty jti ex)\<lparr>c_email := ''a@x'', c_source := ''local''\<rparr>"

definition login_jwt :: jwt_lib where
  "login_jwt =
     (let a = login_claims ''access'' ''a'' 50; r = login_claims ''refresh'' ''r'' 90
      in \<lparr>j_sign = (\<lambda>k c. if c = a then Some ''A'' else if c = r then Some ''R'' else None),
          j_is_hmac = (\<lambda>tok. True),
          j_parse = (\<lambda>k t tok. if tok = ''A'' \<and> t < 50 then Some a
                               else if tok = ''R'' \<and> t < 90 then Some r else None),
          j_date = (\<lambda>t. t)\<rparr>)"

text \<open>A store with one active user and one role.\<close>

definition login_store :: "unit dal" where
  "login_store =
     \<lparr>dal_query = (\<lambda>q s. (Inr (if s_doc_type q = ''User''
         then [[(''id'', VStr ''u1''), (''email'', VStr ''a@x''), (''password'', VStr ''hash''), (''active'', VInt64 1)]]
         else [[(''role'', VStr ''User'')]]), s)),
      dal_insert = (\<lambda>dt r s. (Inr [], s)), dal_update = (\<lambda>dt i r s. (Inr (), s)), dal_delete = (\<lambda>dt i s. (Inr (), s)),
      tx_query = (\<lambda>q s. (Inr [], s)), tx_insert = (\<lambda>dt r s. (Inr [], s)), tx_update = (\<lambda>dt i r s. (Inr (), s)),
      tx_delete = (\<lambda>dt i s. (Inr (), s)), dal_begin = (\<lambda>s. (Inr (), s)), dal_commit = (\<lambda>s. (Inr (), s)),
      dal_rollback = (\<lambda>s. s)\<rparr>"

definition login_request :: http_request where
  "login_request =
     \<lparr>rq_method = ''POST'', rq_headers = [], rq_query = [], rq_params = [],
      rq_body = json_encode itoa (VMap [(''email'', VStr '' A@x''), (''password'', VStr ''pw'')]),
      rq_length = 33, rq_remote = ''10.0.0.1:4000'', rq_host = ''x''\<rparr>"

definition login_env :: auth_env where
  "login_env = \<lparr>au_now = 0, au_j1 = ''a'', au_j2 = ''r''\<rparr>"

lemma login_sign_parse: "sign_parse_law login_jwt ''key''"
  by (auto simp: sign_parse_law_def login_jwt_def login_claims_def demo_claims_def Let_def split: if_splits)

theorem login_mints_stored_identity_witness:
  "\<exists>acc i. validate_token login_jwt demo_provider 10 acc = Inr i \<and> i_user_id i = ''u1'' \<and> i_roles i = [''User'']"
proof -
  let ?r = "auth_login login_jwt login_env (\<lambda>h pw. h = ''hash'' \<and> pw = ''pw'') login_store True background_ctx login_request
    (demo_provider, ())"
  have k: "jp_secret demo_provider = ''key''" "jp_access_ttl demo_provider = 50"
    "au_now login_env = 0" "j_date login_jwt = (\<lambda>t. t)"
    by (simp_all add: demo_provider_def new_jwt_provider_def login_env_def login_jwt_def Let_def)
  obtain resp p s where r: "?r = (resp, (p, s))" by (metis surj_pair)
  have st: "rs_status (fst ?r) = 200" by code_simp
  have q: "roles_for_user login_store ''u1'' () = ([''User''], ())"
    "fst (dal_query login_store (user_query x) ()) =
      Inr [[(''id'', VStr ''u1''), (''email'', VStr ''a@x''), (''password'', VStr ''hash''), (''active'', VInt64 1)]]" for x
    by (simp_all add: roles_for_user_def login_store_def roles_query_def user_query_def zero_select_def row_roles_def)
  from login_mints_stored_identity [OF _ r] login_sign_parse k st r obtain em row rest s1 acc where
    a: "dal_query login_store (user_query (login_email em)) () = (Inr (row # rest), s1)" and
    v: "\<forall>t < 50. validate_token login_jwt demo_provider t acc =
       Inr (login_identity row (login_email em) (fst (roles_for_user login_store (str_of (map_of row ''id'')) s1)))"
    by auto
  from a q(2) [of "login_email em"] have "map_of row ''id'' = Some (VStr ''u1'')" by auto
  then show ?thesis using v [rule_format, of 10] q(1) by (intro exI [of _ acc]) (simp add: login_identity_def)
qed

end
