(* ===== verification/Ui.thy ===== *)
theory Ui
  imports Registry "HOL-Library.Multiset"
begin

text \<open>
  The admin UI's page registry and the code generation contract (\<open>ui/ui.go\<close>, \<open>ui/codegen.go\<close>). The file
  system, SHA-256, the indentation of JSON and the Node script are parameters; where the script is found is
  left to the run of the script.
\<close>

section \<open>Pages\<close>

record page =
  pa_path :: string
  pa_title :: string
  pa_component :: string
  pa_icon :: string
  pa_menu :: string

text \<open>A later registration takes the place of the first page with its path.\<close>

fun register_page :: "page \<Rightarrow> page list \<Rightarrow> page list" where
  "register_page p [] = [p]"
| "register_page p (q # qs) = (if pa_path q = pa_path p then p # qs else q # register_page p qs)"

lemma register_page_paths:
  "map pa_path (register_page p ps) =
     map pa_path ps @ (if pa_path p \<in> pa_path ` set ps then [] else [pa_path p])"
  by (induction ps) auto

lemma register_page_distinct: "distinct (map pa_path ps) \<Longrightarrow> distinct (map pa_path (register_page p ps))"
  by (simp add: register_page_paths)

lemma register_page_find:
  "find (\<lambda>q. pa_path q = x) (register_page p ps) = (if x = pa_path p then Some p else find (\<lambda>q. pa_path q = x) ps)"
  by (induction ps) auto

section \<open>The codegen input\<close>

record field_json =
  fj_name :: string
  fj_column :: string
  fj_type :: string
  fj_label :: string
  fj_required :: bool
  fj_options :: "string list"
  fj_link :: string
  fj_hidden :: bool
  fj_permission :: string
  fj_read_only :: bool

record child_table_json =
  cj_field_name :: string
  cj_doc_type :: string
  cj_type_name :: string
  cj_fields :: "field_json list"

record permissions_json =
  pj_read :: bool
  pj_write :: bool
  pj_create :: bool
  pj_delete :: bool
  pj_submit :: bool

record doc_meta_json =
  dj_name :: string
  dj_app :: string
  dj_module :: string
  dj_title_field :: string
  dj_searchable :: bool
  dj_submittable :: bool
  dj_icon :: string
  dj_description :: string
  dj_fields :: "field_json list"
  dj_children :: "child_table_json list"
  dj_permissions :: permissions_json

definition field_to_json :: "field \<Rightarrow> field_json" where
  "field_to_json f =
     \<lparr>fj_name = f_name f, fj_column = f_db_column f, fj_type = field_type_string (f_type f), fj_label = f_label f,
      fj_required = f_required f, fj_options = f_options f, fj_link = f_link_target f, fj_hidden = f_hidden f,
      fj_permission = f_permission_role f, fj_read_only = f_read_only f\<rparr>"

text \<open>Whether some declared permission grants the verb; without declarations every verb is granted.\<close>

definition any_grant :: "compiled_doc \<Rightarrow> string \<Rightarrow> bool" where
  "any_grant d verb \<longleftrightarrow>
     d_permissions d = [] \<or>
     list_ex (\<lambda>p. verb = ''read'' \<and> p_read p \<or> verb = ''write'' \<and> p_write p \<or> verb = ''create'' \<and> p_create p \<or>
                   verb = ''delete'' \<and> p_delete p \<or> verb = ''submit'' \<and> p_submit p) (d_permissions d)"

definition doc_to_json :: "compiled_doc \<Rightarrow> doc_meta_json" where
  "doc_to_json d =
     \<lparr>dj_name = d_name d, dj_app = d_app d, dj_module = d_module d, dj_title_field = d_title_field d,
      dj_searchable = d_searchable d, dj_submittable = d_submittable d, dj_icon = d_icon d,
      dj_description = d_description d, dj_fields = map field_to_json (d_fields d),
      dj_children = map (\<lambda>c. \<lparr>cj_field_name = cc_field_name c, cj_doc_type = cc_doc_type c,
                              cj_type_name = cc_type_name c, cj_fields = map field_to_json (cc_fields c)\<rparr>)
                      (d_child_tables d),
      dj_permissions = \<lparr>pj_read = any_grant d ''read'', pj_write = any_grant d ''write'',
        pj_create = any_grant d ''create'', pj_delete = any_grant d ''delete'', pj_submit = any_grant d ''submit''\<rparr>\<rparr>"

definition codegen_input :: "registry \<Rightarrow> doc_meta_json list" where
  "codegen_input reg = map doc_to_json (registry_list reg)"

subsection \<open>Its text\<close>

definition json_bool :: "bool \<Rightarrow> string" where
  "json_bool b = (if b then ''true'' else ''false'')"

definition json_array :: "string list \<Rightarrow> string" where
  "json_array xs = ''['' @ join_with '','' xs @ '']''"

definition unless_empty :: "string \<Rightarrow> string \<Rightarrow> (string \<times> string) list" where
  "unless_empty k s = (if s = [] then [] else [(k, json_str s)])"

definition field_text :: "field_json \<Rightarrow> string" where
  "field_text f = json_fields
     ([(''name'', json_str (fj_name f)), (''db_column'', json_str (fj_column f)), (''type'', json_str (fj_type f)),
       (''label'', json_str (fj_label f)), (''required'', json_bool (fj_required f))] @
      (if fj_options f = [] then [] else [(''options'', json_array (map json_str (fj_options f)))]) @
      unless_empty ''link'' (fj_link f) @ [(''hidden'', json_bool (fj_hidden f))] @
      unless_empty ''permission'' (fj_permission f) @
      (if fj_read_only f then [(''read_only'', json_bool True)] else []))"

definition child_text :: "child_table_json \<Rightarrow> string" where
  "child_text c = json_fields
     [(''field_name'', json_str (cj_field_name c)), (''doc_type'', json_str (cj_doc_type c)),
      (''type_name'', json_str (cj_type_name c)), (''fields'', json_array (map field_text (cj_fields c)))]"

definition permissions_text :: "permissions_json \<Rightarrow> string" where
  "permissions_text p = json_fields
     [(''can_read'', json_bool (pj_read p)), (''can_write'', json_bool (pj_write p)),
      (''can_create'', json_bool (pj_create p)), (''can_delete'', json_bool (pj_delete p)),
      (''can_submit'', json_bool (pj_submit p))]"

definition doc_text :: "doc_meta_json \<Rightarrow> string" where
  "doc_text d = json_fields
     ([(''name'', json_str (dj_name d))] @ unless_empty ''app'' (dj_app d) @ unless_empty ''module'' (dj_module d) @
      [(''title_field'', json_str (dj_title_field d)), (''searchable'', json_bool (dj_searchable d)),
       (''submittable'', json_bool (dj_submittable d))] @
      unless_empty ''icon'' (dj_icon d) @ unless_empty ''description'' (dj_description d) @
      [(''fields'', json_array (map field_text (dj_fields d)))] @
      (if dj_children d = [] then [] else [(''child_tables'', json_array (map child_text (dj_children d)))]) @
      [(''permissions'', permissions_text (dj_permissions d))])"

definition input_text :: "registry \<Rightarrow> string" where
  "input_text reg = json_array (map doc_text (sort_key dj_name (codegen_input reg)))"

section \<open>Regeneration\<close>

record 's codegen =
  cg_sha :: "string \<Rightarrow> string"
  cg_indent :: "string \<Rightarrow> string"
  cg_read :: "string \<Rightarrow> 's \<Rightarrow> string option"
  cg_mkdir :: "string \<Rightarrow> ('s, gerror, unit) step"
  cg_write :: "string \<Rightarrow> string \<Rightarrow> ('s, gerror, unit) step"
  cg_run :: "string \<Rightarrow> string \<Rightarrow> ('s, gerror, unit) step"

record regenerate_options =
  go_out :: string
  go_marker :: string
  go_input :: string

definition content_hash :: "'s codegen \<Rightarrow> registry \<Rightarrow> string" where
  "content_hash G reg = cg_sha G (input_text reg)"

definition marshal_input :: "'s codegen \<Rightarrow> registry \<Rightarrow> string" where
  "marshal_input G reg = cg_indent G (input_text reg)"

text \<open>The paths with their defaults; joining a clean directory and a name.\<close>

definition default_paths :: "regenerate_options \<Rightarrow> string \<times> string \<times> string" where
  "default_paths opts =
     (let out_dir = (if go_out opts = [] then ''orjanda-ui/src/generated'' else go_out opts)
      in (out_dir,
          if go_marker opts = [] then out_dir @ ''/.registry-hash'' else go_marker opts,
          if go_input opts = [] then out_dir @ ''/schema.json'' else go_input opts))"

definition wrapped :: "string \<Rightarrow> ('s, gerror, 'a) step \<Rightarrow> ('s, gerror, 'a) step" where
  "wrapped msg m = (\<lambda>s. case m s of
     (Inl e, s') \<Rightarrow> (Inl (StdError (msg @ '': '' @ error_text e) (Some e)), s') | (Inr a, s') \<Rightarrow> (Inr a, s'))"

definition regenerate :: "'s codegen \<Rightarrow> regenerate_options \<Rightarrow> registry \<Rightarrow> ('s, gerror, bool) step" where
  "regenerate G opts reg = (\<lambda>s.
     let hash = content_hash G reg; (out_dir, marker, input) = default_paths opts in
     if cg_read G marker s = Some hash then (Inr False, s)
     else (bind_s (wrapped ''ui: codegen output dir'' (cg_mkdir G out_dir)) (\<lambda>_.
           bind_s (wrapped ''ui: write codegen input'' (cg_write G input (marshal_input G reg))) (\<lambda>_.
           bind_s (wrapped ''ui: codegen script failed'' (cg_run G input out_dir)) (\<lambda>_.
           bind_s (wrapped ''ui: write codegen marker'' (cg_write G marker hash)) (\<lambda>_.
           ret True)))) s))"

definition verify_committed_schema :: "'s codegen \<Rightarrow> registry \<Rightarrow> string \<Rightarrow> 's \<Rightarrow> gerror option" where
  "verify_committed_schema G reg path s =
     (let p = (if path = [] then ''orjanda-ui/src/generated/schema.json'' else path) in
      case cg_read G p s of
        None \<Rightarrow> Some (StdError ''ui: read committed codegen input'' None)
      | Some t \<Rightarrow>
          if t = marshal_input G reg then None
          else Some (StdError (''ui: committed '' @ p @ '' is stale'') None))"

section \<open>Stability\<close>

text \<open>A file that was written is read back, and a write leaves other files alone, as does the script for the
  marker and the input.\<close>

definition file_laws :: "'s codegen \<Rightarrow> bool" where
  "file_laws G \<longleftrightarrow>
     (\<forall>p c s s'. cg_write G p c s = (Inr (), s') \<longrightarrow> cg_read G p s' = Some c \<and>
        (\<forall>q. q \<noteq> p \<longrightarrow> cg_read G q s' = cg_read G q s)) \<and>
     (\<forall>i d s s'. cg_run G i d s = (Inr (), s') \<longrightarrow> cg_read G i s' = cg_read G i s)"

lemma sort_key_unique:
  assumes "mset xs = mset ys" and "inj_on k (set xs)"
  shows "sort_key k xs = sort_key k ys"
  by (rule sort_key_inj_key_eq) (use assms in simp_all)

lemma input_text_order:
  assumes "mset (registry_list reg) = mset (registry_list reg')" and "inj_on d_name (set (registry_list reg))"
  shows "input_text reg = input_text reg'"
proof -
  have "mset (codegen_input reg) = mset (codegen_input reg')" by (simp add: codegen_input_def assms(1))
  moreover have "inj_on dj_name (set (codegen_input reg))"
    using assms(2) by (auto simp: codegen_input_def inj_on_def doc_to_json_def)
  ultimately show ?thesis unfolding input_text_def by (simp add: sort_key_unique)
qed

lemma wrapped_Inr [simp]: "wrapped msg m s = (Inr a, s') \<longleftrightarrow> m s = (Inr a, s')"
  by (auto simp: wrapped_def split: prod.splits sum.splits)

lemma default_input_nonempty: "default_paths opts = (d, m, i) \<Longrightarrow> i \<noteq> []"
  by (auto simp: default_paths_def Let_def split: if_splits)

lemma regenerate_ran:
  assumes "regenerate G opts reg s = (Inr True, s')" and "default_paths opts = (d, m, i)"
  obtains s1 s2 s3 where "cg_mkdir G d s = (Inr (), s1)" "cg_write G i (marshal_input G reg) s1 = (Inr (), s2)"
    "cg_run G i d s2 = (Inr (), s3)" "cg_write G m (content_hash G reg) s3 = (Inr (), s')"
  using assms by (auto simp: regenerate_def bind_s_Inr Let_def split: if_splits)

text \<open>C37: A completed regeneration settles: the committed input verifies, and until the documents change no
  further pass runs, in whatever order the registry lists them.\<close>

theorem regenerate_settles:
  assumes "file_laws G" and "regenerate G opts reg s = (Inr True, s')" and "default_paths opts = (d, m, i)" and "i \<noteq> m"
    and "mset (registry_list reg') = mset (registry_list reg)" and "inj_on d_name (set (registry_list reg'))"
  shows "regenerate G opts reg' s' = (Inr False, s') \<and> verify_committed_schema G reg' i s' = None"
proof -
  obtain s1 s2 s3 where w: "cg_write G i (marshal_input G reg) s1 = (Inr (), s2)" "cg_run G i d s2 = (Inr (), s3)"
    "cg_write G m (content_hash G reg) s3 = (Inr (), s')"
    using regenerate_ran [OF assms(2,3)] by metis
  have e: "input_text reg' = input_text reg" by (rule input_text_order [OF assms(5,6)])
  have "cg_read G m s' = Some (content_hash G reg)" using assms(1) w(3) by (simp add: file_laws_def)
  then have "regenerate G opts reg' s' = (Inr False, s')"
    by (simp add: regenerate_def assms(3) content_hash_def e)
  moreover have "cg_read G i s' = Some (marshal_input G reg)"
    using assms(1,4) w unfolding file_laws_def by metis
  then have "verify_committed_schema G reg' i s' = None"
    using default_input_nonempty [OF assms(3)] by (simp add: verify_committed_schema_def marshal_input_def e)
  ultimately show ?thesis ..
qed

definition demo_codegen :: "(string \<times> string) list codegen" where
  "demo_codegen =
     \<lparr>cg_sha = (\<lambda>t. t), cg_indent = (\<lambda>t. t), cg_read = (\<lambda>p s. map_of s p), cg_mkdir = (\<lambda>d s. (Inr (), s)),
      cg_write = (\<lambda>p c s. (Inr (), AList.update p c s)), cg_run = (\<lambda>i d s. (Inr (), s))\<rparr>"

definition demo_ui_reg :: "string list \<Rightarrow> registry" where
  "demo_ui_reg names = new_registry\<lparr>rg_docs := map (\<lambda>n. (n, zero_doc\<lparr>d_name := n\<rparr>)) names, rg_compiled := True\<rparr>"

definition demo_regenerate :: regenerate_options where
  "demo_regenerate = \<lparr>go_out = ''gen'', go_marker = [], go_input = []\<rparr>"

theorem regenerate_settles_witness:
  "regenerate demo_codegen demo_regenerate (demo_ui_reg [''B'', ''A''])
     (snd (regenerate demo_codegen demo_regenerate (demo_ui_reg [''A'', ''B'']) [])) =
   (Inr False, snd (regenerate demo_codegen demo_regenerate (demo_ui_reg [''A'', ''B'']) []))"
proof -
  let ?r = "regenerate demo_codegen demo_regenerate (demo_ui_reg [''A'', ''B'']) []"
  have l: "file_laws demo_codegen" by (simp add: file_laws_def demo_codegen_def map_of_update)
  have "fst ?r = Inr True" by code_simp
  then have r: "?r = (Inr True, snd ?r)" by (simp add: prod_eq_iff)
  have p: "default_paths demo_regenerate = (''gen'', ''gen/.registry-hash'', ''gen/schema.json'')" by code_simp
  have q: "mset (registry_list (demo_ui_reg [''B'', ''A''])) = mset (registry_list (demo_ui_reg [''A'', ''B'']))"
    "inj_on d_name (set (registry_list (demo_ui_reg [''B'', ''A''])))"
    by (simp_all add: registry_list_def demo_ui_reg_def add_mset_commute inj_on_def)
  show ?thesis using regenerate_settles [OF l r p _ q] by simp
qed

end
