(* ===== verification/Router.thy ===== *)
theory Router
  imports Rest Login Ui
begin

text \<open>
  The assembly of the HTTP interface (\<open>api/router.go\<close>): the routes in the order they are mounted, and the
  middleware chain CORS, authentication, rate limit, permission. The matcher of the chi library is a
  parameter that picks a mounted route and binds its URL parameters, or gives the status of its own answer; its request-id and recoverer middleware
  are left out. The WebSocket route is a handler of its own (\<open>AgentSocket\<close>) and a parameter here. The state
  of a server is the rate limiter's table, the token provider and what lies behind the engines.
\<close>

datatype route =
    RLogin | RRefresh | RMeta | RMetaDoc | RLinks | RPages | RStream | RMethod
  | RList | RCreate | RRead | RUpdate | RDelete

type_synonym 's server_state = "(string \<times> int list) list \<times> (jwt_provider \<times> 's)"

text \<open>What a request draws from the clock and the ULID generator.\<close>

record http_env =
  he_now :: int
  he_op :: op_env
  he_auth :: auth_env

record 's router =
  ro_cors :: "string list"
  ro_jwt :: "jwt_lib option"
  ro_limit :: request_limit
  ro_duration :: "int \<Rightarrow> string"
  ro_bcrypt :: "string \<Rightarrow> string \<Rightarrow> bool"
  ro_perm :: "'s perm_engine"
  ro_reg :: "registry option"
  ro_engine :: "'s engine"
  ro_db :: "'s dal option"
  ro_pages :: "page list option"
  ro_stream :: "'s http_handler option"
  ro_rpc :: "'s rpc_registry"
  ro_match :: "(string \<times> string \<times> route) list \<Rightarrow> http_request \<Rightarrow> nat + (route \<times> (string \<times> string) list)"

definition login_enabled :: "'s router \<Rightarrow> bool" where
  "login_enabled r \<longleftrightarrow> ro_jwt r \<noteq> None \<and> ro_db r \<noteq> None \<and> ro_reg r \<noteq> None"

definition when_some :: "'a option \<Rightarrow> 'b list \<Rightarrow> 'b list" where
  "when_some x ys = (if x = None then [] else ys)"

definition document_routes :: "(string \<times> string \<times> route) list" where
  "document_routes =
     [(''GET'', ''/document/{doctype}'', RList), (''POST'', ''/document/{doctype}'', RCreate),
      (''GET'', ''/document/{doctype}/{id}'', RRead), (''PATCH'', ''/document/{doctype}/{id}'', RUpdate),
      (''PUT'', ''/document/{doctype}/{id}'', RUpdate), (''DELETE'', ''/document/{doctype}/{id}'', RDelete)]"

text \<open>The routes below \<open>/api/v1\<close>; a method \<open>*\<close> is any method.\<close>

definition routes :: "'s router \<Rightarrow> (string \<times> string \<times> route) list" where
  "routes r =
     (if login_enabled r then [(''POST'', ''/auth/login'', RLogin), (''POST'', ''/auth/refresh'', RRefresh)] else []) @
     when_some (ro_reg r) [(''GET'', ''/meta'', RMeta), (''GET'', ''/meta/{doctype}'', RMetaDoc),
       (''GET'', ''/meta/{doctype}/links'', RLinks)] @
     when_some (ro_pages r) [(''GET'', ''/meta/pages'', RPages)] @
     when_some (ro_stream r) [(''GET'', ''/agent/stream'', RStream)] @
     [(''*'', ''/method/{app}.{module}.{method}'', RMethod), (''*'', ''/method/*'', RMethod)] @
     document_routes"

definition page_val :: "page \<Rightarrow> val" where
  "page_val p =
     VMap ([(''path'', VStr (pa_path p)), (''title'', VStr (pa_title p)), (''component'', VStr (pa_component p))] @
           str_member ''icon'' (pa_icon p) @ str_member ''menu'' (pa_menu p))"

definition pages_list :: "page list \<Rightarrow> 's http_handler" where
  "pages_list ps cx rq s = (ok_response 200 (VList (map page_val ps)), s)"

text \<open>The handlers of the engines, beside the token provider.\<close>

definition on_data :: "'s http_handler \<Rightarrow> (jwt_provider \<times> 's) http_handler" where
  "on_data h cx rq = (\<lambda>(p, s). let (resp, s') = h cx rq s in (resp, (p, s')))"

definition document_handler :: "'s router \<Rightarrow> http_env \<Rightarrow> route \<Rightarrow> 's http_handler" where
  "document_handler r e rt =
     (case rt of
        RList \<Rightarrow> rest_list (ro_engine r)
      | RCreate \<Rightarrow> rest_create (ro_engine r) (he_op e)
      | RRead \<Rightarrow> rest_read (ro_engine r)
      | RUpdate \<Rightarrow> rest_update (ro_engine r) (he_op e)
      | _ \<Rightarrow> rest_delete (ro_engine r) (he_op e))"

definition not_mounted :: "'s http_handler" where
  "not_mounted cx rq s = (bare 404, s)"

definition route_handler :: "'s router \<Rightarrow> http_env \<Rightarrow> route \<Rightarrow> (jwt_provider \<times> 's) http_handler" where
  "route_handler r e rt =
     (case rt of
        RLogin \<Rightarrow> (case (ro_jwt r, ro_db r) of
            (Some L, Some D) \<Rightarrow> auth_login L (he_auth e) (ro_bcrypt r) D (login_enabled r) | _ \<Rightarrow> on_data not_mounted)
      | RRefresh \<Rightarrow> (case ro_jwt r of
            Some L \<Rightarrow> auth_refresh L (he_auth e) (login_enabled r) | None \<Rightarrow> on_data not_mounted)
      | RMeta \<Rightarrow> on_data (case ro_reg r of Some reg \<Rightarrow> meta_list reg | None \<Rightarrow> not_mounted)
      | RMetaDoc \<Rightarrow> on_data (case ro_reg r of Some reg \<Rightarrow> get_doc_meta reg (Some (ro_perm r)) | None \<Rightarrow> not_mounted)
      | RLinks \<Rightarrow> on_data (case ro_reg r of Some reg \<Rightarrow> get_links reg | None \<Rightarrow> not_mounted)
      | RPages \<Rightarrow> on_data (case ro_pages r of Some ps \<Rightarrow> pages_list ps | None \<Rightarrow> not_mounted)
      | RStream \<Rightarrow> on_data (case ro_stream r of Some h \<Rightarrow> h | None \<Rightarrow> not_mounted)
      | RMethod \<Rightarrow> on_data (rpc_dispatch (ro_rpc r) (ro_perm r))
      | _ \<Rightarrow> on_data (permission_mw (Some (ro_perm r)) (document_handler r e rt)))"

definition routed :: "'s router \<Rightarrow> http_env \<Rightarrow> (jwt_provider \<times> 's) http_handler" where
  "routed r e cx rq s =
     (case ro_match r (routes r) rq of
        Inl status \<Rightarrow> (bare status, s)
     | Inr (rt, params) \<Rightarrow> route_handler r e rt cx (rq\<lparr>rq_params := params\<rparr>) s)"

text \<open>\<open>ValidateToken\<close> of the built-in provider, in the state of the server.\<close>

definition jwt_check :: "jwt_lib \<Rightarrow> int \<Rightarrow> 's server_state token_check" where
  "jwt_check L now t = (\<lambda>(m, p, s). (map_sum id Some (validate_token L p now t), (m, p, s)))"

definition serve :: "'s router \<Rightarrow> http_env \<Rightarrow> http_request \<Rightarrow> 's server_state \<Rightarrow> http_response \<times> 's server_state" where
  "serve r e rq =
     cors (ro_cors r)
       (auth_mw (map_option (\<lambda>L. jwt_check L (he_now e)) (ro_jwt r))
         (rate_limit_mw (ro_duration r) (ro_limit r) (he_now e) (routed r e)))
       background_ctx rq"

section \<open>Who a request acts as\<close>

text \<open>The identity that the handlers see: none without credentials, else the one of a valid token.\<close>

definition request_ctx :: "'s router \<Rightarrow> int \<Rightarrow> jwt_provider \<Rightarrow> http_request \<Rightarrow> ctx option" where
  "request_ctx r now p rq =
     (case request_token rq of
        NoToken \<Rightarrow> Some background_ctx
      | BadHeader \<Rightarrow> None
      | Token t \<Rightarrow> (case ro_jwt r of
            None \<Rightarrow> None
          | Some L \<Rightarrow> (case validate_token L p now t of
              Inl _ \<Rightarrow> None | Inr i \<Rightarrow> Some (auth_new_context background_ctx i))))"

lemma serve_options:
  "rq_method rq = ''OPTIONS'' \<Longrightarrow> serve r e rq st = (with_headers (cors_headers (ro_cors r) (text_at (rq_headers rq) ''Origin'')) (bare 204), st)"
  by (simp add: serve_def cors_def Let_def)

lemma with_headers_status [simp]: "rs_status (with_headers hs x) = rs_status x"
  by (simp add: with_headers_def)

lemma serve_unauthenticated:
  assumes "rq_method rq \<noteq> ''OPTIONS''" and "request_ctx r (he_now e) p rq = None"
  shows "rs_status (fst (serve r e rq (m, p, s))) = 401 \<and> snd (serve r e rq (m, p, s)) = (m, p, s)"
  using assms
  by (auto simp: serve_def cors_def Let_def auth_mw_def request_ctx_def jwt_check_def
      split: credentials.splits option.splits sum.splits)

lemma serve_authenticated:
  assumes "rq_method rq \<noteq> ''OPTIONS''" and "request_ctx r (he_now e) p rq = Some cx"
  shows "serve r e rq (m, p, s) =
    (let (x, st) = rate_limit_mw (ro_duration r) (ro_limit r) (he_now e) (routed r e) cx rq (m, p, s)
     in (with_headers (cors_headers (ro_cors r) (text_at (rq_headers rq) ''Origin'')) x, st))"
  using assms
  by (auto simp: serve_def cors_def Let_def auth_mw_def request_ctx_def jwt_check_def
      split: credentials.splits option.splits sum.splits)

end
