(* ===== verification/HttpSafety.thy ===== *)
theory HttpSafety
  imports Router
begin

text \<open>
  What holds of every request that the router serves: who it acts as, what a document request may leave
  behind, and how often one caller is let through.
\<close>

section \<open>Handlers that only read when they fail\<close>

text \<open>A handler is guarded by a relation when every answer of error status leaves a related state.\<close>

definition fails_clean :: "('s \<Rightarrow> 's \<Rightarrow> bool) \<Rightarrow> ('s \<Rightarrow> http_response \<times> 's) \<Rightarrow> bool" where
  "fails_clean R h \<longleftrightarrow> (\<forall>s r t. h s = (r, t) \<longrightarrow> 400 \<le> rs_status r \<longrightarrow> R s t)"

lemma bad_status [simp]: "400 \<le> error_status e" "\<not> error_status e < 400"
  using error_status_range [of e] by simp_all

lemma ok_response_status [simp]: "rs_status (ok_response n v) = n"
  by (simp add: ok_response_def)

lemma fails_clean_answer:
  assumes "\<And>s e t. m s = (Inl e, t) \<Longrightarrow> R s t" and "\<And>a s. rs_status (fst (f a s)) < 400"
  shows "fails_clean R (answer m f)"
  using assms
  by (auto simp: fails_clean_def answer_def split: prod.splits sum.splits) (metis fst_conv not_less)

lemma written_record_ok: "n < 400 \<Longrightarrow> rs_status (fst (written_record en cx dt i n s)) < 400"
  by (auto simp: written_record_def split: prod.splits sum.splits)

lemma read_only_Inl: "preserves R m \<Longrightarrow> m s = (Inl e, t) \<Longrightarrow> R s t"
  by (metis preserves_def snd_conv)

lemma doc_read_reach: "services_ok en \<Longrightarrow> preserves (read_reach (en_db en)) (doc_read en cx dt i)"
  unfolding doc_read_def
  by (intro preserves_bind preserves_lift read_reach_rel require_action_reach fetch_record_reach)

lemma doc_list_reach: "services_ok en \<Longrightarrow> preserves (read_reach (en_db en)) (doc_list en cx dt lo)"
  unfolding doc_list_def Let_def
  by (intro preserves_bind preserves_lift read_reach_rel require_action_reach read_preserves)
    (simp_all add: preserves_lift preserves_ret)

lemma document_handler_clean:
  assumes "rollback_law (en_db (ro_engine r))" and "services_ok (ro_engine r)"
  shows "fails_clean (read_reach (en_db (ro_engine r))) (document_handler r e rt cx rq)"
proof -
  let ?en = "ro_engine r"
  have l: "fails_clean (read_reach (en_db ?en)) (rest_list ?en cx rq)"
    unfolding rest_list_def Let_def
    by (rule fails_clean_answer) (auto intro: read_only_Inl [OF doc_list_reach [OF assms(2)]])
  have rd: "fails_clean (read_reach (en_db ?en)) (rest_read ?en cx rq)"
    unfolding rest_read_def
    by (rule fails_clean_answer) (auto intro: read_only_Inl [OF doc_read_reach [OF assms(2)]])
  have c: "fails_clean (read_reach (en_db ?en)) (rest_create ?en (he_op e) cx rq)"
  proof -
    have "fails_clean (read_reach (en_db ?en))
        (answer (doc_create ?en (he_op e) cx dt data) (\<lambda>i. written_record ?en cx dt i 201))" for dt data
      by (rule fails_clean_answer) (erule failed_create [OF assms], simp add: written_record_ok)
    then show ?thesis
      by (auto simp: fails_clean_def rest_create_def Let_def read_refl split: option.splits)
  qed
  have u: "fails_clean (read_reach (en_db ?en)) (rest_update ?en (he_op e) cx rq)"
  proof -
    have "fails_clean (read_reach (en_db ?en))
        (answer (doc_update ?en (he_op e) cx dt i data) (\<lambda>_. written_record ?en cx dt i 200))" for dt i data
      by (rule fails_clean_answer) (erule failed_update [OF assms], simp add: written_record_ok)
    then show ?thesis
      by (auto simp: fails_clean_def rest_update_def Let_def read_refl split: option.splits)
  qed
  have d: "fails_clean (read_reach (en_db ?en)) (rest_delete ?en (he_op e) cx rq)"
    unfolding rest_delete_def Let_def
    by (rule fails_clean_answer) (erule failed_delete [OF assms], simp)
  show ?thesis by (cases rt) (simp_all add: document_handler_def l rd c u d)
qed

section \<open>The permission gate\<close>

lemma permission_mw_guards:
  assumes "preserves R (pe_check_action pe cx (text_at (rq_params rq) ''doctype'') (method_action (rq_method rq)))"
    and "transp R" and "fails_clean R (h cx rq)" and "text_at (rq_params rq) ''doctype'' \<noteq> []"
    and "permission_mw (Some pe) h cx rq s = (resp, t)"
  shows "(400 \<le> rs_status resp \<longrightarrow> R s t) \<and>
    (rs_status resp < 400 \<longrightarrow>
       fst (pe_check_action pe cx (text_at (rq_params rq) ''doctype'') (method_action (rq_method rq)) s) = Inr ())"
proof -
  obtain x s1 where c: "pe_check_action pe cx (text_at (rq_params rq) ''doctype'') (method_action (rq_method rq)) s = (x, s1)"
    by fastforce
  then have r: "R s s1" using assms(1) by (metis preserves_def snd_conv)
  show ?thesis
  proof (cases x)
    case (Inl e)
    then show ?thesis using assms(4,5) c r by (auto simp: permission_mw_def Let_def)
  next
    case (Inr u)
    then have "h cx rq s1 = (resp, t)" using assms(4,5) c by (auto simp: permission_mw_def Let_def)
    then show ?thesis using assms(2,3) r c Inr by (auto simp: fails_clean_def dest: transpD)
  qed
qed

definition document_route :: "route \<Rightarrow> bool" where
  "document_route rt \<longleftrightarrow> rt \<in> {RList, RCreate, RRead, RUpdate, RDelete}"

lemma document_route_handler:
  "document_route rt \<Longrightarrow> route_handler r e rt = on_data (permission_mw (Some (ro_perm r)) (document_handler r e rt))"
  by (auto simp: document_route_def route_handler_def)

lemma rate_limited_status [simp]: "error_status (validation_err m d) = 400"
  by simp

lemma rate_limit_mw_cases:
  assumes "rate_limit_mw dur L now next cx rq (m, s) = (resp, (m', s'))"
  shows "rs_status resp = 400 \<and> s' = s \<or> next cx rq s = (resp, s')"
  using assms by (auto simp: rate_limit_mw_def Let_def split: prod.splits if_splits)

text \<open>C20: A request on a document: an answer of error status leaves the database as reads leave it, and no
  other answer is given unless the request's identity was allowed the action of its method on that document
  type. The tokens' state is not touched.\<close>

theorem document_requests_guarded:
  assumes "engine_law E" and "D = database E drv tf c fresh"
    and "ro_engine r = site_engine E ph to_row D reg rules b vs mail ft"
    and "ro_perm r = perm_engine \<lparr>pf_reg = reg, pf_db = Some D, pf_rules = rules\<rparr>"
    and "ro_match r (routes r) rq = Inr (rt, params)" and "document_route rt"
    and "text_at params ''doctype'' \<noteq> []" and "rq_method rq \<noteq> ''OPTIONS''"
    and "serve r e rq (m, p, s) = (resp, (m', p', s'))"
  shows "p' = p \<and> (400 \<le> rs_status resp \<longrightarrow> read_reach D s s') \<and>
    (rs_status resp < 400 \<longrightarrow> (\<exists>cx. request_ctx r (he_now e) p rq = Some cx \<and>
       fst (check_action \<lparr>pf_reg = reg, pf_db = Some D, pf_rules = rules\<rparr> cx (text_at params ''doctype'')
              (method_action (rq_method rq)) s) = Inr ()))"
proof (cases "request_ctx r (he_now e) p rq")
  case None
  then show ?thesis using serve_unauthenticated [OF assms(8) None, of m s] assms(9) by (simp add: read_refl)
next
  case (Some cx)
  let ?rq = "rq\<lparr>rq_params := params\<rparr>"
  let ?h = "permission_mw (Some (ro_perm r)) (document_handler r e rt)"
  obtain x where x: "rate_limit_mw (ro_duration r) (ro_limit r) (he_now e) (routed r e) cx rq (m, p, s) = (x, (m', p', s'))"
    "rs_status resp = rs_status x"
    using serve_authenticated [OF assms(8) Some, of m s] assms(9) by (auto split: prod.splits)
  have en: "en_db (ro_engine r) = D" by (simp add: assms(3))
  from rate_limit_mw_cases [OF x(1)] show ?thesis
  proof
    assume "rs_status x = 400 \<and> (p', s') = (p, s)"
    then show ?thesis using x(2) by (simp add: read_refl)
  next
    assume "routed r e cx rq (p, s) = (x, (p', s'))"
    then have h: "?h cx ?rq s = (x, s')" "p' = p"
      by (auto simp: routed_def assms(5) document_route_handler [OF assms(6)] on_data_def split: prod.splits)
    have ok: "rollback_law (en_db (ro_engine r))" "services_ok (ro_engine r)"
      using database_rollback_law [OF assms(1)] by (simp_all add: assms(2,3) site_engine_ok)
    have "preserves (read_reach D) (pe_check_action (ro_perm r) cx (text_at (rq_params ?rq) ''doctype'') (method_action (rq_method ?rq)))"
      by (simp add: assms(4) perm_engine_def check_action_reach)
    from permission_mw_guards [OF this _ _ _ h(1)] document_handler_clean [OF ok, unfolded en] assms(7)
    show ?thesis using x(2) h(2) Some by (simp add: assms(4) perm_engine_def)
  qed
qed

definition demo_router :: "journal router" where
  "demo_router =
     \<lparr>ro_cors = [''*''], ro_jwt = Some demo_jwt, ro_limit = new_request_limit 0 0, ro_duration = itoa,
      ro_bcrypt = (\<lambda>h p. h = p),
      ro_perm = perm_engine \<lparr>pf_reg = demo_reg, pf_db = Some (demo_db exec_ok), pf_rules = []\<rparr>,
      ro_reg = Some demo_reg, ro_engine = demo_site exec_ok [], ro_db = Some (demo_db exec_ok), ro_pages = None,
      ro_stream = None, ro_rpc = [], ro_match = (\<lambda>rs rq. Inr (RCreate, [(''doctype'', ''Task'')]))\<rparr>"

definition demo_http_env :: http_env where
  "demo_http_env = \<lparr>he_now = 1, he_op = demo_env, he_auth = login_env\<rparr>"

definition create_request :: "(string \<times> string) list \<Rightarrow> http_request" where
  "create_request hs =
     \<lparr>rq_method = ''POST'', rq_headers = hs, rq_query = [], rq_params = [],
      rq_body = json_encode itoa (VMap [(''title'', VStr ''x'')]), rq_length = 13, rq_remote = ''10.0.0.1:4000'', rq_host = ''x''\<rparr>"

theorem document_requests_guarded_witness:
  "rs_status (fst (serve demo_router demo_http_env (create_request []) ([], Auth.demo_provider, empty_journal))) = 403 \<and>
   read_reach (demo_db exec_ok) empty_journal
     (snd (snd (snd (serve demo_router demo_http_env (create_request []) ([], Auth.demo_provider, empty_journal)))))"
proof -
  let ?r = "serve demo_router demo_http_env (create_request []) ([], Auth.demo_provider, empty_journal)"
  obtain resp m' p' s' where r: "?r = (resp, (m', p', s'))" by (metis surj_pair)
  have st: "rs_status (fst ?r) = 403" by code_simp
  have e: "ro_engine demo_router = demo_site exec_ok []"
    "ro_perm demo_router = perm_engine \<lparr>pf_reg = demo_reg, pf_db = Some (demo_db exec_ok), pf_rules = []\<rparr>"
    "ro_match demo_router rs rq = Inr (RCreate, [(''doctype'', ''Task'')])" for rs rq
    by (simp_all add: demo_router_def)
  have "read_reach (demo_db exec_ok) empty_journal s'"
    using document_requests_guarded [OF demo_engine_law demo_db_def e(1) [unfolded demo_site_def] e(2,3) _ _ _ r] st r
    by (simp add: document_route_def text_at_def create_request_def)
  then show ?thesis using st r by simp
qed

end
