(* ===== verification/Migrator.thy ===== *)
theory Migrator
  imports Registry Dialect Dal
begin

text \<open>
  The migrator (\<open>dal/migrator.go\<close>): the difference between the compiled registry and the live tables, the
  migration file written from it, and the runs of goose over the files of the active dialect. Goose, the
  file system and the catalog queries of the database are parameters; of Atlas the code only uses the table
  and column nodes.
\<close>

section \<open>Target schema\<close>

datatype atlas_type =
    AtlasInteger | AtlasBool | AtlasFloat | AtlasDecimal | AtlasTime | AtlasJSON | AtlasString

record atlas_column =
  ac_name :: string
  ac_type :: atlas_type
  ac_null :: bool

record atlas_table =
  at_name :: string
  at_columns :: "atlas_column list"
  at_primary_key :: "(string \<times> string) option"

fun field_to_atlas_type :: "field_type \<Rightarrow> atlas_type" where
  "field_to_atlas_type FTInt = AtlasInteger"
| "field_to_atlas_type FTInt64 = AtlasInteger"
| "field_to_atlas_type FTBool = AtlasBool"
| "field_to_atlas_type FTFloat64 = AtlasFloat"
| "field_to_atlas_type FTCurrency = AtlasDecimal"
| "field_to_atlas_type FTDate = AtlasTime"
| "field_to_atlas_type FTDateTime = AtlasTime"
| "field_to_atlas_type FTJSON = AtlasJSON"
| "field_to_atlas_type t = AtlasString"

definition table_fields :: "compiled_doc \<Rightarrow> field list" where
  "table_fields d = filter (\<lambda>f. f_type f \<noteq> FTChildTable) (d_fields d)"

definition doc_to_atlas :: "compiled_doc \<Rightarrow> atlas_table" where
  "doc_to_atlas d =
     \<lparr>at_name = d_table_name d,
      at_columns = map (\<lambda>f. \<lparr>ac_name = f_db_column f, ac_type = field_to_atlas_type (f_type f),
                            ac_null = (\<not> f_required f \<or> f_name f = ''ID'')\<rparr>) (table_fields d),
      at_primary_key = fold (\<lambda>f pk. if f_name f = ''ID'' then Some (''pk_'' @ d_table_name d, f_db_column f) else pk)
                         (table_fields d) None\<rparr>"

type_synonym target = "atlas_table list \<times> (string \<times> compiled_doc) list"

definition add_target :: "compiled_doc \<Rightarrow> target \<Rightarrow> target" where
  "add_target d = (\<lambda>(ts, m). (ts @ [doc_to_atlas d], AList.update (d_table_name d) d m))"

definition child_doc :: "compiled_child \<Rightarrow> compiled_doc" where
  "child_doc c = zero_doc\<lparr>d_table_name := cc_table_name c, d_fields := cc_fields c\<rparr>"

definition add_child_target :: "compiled_child \<Rightarrow> target \<Rightarrow> target" where
  "add_child_target c t = (if map_of (snd t) (cc_table_name c) = None then add_target (child_doc c) t else t)"

definition target_schema :: "compiled_doc list \<Rightarrow> target" where
  "target_schema docs = fold (\<lambda>d t. fold add_child_target (d_child_tables d) (add_target d t)) docs ([], [])"

section \<open>Diff\<close>

text \<open>What the migrator uses of a dialect, and an inspector of the live database.\<close>

record migration_dialect =
  md_name :: string
  md_create_table :: "compiled_doc \<Rightarrow> string"
  md_alter_table :: "table_alteration \<Rightarrow> string list"
  md_column_type :: "field \<Rightarrow> string"
  md_normalize :: "string \<Rightarrow> string"

record 's inspector =
  in_tables :: "('s, gerror, string list) step"
  in_columns :: "string \<Rightarrow> ('s, gerror, (string \<times> string) list) step"

definition added_field :: "compiled_doc \<Rightarrow> (string \<times> string) list \<Rightarrow> atlas_column \<Rightarrow> field option" where
  "added_field d cols c =
     (if map_of cols (ac_name c) = None then find (\<lambda>f. f_db_column f = ac_name c) (d_fields d) else None)"

definition altered_column ::
    "migration_dialect \<Rightarrow> compiled_doc \<Rightarrow> (string \<times> string) list \<Rightarrow> atlas_column \<Rightarrow> column_alteration option" where
  "altered_column dl d cols c =
     (case map_of cols (ac_name c) of
        None \<Rightarrow> None
      | Some live \<Rightarrow>
          (case find (\<lambda>f. f_db_column f = ac_name c \<and> f_type f \<noteq> FTChildTable) (d_fields d) of
             None \<Rightarrow> None
           | Some f \<Rightarrow>
               if md_normalize dl (md_column_type dl f) \<noteq> md_normalize dl live
               then Some \<lparr>ca_field_name = f_name f, ca_column_name = f_db_column f, ca_old_column = live,
                          ca_new_column = md_column_type dl f\<rparr>
               else None))"

definition table_diff ::
    "migration_dialect \<Rightarrow> compiled_doc \<Rightarrow> atlas_table \<Rightarrow> (string \<times> string) list \<Rightarrow> table_alteration" where
  "table_diff dl d t cols =
     \<lparr>ta_table_name = at_name t,
      ta_add_columns = List.map_filter (added_field d cols) (at_columns t),
      ta_drop_columns = filter (\<lambda>c. c \<notin> ac_name ` set (at_columns t)) (map fst cols),
      ta_alter_columns = List.map_filter (altered_column dl d cols) (at_columns t)\<rparr>"

definition changes_table :: "table_alteration \<Rightarrow> bool" where
  "changes_table a \<longleftrightarrow> ta_add_columns a \<noteq> [] \<or> ta_drop_columns a \<noteq> [] \<or> ta_alter_columns a \<noteq> []"

definition wrap_internal :: "string \<Rightarrow> ('s, gerror, 'a) step \<Rightarrow> ('s, gerror, 'a) step" where
  "wrap_internal msg m = (\<lambda>s. case m s of (Inl e, s') \<Rightarrow> (Inl (internal_err msg (Some e)), s') | (Inr a, s') \<Rightarrow> (Inr a, s'))"

definition empty_diff :: schema_diff where
  "empty_diff = \<lparr>sd_create_tables = [], sd_alter_tables = [], sd_drop_tables = []\<rparr>"

fun diff_targets ::
    "migration_dialect \<Rightarrow> 's inspector \<Rightarrow> (string \<times> compiled_doc) list \<Rightarrow> string list \<Rightarrow> atlas_table list
     \<Rightarrow> schema_diff \<Rightarrow> ('s, gerror, schema_diff) step" where
  "diff_targets dl ins docs live [] df = ret df"
| "diff_targets dl ins docs live (t # ts) df =
     (if at_name t \<notin> set live
      then diff_targets dl ins docs live ts
             (case map_of docs (at_name t) of
                Some d \<Rightarrow> df\<lparr>sd_create_tables := sd_create_tables df @ [d]\<rparr> | None \<Rightarrow> df)
      else bind_s (wrap_internal (''failed to inspect columns for table '' @ go_quote (at_name t)) (in_columns ins (at_name t)))
             (\<lambda>cols. let a = table_diff dl (case map_of docs (at_name t) of Some d \<Rightarrow> d | None \<Rightarrow> zero_doc) t cols
                     in diff_targets dl ins docs live ts
                          (if changes_table a then df\<lparr>sd_alter_tables := sd_alter_tables df @ [a]\<rparr> else df)))"

text \<open>The live tables that no document produces and that look like tables of the framework.\<close>

fun orphaned_tables :: "'s inspector \<Rightarrow> string list \<Rightarrow> string list \<Rightarrow> ('s, gerror, string list) step" where
  "orphaned_tables ins targets [] = ret []"
| "orphaned_tables ins targets (t # ts) =
     (if t \<in> set targets then orphaned_tables ins targets ts
      else bind_s (wrap_internal (''failed to inspect orphaned table '' @ go_quote t) (in_columns ins t))
             (\<lambda>cols. bind_s (orphaned_tables ins targets ts) (\<lambda>os.
                ret (if map_of cols ''id'' = None \<or> map_of cols ''deleted'' = None then os else t # os))))"

definition diff_with_inspector ::
    "migration_dialect \<Rightarrow> registry \<Rightarrow> 's inspector \<Rightarrow> ('s, gerror, schema_diff) step" where
  "diff_with_inspector dl reg ins =
     bind_s (wrap_internal ''failed to inspect existing tables'' (in_tables ins)) (\<lambda>live.
     let (ts, docs) = target_schema (registry_list reg) in
     bind_s (diff_targets dl ins docs live ts empty_diff) (\<lambda>df.
     bind_s (orphaned_tables ins (map at_name ts) live) (\<lambda>os.
     ret (df\<lparr>sd_drop_tables := sort os\<rparr>))))"

definition migrator_diff ::
    "migration_dialect \<Rightarrow> 's inspector option \<Rightarrow> 's inspector option \<Rightarrow> registry \<Rightarrow> ('s, gerror, schema_diff) step" where
  "migrator_diff dl db custom reg =
     (case custom of
        Some ins \<Rightarrow> diff_with_inspector dl reg ins
      | None \<Rightarrow>
          (case db of
             Some ins \<Rightarrow> diff_with_inspector dl reg ins
           | None \<Rightarrow> fail (internal_err ''no database connection or inspector available for Diff'' None)))"

section \<open>Inspecting a database\<close>

text \<open>Catalog columns hold text; a value of another kind is a scan error.\<close>

definition scan_text :: "sql_val \<Rightarrow> string option" where
  "scan_text v = (case v of SqlBytes s \<Rightarrow> Some s | SqlVal (VStr s) \<Rightarrow> Some s | _ \<Rightarrow> None)"

definition scan_int :: "sql_val \<Rightarrow> int option" where
  "scan_int v = (case v of SqlVal (VInt64 i) \<Rightarrow> Some i | SqlVal (VInt i) \<Rightarrow> Some i | SqlBytes s \<Rightarrow> atoi s | _ \<Rightarrow> None)"

definition scan_failed :: gerror where
  "scan_failed = StdError ''sql: Scan error'' None"

definition scan_table :: "sql_val list \<Rightarrow> gerror + string" where
  "scan_table r = (case r of [v] \<Rightarrow> (case scan_text v of Some s \<Rightarrow> Inr s | None \<Rightarrow> Inl scan_failed) | _ \<Rightarrow> Inl scan_failed)"

definition scan_column :: "sql_val list \<Rightarrow> gerror + string \<times> string" where
  "scan_column r =
     (case r of
        [n, t] \<Rightarrow> (case (scan_text n, scan_text t) of (Some a, Some b) \<Rightarrow> Inr (a, b) | _ \<Rightarrow> Inl scan_failed)
      | _ \<Rightarrow> Inl scan_failed)"

definition scan_pragma :: "sql_val list \<Rightarrow> gerror + string \<times> string" where
  "scan_pragma r =
     (case r of
        [cid, n, t, nn, df, pk] \<Rightarrow>
          (case (scan_int cid, scan_text n, scan_text t, scan_int nn, scan_int pk) of
             (Some _, Some a, Some b, Some _, Some _) \<Rightarrow> Inr (a, b) | _ \<Rightarrow> Inl scan_failed)
      | _ \<Rightarrow> Inl scan_failed)"

definition scanned :: "(sql_val list \<Rightarrow> gerror + 'a) \<Rightarrow> sql_rows \<Rightarrow> gerror + 'a list" where
  "scanned f rows = bind_r (map_r f (sr_rows rows)) (\<lambda>xs. case sr_err rows of Some e \<Rightarrow> Inl e | None \<Rightarrow> Inr xs)"

definition tables_query :: "string \<Rightarrow> string" where
  "tables_query name =
     (if name = ''sqlite''
      then ''SELECT name FROM sqlite_master WHERE type='' @ [CHR 0x27] @ ''table'' @ [CHR 0x27] @
           '' AND name NOT LIKE '' @ [CHR 0x27] @ ''sqlite_%'' @ [CHR 0x27] @ '' AND name NOT LIKE '' @ [CHR 0x27] @
           ''goose_%'' @ [CHR 0x27]
      else ''SELECT table_name FROM information_schema.tables WHERE table_schema = '' @ [CHR 0x27] @ ''public'' @ [CHR 0x27] @
           '' AND table_type = '' @ [CHR 0x27] @ ''BASE TABLE'' @ [CHR 0x27] @ '' AND table_name NOT LIKE '' @ [CHR 0x27] @
           ''goose_%'' @ [CHR 0x27])"

definition existing_tables :: "'s sql_engine \<Rightarrow> string \<Rightarrow> ('s, gerror, string list) step" where
  "existing_tables E name =
     bind_s (sql_query E (tables_query name) []) (\<lambda>rows. lift_r (map_sum id remdups (scanned scan_table rows)))"

definition columns_query :: "string \<Rightarrow> string" where
  "columns_query ws = ws @ ''SELECT column_name, data_type FROM information_schema.columns'' @ ws @
     ''WHERE table_schema = '' @ [CHR 0x27] @ ''public'' @ [CHR 0x27] @ '' AND table_name = $1''"

definition existing_columns :: "'s sql_engine \<Rightarrow> string \<Rightarrow> string \<Rightarrow> ('s, gerror, (string \<times> string) list) step" where
  "existing_columns E name t =
     bind_s (if name = ''sqlite'' then sql_query E (''PRAGMA table_info('' @ go_quote t @ '')'') []
             else sql_query E (columns_query [CHR 0x0A, CHR 0x09, CHR 0x09]) [VStr t])
       (\<lambda>rows. lift_r (map_sum id (\<lambda>cs. fold (\<lambda>(c, ty) m. AList.update c ty m) cs [])
          (scanned (if name = ''sqlite'' then scan_pragma else scan_column) rows)))"

definition db_inspector :: "'s sql_engine \<Rightarrow> string \<Rightarrow> 's inspector" where
  "db_inspector E name = \<lparr>in_tables = existing_tables E name, in_columns = existing_columns E name\<rparr>"

definition sqlite_migrations :: migration_dialect where
  "sqlite_migrations = \<lparr>md_name = ''sqlite'', md_create_table = sqlite_create_table, md_alter_table = sqlite_alter_table,
     md_column_type = sqlite_type, md_normalize = sqlite_normalize_column_type\<rparr>"

definition pg_migrations :: migration_dialect where
  "pg_migrations = \<lparr>md_name = ''postgres'', md_create_table = pg_create_table, md_alter_table = pg_alter_table,
     md_column_type = pg_type, md_normalize = pg_normalize_column_type\<rparr>"

section \<open>Writing a migration\<close>

definition drop_column_text :: "string \<Rightarrow> string \<Rightarrow> string" where
  "drop_column_text t c = ''ALTER TABLE '' @ go_quote t @ '' DROP COLUMN '' @ go_quote c @ '';''"

definition drop_table_text :: "string \<Rightarrow> string" where
  "drop_table_text t = ''DROP TABLE '' @ go_quote t @ '';''"

definition destructive_statements :: "schema_diff \<Rightarrow> string list" where
  "destructive_statements df =
     concat (map (\<lambda>a. map (drop_column_text (ta_table_name a)) (ta_drop_columns a)) (sd_alter_tables df)) @
     map drop_table_text (sd_drop_tables df)"

definition up_statements :: "migration_dialect \<Rightarrow> schema_diff \<Rightarrow> bool \<Rightarrow> string list" where
  "up_statements dl df destructive =
     concat (map (\<lambda>d. (md_create_table dl d @ '';'') #
                    map (\<lambda>c. md_create_table dl (child_doc c) @ '';'') (d_child_tables d)) (sd_create_tables df)) @
     concat (map (\<lambda>a. map (\<lambda>s. s @ '';'')
                    (filter (\<lambda>s. destructive \<or> \<not> contains_str (to_upper s) ''DROP COLUMN'') (md_alter_table dl a)))
              (sd_alter_tables df)) @
     (if destructive then map drop_table_text (sd_drop_tables df) else [])"

definition migration_text :: "string list \<Rightarrow> string" where
  "migration_text stmts =
     ''-- +goose Up'' @ nl @ join_with nl stmts @ nl @ nl @ ''-- +goose Down'' @ nl @
     ''-- down migrations are not generated; author manually if needed'' @ nl"

text \<open>A directory of the file system: which names exist, and making and writing it.\<close>

record 's file_ops =
  fo_exists :: "string \<Rightarrow> string \<Rightarrow> 's \<Rightarrow> bool"
  fo_mkdir :: "string \<Rightarrow> ('s, gerror, unit) step"
  fo_write :: "string \<Rightarrow> string \<Rightarrow> string \<Rightarrow> ('s, gerror, unit) step"

definition numbered_name :: "string \<Rightarrow> string \<Rightarrow> nat \<Rightarrow> string" where
  "numbered_name ts dialect n =
     ts @ ''_auto_'' @ (if n < 2 then [] else itoa (int n) @ ''_'') @ dialect @ ''.sql''"

partial_function (option) free_name :: "(string \<Rightarrow> bool) \<Rightarrow> (nat \<Rightarrow> string) \<Rightarrow> nat \<Rightarrow> string option" where
  "free_name taken name n = (if taken (name n) then free_name taken name (Suc n) else Some (name n))"

declare free_name.simps [code]

text \<open>\<open>ts\<close> is the UTC time stamp of the call; the outer option is whether the search for a name ends.\<close>

definition migrator_write ::
    "migration_dialect \<Rightarrow> 's file_ops \<Rightarrow> string \<Rightarrow> schema_diff option \<Rightarrow> string \<Rightarrow> bool \<Rightarrow> 's \<Rightarrow> ((gerror + string) \<times> 's) option" where
  "migrator_write dl fo ts df dir destructive s =
     (case df of
        None \<Rightarrow> Some (Inl (validation_err ''diff must not be nil'' []), s)
      | Some df \<Rightarrow>
          if destructive_statements df \<noteq> [] \<and> \<not> destructive
          then Some (Inl (validation_err (''migration contains destructive changes (dropped columns/tables). '' @
                 ''Re-run with --allow-destructive to include them. Skipped statements:'' @ nl @
                 join_with nl (destructive_statements df)) []), s)
          else (let stmts = up_statements dl df destructive in
                if stmts = [] then Some (Inr [], s)
                else Option.bind (free_name (\<lambda>n. fo_exists fo dir n s) (numbered_name ts (md_name dl)) 1) (\<lambda>name.
                  Some (bind_s (wrap_internal ''failed to create migrations directory'' (fo_mkdir fo dir)) (\<lambda>_.
                        bind_s (wrap_internal ''failed to write migration file'' (fo_write fo dir name (migration_text stmts))) (\<lambda>_.
                        ret name)) s))))"

section \<open>Running migrations\<close>

definition other_dialect :: "string \<Rightarrow> string" where
  "other_dialect active = (if active = ''postgres'' then ''sqlite'' else ''postgres'')"

text \<open>Directory entries are names with whether they are directories; a sort by name.\<close>

definition visible_entries :: "string \<Rightarrow> (string \<times> bool) list \<Rightarrow> (string \<times> bool) list" where
  "visible_entries active entries =
     sort_key fst (filter (\<lambda>(n, is_dir). is_dir \<or> \<not> has_suffix n (''_'' @ other_dialect active @ ''.sql'')) entries)"

definition goose_dialect :: "string \<Rightarrow> string" where
  "goose_dialect name = (if name = ''sqlite'' then ''sqlite3'' else name)"

record migration_status =
  ms_version :: int
  ms_name :: string
  ms_applied :: bool

text \<open>Goose: which dialects it knows, and its runs over the entries it is shown.\<close>

record 's goose =
  gs_dialect :: "string \<Rightarrow> gerror option"
  gs_up :: "(string \<times> bool) list \<Rightarrow> ('s, gerror, unit) step"
  gs_collect :: "(string \<times> bool) list \<Rightarrow> ('s, gerror, (int \<times> string) list) step"
  gs_version :: "('s, gerror, int) step"

definition migrator_up ::
    "migration_dialect \<Rightarrow> 's goose \<Rightarrow> bool \<Rightarrow> ('s \<Rightarrow> (string \<times> bool) list) \<Rightarrow> ('s, gerror, unit) step" where
  "migrator_up dl G has_db entries =
     (if \<not> has_db then fail (internal_err ''no database connection available for migration'' None)
      else case gs_dialect G (goose_dialect (md_name dl)) of
             Some e \<Rightarrow> fail (internal_err ''failed to set goose dialect'' (Some e))
           | None \<Rightarrow> (\<lambda>s. wrap_internal ''goose up failed'' (gs_up G (visible_entries (md_name dl) (entries s))) s))"

definition migrator_status ::
    "migration_dialect \<Rightarrow> 's goose \<Rightarrow> bool \<Rightarrow> ('s \<Rightarrow> (string \<times> bool) list) \<Rightarrow> ('s, gerror, migration_status list) step" where
  "migrator_status dl G has_db entries =
     (if \<not> has_db then fail (internal_err ''no database connection available for migration status'' None)
      else bind_s (\<lambda>s. wrap_internal ''failed to collect migrations'' (gs_collect G (visible_entries (md_name dl) (entries s))) s) (\<lambda>ms.
           bind_s (wrap_internal ''failed to get db version'' (gs_version G)) (\<lambda>cur.
           ret (map (\<lambda>(v, n). \<lparr>ms_version = v, ms_name = n, ms_applied = (v \<le> cur)\<rparr>) ms))))"

section \<open>File names\<close>

lemma nat_digits_inj: "nat_digits m = nat_digits n \<Longrightarrow> m = n"
  by (metis digits_value_nat_digits option.inject)

lemma numbered_name_inj:
  assumes "2 \<le> m" and "2 \<le> n" and "numbered_name ts d m = numbered_name ts d n"
  shows "m = n"
proof -
  have e: "numbered_name ts d k = (ts @ ''_auto_'') @ (nat_digits k @ (''_'' @ d @ ''.sql''))" if "2 \<le> k" for k
  proof -
    have "\<not> k < 2" "\<not> int k < 0" using that by simp_all
    then show ?thesis by (simp only: numbered_name_def itoa_def if_False nat_int append_assoc)
  qed
  have "nat_digits m @ (''_'' @ d @ ''.sql'') = nat_digits n @ (''_'' @ d @ ''.sql'')"
    using assms(3) unfolding e [OF assms(1)] e [OF assms(2)] same_append_eq .
  then have "nat_digits m = nat_digits n" by (simp only: append_same_eq)
  then show ?thesis by (rule nat_digits_inj)
qed

lemma free_name_found:
  assumes "\<not> taken (name m)" and "n \<le> m"
  shows "\<exists>k. free_name taken name n = Some (name k) \<and> \<not> taken (name k)"
  using assms
proof (induction "m - n" arbitrary: n)
  case 0
  then show ?case by (auto simp: free_name.simps [of taken name n])
next
  case (Suc d)
  then have "\<exists>k. free_name taken name (Suc n) = Some (name k) \<and> \<not> taken (name k)" by simp
  then show ?case by (auto simp: free_name.simps [of taken name n])
qed

lemma free_name_ends:
  assumes "finite {x. taken x}"
  shows "\<exists>k. free_name taken (numbered_name ts d) 1 = Some (numbered_name ts d k) \<and> \<not> taken (numbered_name ts d k)"
proof -
  have "inj_on (numbered_name ts d) {2..}" by (rule inj_onI) (auto intro: numbered_name_inj)
  then have "infinite (numbered_name ts d ` {2..})" by (simp add: finite_image_iff infinite_Ici)
  then have "\<not> numbered_name ts d ` {2..} \<subseteq> {x. taken x}" using assms finite_subset by blast
  then obtain m where "\<not> taken (numbered_name ts d m)" "2 \<le> m" by auto
  then show ?thesis using free_name_found [of taken "numbered_name ts d" m 1] by simp
qed

lemma has_suffix_append [simp]: "has_suffix (s @ p) p"
  by (simp add: has_suffix_def)

lemma numbered_name_suffix: "has_suffix (numbered_name ts d n) (''_'' @ d @ ''.sql'')"
proof -
  have "\<exists>x. numbered_name ts d n = x @ ''_'' @ d @ ''.sql''"
  proof (cases "n < 2")
    case True
    then have "numbered_name ts d n = (ts @ ''_auto'') @ ''_'' @ d @ ''.sql''" by (simp add: numbered_name_def)
    then show ?thesis by blast
  next
    case False
    then have "numbered_name ts d n = (ts @ ''_auto_'' @ itoa (int n)) @ ''_'' @ d @ ''.sql''"
      by (simp add: numbered_name_def)
    then show ?thesis by blast
  qed
  then show ?thesis by (metis has_suffix_append)
qed

lemma has_suffixE: "has_suffix s p \<Longrightarrow> \<exists>t. s = t @ p"
  by (metis has_prefixE has_suffix_def rev_append rev_rev_ident)

lemma suffix_of_dialect [simp]:
  "has_suffix (t @ ''_sqlite.sql'') ''_sqlite.sql''" "\<not> has_suffix (t @ ''_sqlite.sql'') ''_postgres.sql''"
  "has_suffix (t @ ''_postgres.sql'') ''_postgres.sql''" "\<not> has_suffix (t @ ''_postgres.sql'') ''_sqlite.sql''"
  by (simp_all add: has_suffix_def has_prefix_def)

lemma suffix_clash:
  assumes "has_suffix s (''_'' @ d @ ''.sql'')" and "d \<in> {''sqlite'', ''postgres''}" and "e \<in> {''sqlite'', ''postgres''}"
  shows "\<not> has_suffix s (''_'' @ other_dialect e @ ''.sql'') \<longleftrightarrow> e = d"
proof -
  obtain t where t: "s = t @ ''_'' @ d @ ''.sql''" using has_suffixE [OF assms(1)] by blast
  consider "d = ''sqlite''" | "d = ''postgres''" using assms(2) by blast
  then show ?thesis
  proof cases
    case 1
    then show ?thesis using assms(3) suffix_of_dialect [of t] by (elim insertE emptyE) (simp_all add: t other_dialect_def)
  next
    case 2
    then show ?thesis using assms(3) suffix_of_dialect [of t] by (elim insertE emptyE) (simp_all add: t other_dialect_def)
  qed
qed

text \<open>A statement of either dialect that drops a column is left out unless drops are allowed.\<close>

definition drops_nothing :: "schema_diff \<Rightarrow> bool" where
  "drops_nothing df \<longleftrightarrow> sd_drop_tables df = [] \<and> (\<forall>a \<in> set (sd_alter_tables df). ta_drop_columns a = [])"

lemma destructive_empty: "destructive_statements df = [] \<longleftrightarrow> drops_nothing df"
  by (auto simp: destructive_statements_def drops_nothing_def)

text \<open>C39: Write always ends. A file it reports is new in its directory and is seen by the migrator of its own
  dialect only, and unless destructive changes were allowed the difference it was written from drops nothing.\<close>

theorem write_is_safe:
  assumes "finite {n. fo_exists fo dir n s}" and "md_name dl \<in> {''sqlite'', ''postgres''}"
  shows "\<exists>r s'. migrator_write dl fo ts df dir destructive s = Some (r, s') \<and>
    (\<forall>name. r = Inr name \<longrightarrow> (destructive \<or> drops_nothing (the df)) \<and>
       (name = [] \<or> \<not> fo_exists fo dir name s \<and>
          (\<forall>active \<in> {''sqlite'', ''postgres''}.
             (name, False) \<in> set (visible_entries active [(name, False)]) \<longleftrightarrow> active = md_name dl)))"
proof (cases df)
  case None
  then show ?thesis by (simp add: migrator_write_def)
next
  case df: (Some d)
  show ?thesis
  proof (cases "(destructive_statements d \<noteq> [] \<and> \<not> destructive) \<or> up_statements dl d destructive = []")
    case True
    then show ?thesis using df by (auto simp: migrator_write_def Let_def destructive_empty)
  next
    case False
    obtain k where k: "free_name (\<lambda>n. fo_exists fo dir n s) (numbered_name ts (md_name dl)) 1 =
        Some (numbered_name ts (md_name dl) k)" "\<not> fo_exists fo dir (numbered_name ts (md_name dl) k) s"
      using free_name_ends [OF assms(1)] by blast
    let ?n = "numbered_name ts (md_name dl) k"
    let ?m = "bind_s (wrap_internal ''failed to create migrations directory'' (fo_mkdir fo dir)) (\<lambda>_.
       bind_s (wrap_internal ''failed to write migration file''
         (fo_write fo dir ?n (migration_text (up_statements dl d destructive)))) (\<lambda>_. ret ?n)) s"
    have m: "migrator_write dl fo ts df dir destructive s = Some ?m"
    proof -
      have c: "\<not> (destructive_statements d \<noteq> [] \<and> \<not> destructive)" "up_statements dl d destructive \<noteq> []"
        using False by blast+
      show ?thesis
        unfolding migrator_write_def df option.case if_not_P [OF c(1)] Let_def if_not_P [OF c(2)] k(1) Option.bind.simps
        by (rule refl)
    qed
    have n: "name = ?n" if "?m = (Inr name, s')" for name s'
      using that by (simp only: bind_s_Inr) auto
    have v: "(?n, False) \<in> set (visible_entries active [(?n, False)]) \<longleftrightarrow> active = md_name dl"
      if "active \<in> {''sqlite'', ''postgres''}" for active
      using suffix_clash [OF numbered_name_suffix assms(2) that] by (simp add: visible_entries_def)
    have d: "destructive \<or> drops_nothing (the df)" using False df by (simp add: destructive_empty) blast
    obtain r s' where rs: "?m = (r, s')" by (cases ?m)
    have "(destructive \<or> drops_nothing (the df)) \<and> (name = [] \<or> \<not> fo_exists fo dir name s \<and>
        (\<forall>active \<in> {''sqlite'', ''postgres''}.
           (name, False) \<in> set (visible_entries active [(name, False)]) \<longleftrightarrow> active = md_name dl))" if "r = Inr name" for name
      using n [of name s'] rs that d k(2) v by blast
    then show ?thesis unfolding m rs by blast
  qed
qed

definition demo_files :: "string list file_ops" where
  "demo_files = \<lparr>fo_exists = (\<lambda>dir n s. n \<in> set s), fo_mkdir = (\<lambda>dir s. (Inr (), s)),
     fo_write = (\<lambda>dir n text s. (Inr (), s @ [n]))\<rparr>"

theorem write_is_safe_witness:
  "\<exists>e s'. migrator_write sqlite_migrations demo_files ''1'' (Some (empty_diff\<lparr>sd_drop_tables := [''notes'']\<rparr>)) ''m'' False []
     = Some (Inl e, s')"
proof -
  have "finite {n. fo_exists demo_files ''m'' n []}" "md_name sqlite_migrations \<in> {''sqlite'', ''postgres''}"
    by (simp_all add: demo_files_def sqlite_migrations_def)
  from write_is_safe [OF this, of "''1''" "Some (empty_diff\<lparr>sd_drop_tables := [''notes'']\<rparr>)" False] obtain r s' where
    r: "migrator_write sqlite_migrations demo_files ''1'' (Some (empty_diff\<lparr>sd_drop_tables := [''notes'']\<rparr>)) ''m'' False [] = Some (r, s')"
    and d: "\<And>name. r = Inr name \<Longrightarrow> drops_nothing (the (Some (empty_diff\<lparr>sd_drop_tables := [''notes'']\<rparr>)))"
    by blast
  have "\<not> drops_nothing (the (Some (empty_diff\<lparr>sd_drop_tables := [''notes'']\<rparr>)))"
    by (simp add: drops_nothing_def)
  then obtain e where "r = Inl e" using d by (cases r) auto
  then show ?thesis using r by blast
qed

section \<open>Convergence\<close>

text \<open>
  A live schema as its tables and their columns, what an inspector reports of it, and what the statements
  of a difference make of it.
\<close>

type_synonym live_schema = "(string \<times> (string \<times> string) list) list"

definition live_inspector :: "live_schema inspector" where
  "live_inspector = \<lparr>in_tables = (\<lambda>s. (Inr (map fst s), s)),
     in_columns = (\<lambda>t s. (Inr (case map_of s t of Some cols \<Rightarrow> cols | None \<Rightarrow> []), s))\<rparr>"

definition live_columns :: "(field \<Rightarrow> string) \<Rightarrow> compiled_doc \<Rightarrow> (string \<times> string) list" where
  "live_columns ty d = map (\<lambda>f. (f_db_column f, ty f)) (table_fields d)"

definition apply_create :: "(field \<Rightarrow> string) \<Rightarrow> compiled_doc \<Rightarrow> live_schema \<Rightarrow> live_schema" where
  "apply_create ty d s =
     (if map_of s (d_table_name d) = None then AList.update (d_table_name d) (live_columns ty d) s else s)"

definition altered_columns :: "(field \<Rightarrow> string) \<Rightarrow> table_alteration \<Rightarrow> (string \<times> string) list \<Rightarrow> (string \<times> string) list" where
  "altered_columns ty a cols =
     fold (\<lambda>x m. AList.update (ca_column_name x) (ca_new_column x) m) (ta_alter_columns a)
       (fold (\<lambda>f m. AList.update (f_db_column f) (ty f) m) (ta_add_columns a)
          (fold AList.delete (ta_drop_columns a) cols))"

definition apply_alter :: "(field \<Rightarrow> string) \<Rightarrow> table_alteration \<Rightarrow> live_schema \<Rightarrow> live_schema" where
  "apply_alter ty a s =
     (case map_of s (ta_table_name a) of
        None \<Rightarrow> s | Some cols \<Rightarrow> AList.update (ta_table_name a) (altered_columns ty a cols) s)"

definition apply_diff :: "(field \<Rightarrow> string) \<Rightarrow> schema_diff \<Rightarrow> live_schema \<Rightarrow> live_schema" where
  "apply_diff ty df s =
     fold AList.delete (sd_drop_tables df)
       (fold (apply_alter ty) (sd_alter_tables df) (fold (apply_create ty) (sd_create_tables df) s))"

text \<open>A table agrees with its document.\<close>

definition in_step :: "migration_dialect \<Rightarrow> compiled_doc \<Rightarrow> (string \<times> string) list \<Rightarrow> bool" where
  "in_step dl d cols \<longleftrightarrow>
     (\<forall>f \<in> set (table_fields d). \<exists>ty. map_of cols (f_db_column f) = Some ty \<and>
        md_normalize dl (md_column_type dl f) = md_normalize dl ty) \<and>
     (\<forall>c. map_of cols c \<noteq> None \<longrightarrow> c \<in> f_db_column ` set (table_fields d))"

lemma find_column:
  assumes "distinct (map f_db_column (d_fields d))" and "f \<in> set (table_fields d)"
  shows "find (\<lambda>g. f_db_column g = f_db_column f) (d_fields d) = Some f"
    and "find (\<lambda>g. f_db_column g = f_db_column f \<and> f_type g \<noteq> FTChildTable) (d_fields d) = Some f"
proof -
  have f: "f \<in> set (d_fields d)" "f_type f \<noteq> FTChildTable" using assms(2) by (simp_all add: table_fields_def)
  have u: "g = f" if "g \<in> set (d_fields d)" "f_db_column g = f_db_column f" for g
    using assms(1) that f(1) by (simp add: distinct_map inj_on_def)
  have *: "find P xs = Some f" if "f \<in> set xs" "P f" "\<And>g. g \<in> set xs \<Longrightarrow> P g \<Longrightarrow> g = f" for P xs
    using that
  proof (induction xs)
    case (Cons x xs)
    show ?case
    proof (cases "P x")
      case True
      then show ?thesis using Cons.prems(3) [of x] by simp
    next
      case False
      then have "f \<in> set xs" using Cons.prems(1,2) by auto
      moreover have "g = f" if "g \<in> set xs" "P g" for g
        by (rule Cons.prems(3) [OF _ that(2)]) (simp add: that(1))
      ultimately have "find P xs = Some f" by (rule Cons.IH [OF _ Cons.prems(2)])
      with False show ?thesis by simp
    qed
  qed simp
  show "find (\<lambda>g. f_db_column g = f_db_column f) (d_fields d) = Some f"
    by (rule * [OF f(1) refl u])
  show "find (\<lambda>g. f_db_column g = f_db_column f \<and> f_type g \<noteq> FTChildTable) (d_fields d) = Some f"
    by (rule * [OF f(1)]) (auto simp: f(2) intro: u)
qed

lemma map_filter_empty: "List.map_filter f xs = [] \<longleftrightarrow> (\<forall>x \<in> set xs. f x = None)"
  by (induction xs) (auto simp: List.map_filter_simps split: option.splits)

lemma atlas_columns: "set (at_columns (doc_to_atlas d)) =
    (\<lambda>f. \<lparr>ac_name = f_db_column f, ac_type = field_to_atlas_type (f_type f), ac_null = (\<not> f_required f \<or> f_name f = ''ID'')\<rparr>)
      ` set (table_fields d)"
  by (simp add: doc_to_atlas_def)

lemma atlas_column_names: "ac_name ` set (at_columns (doc_to_atlas d)) = f_db_column ` set (table_fields d)"
  unfolding atlas_columns by (auto simp: image_image)

lemma map_of_keys: "map_of m k \<noteq> None \<longleftrightarrow> k \<in> fst ` set m"
  by (simp add: map_of_eq_None_iff)

lemma table_diff_unchanged:
  assumes "distinct (map f_db_column (d_fields d))"
  shows "\<not> changes_table (table_diff dl d (doc_to_atlas d) cols) \<longleftrightarrow> in_step dl d cols"
proof -
  let ?ok = "\<lambda>f. \<exists>ty. map_of cols (f_db_column f) = Some ty \<and> md_normalize dl (md_column_type dl f) = md_normalize dl ty"
  have col: "added_field d cols c = None \<and> altered_column dl d cols c = None \<longleftrightarrow> ?ok f"
    if "f \<in> set (table_fields d)" "ac_name c = f_db_column f" for f c
    using find_column [OF assms that(1)] that(2)
    by (cases "map_of cols (f_db_column f)") (auto simp: added_field_def altered_column_def)
  have adds: "(\<forall>c \<in> set (at_columns (doc_to_atlas d)). added_field d cols c = None \<and> altered_column dl d cols c = None)
      \<longleftrightarrow> (\<forall>f \<in> set (table_fields d). ?ok f)"
    unfolding atlas_columns using col by auto
  have drops: "filter (\<lambda>c. c \<notin> ac_name ` set (at_columns (doc_to_atlas d))) (map fst cols) = [] \<longleftrightarrow>
      (\<forall>c. map_of cols c \<noteq> None \<longrightarrow> c \<in> f_db_column ` set (table_fields d))"
    unfolding atlas_column_names map_of_keys by (auto simp: filter_empty_conv)
  show ?thesis
    unfolding changes_table_def table_diff_def in_step_def table_alteration.simps drops map_filter_empty de_Morgan_disj not_not
    using adds by blast
qed

lemma live_columns_in_step:
  assumes "distinct (map f_db_column (d_fields d))"
  shows "in_step dl d (live_columns (md_column_type dl) d)"
proof -
  have "distinct (map f_db_column (table_fields d))" using assms by (simp add: table_fields_def distinct_map_filter)
  then have "map_of (live_columns (md_column_type dl) d) (f_db_column f) = Some (md_column_type dl f)"
    if "f \<in> set (table_fields d)" for f
    using that by (intro map_of_is_SomeI) (auto simp: live_columns_def o_def)
  then show ?thesis unfolding in_step_def map_of_keys by (auto simp: live_columns_def)
qed

lemma map_of_fold_update:
  "map_of (fold (\<lambda>x m. AList.update (key x) (v x) m) xs m) k =
     (case find (\<lambda>x. key x = k) (rev xs) of Some x \<Rightarrow> Some (v x) | None \<Rightarrow> map_of m k)"
  by (induction xs rule: rev_induct) (auto simp: map_of_update)

lemma map_of_fold_drop: "map_of (fold AList.delete ks m) k = (if k \<in> set ks then None else map_of m k)"
  by (induction ks arbitrary: m) (auto simp: map_of_delete)

lemma set_map_filter: "x \<in> set (List.map_filter f xs) \<longleftrightarrow> (\<exists>y \<in> set xs. f y = Some x)"
  by (induction xs) (auto simp: List.map_filter_simps split: option.splits)

lemma find_last: "(case find P (rev xs) of Some x \<Rightarrow> Q x | None \<Rightarrow> R) \<Longrightarrow> (\<exists>x \<in> set xs. P x \<and> Q x) \<or> (\<forall>x \<in> set xs. \<not> P x) \<and> R"
  by (auto split: option.splits dest!: find_SomeD simp: find_None_iff)

lemma altered_lookup:
  assumes "map_of (altered_columns ty a cols) c = r"
  shows "(\<exists>x \<in> set (ta_alter_columns a). ca_column_name x = c \<and> r = Some (ca_new_column x)) \<or>
    (\<forall>x \<in> set (ta_alter_columns a). ca_column_name x \<noteq> c) \<and>
      ((\<exists>f \<in> set (ta_add_columns a). f_db_column f = c \<and> r = Some (ty f)) \<or>
       (\<forall>f \<in> set (ta_add_columns a). f_db_column f \<noteq> c) \<and>
         r = (if c \<in> set (ta_drop_columns a) then None else map_of cols c))"
proof -
  have "(case find (\<lambda>x. ca_column_name x = c) (rev (ta_alter_columns a)) of
      Some x \<Rightarrow> r = Some (ca_new_column x)
    | None \<Rightarrow> (case find (\<lambda>f. f_db_column f = c) (rev (ta_add_columns a)) of
        Some f \<Rightarrow> r = Some (ty f) | None \<Rightarrow> r = (if c \<in> set (ta_drop_columns a) then None else map_of cols c)))"
    using assms by (auto simp: altered_columns_def map_of_fold_update map_of_fold_drop split: option.splits)
  from find_last [OF this] show ?thesis
  proof (elim disjE conjE)
    assume n: "\<forall>x\<in>set (ta_alter_columns a). ca_column_name x \<noteq> c"
      and "case find (\<lambda>f. f_db_column f = c) (rev (ta_add_columns a)) of
        Some f \<Rightarrow> r = Some (ty f) | None \<Rightarrow> r = (if c \<in> set (ta_drop_columns a) then None else map_of cols c)"
    from find_last [OF this(2)] n show ?thesis by blast
  qed (rule disjI1)
qed

lemma altered_in_step:
  assumes "distinct (map f_db_column (d_fields d))"
  shows "in_step dl d (altered_columns (md_column_type dl) (table_diff dl d (doc_to_atlas d) cols) cols)"
proof -
  let ?a = "table_diff dl d (doc_to_atlas d) cols" and ?T = "f_db_column ` set (table_fields d)"
  let ?col = "\<lambda>f. \<lparr>ac_name = f_db_column f, ac_type = field_to_atlas_type (f_type f), ac_null = (\<not> f_required f \<or> f_name f = ''ID'')\<rparr>"
  have adds: "f \<in> set (ta_add_columns ?a) \<longleftrightarrow> f \<in> set (table_fields d) \<and> map_of cols (f_db_column f) = None" for f
    using find_column [OF assms]
    by (auto simp: table_diff_def set_map_filter atlas_columns added_field_def split: if_splits)
  have alters: "x \<in> set (ta_alter_columns ?a) \<longleftrightarrow> (\<exists>f \<in> set (table_fields d). \<exists>ty. map_of cols (f_db_column f) = Some ty \<and>
      md_normalize dl (md_column_type dl f) \<noteq> md_normalize dl ty \<and>
      x = \<lparr>ca_field_name = f_name f, ca_column_name = f_db_column f, ca_old_column = ty, ca_new_column = md_column_type dl f\<rparr>)" for x
  proof -
    have "altered_column dl d cols (?col f) = Some x \<longleftrightarrow> (\<exists>ty. map_of cols (f_db_column f) = Some ty \<and>
        md_normalize dl (md_column_type dl f) \<noteq> md_normalize dl ty \<and>
        x = \<lparr>ca_field_name = f_name f, ca_column_name = f_db_column f, ca_old_column = ty, ca_new_column = md_column_type dl f\<rparr>)"
      if "f \<in> set (table_fields d)" for f
      using find_column(2) [OF assms that] by (auto simp: altered_column_def split: option.splits)
    then show ?thesis by (auto simp: table_diff_def set_map_filter atlas_columns)
  qed
  have drops: "c \<in> set (ta_drop_columns ?a) \<longleftrightarrow> map_of cols c \<noteq> None \<and> c \<notin> ?T" for c
    unfolding map_of_keys by (auto simp: table_diff_def atlas_column_names)
  have uniq: "g = f" if "f \<in> set (table_fields d)" "g \<in> set (table_fields d)" "f_db_column g = f_db_column f" for f g
    using assms that by (auto simp: table_fields_def distinct_map inj_on_def)
  show ?thesis
    unfolding in_step_def
  proof (intro conjI ballI allI impI)
    fix f assume f: "f \<in> set (table_fields d)"
    show "\<exists>ty. map_of (altered_columns (md_column_type dl) ?a cols) (f_db_column f) = Some ty \<and>
        md_normalize dl (md_column_type dl f) = md_normalize dl ty"
      using altered_lookup [of "md_column_type dl" ?a cols "f_db_column f", OF refl]
    proof (elim disjE conjE bexE)
      fix x assume x: "x \<in> set (ta_alter_columns ?a)" "ca_column_name x = f_db_column f"
        "map_of (altered_columns (md_column_type dl) ?a cols) (f_db_column f) = Some (ca_new_column x)"
      then obtain g where "g \<in> set (table_fields d)" "f_db_column g = f_db_column f" "ca_new_column x = md_column_type dl g"
        unfolding alters by auto
      then show ?thesis using uniq [OF f] x(3) by auto
    next
      fix g assume "g \<in> set (ta_add_columns ?a)" "f_db_column g = f_db_column f"
        "map_of (altered_columns (md_column_type dl) ?a cols) (f_db_column f) = Some (md_column_type dl g)"
      then show ?thesis using uniq [OF f, of g] by (auto simp: adds)
    next
      assume n: "\<forall>x\<in>set (ta_alter_columns ?a). ca_column_name x \<noteq> f_db_column f"
        "\<forall>g\<in>set (ta_add_columns ?a). f_db_column g \<noteq> f_db_column f"
        "map_of (altered_columns (md_column_type dl) ?a cols) (f_db_column f) =
           (if f_db_column f \<in> set (ta_drop_columns ?a) then None else map_of cols (f_db_column f))"
      obtain ty where ty: "map_of cols (f_db_column f) = Some ty" using n(2) f adds by (cases "map_of cols (f_db_column f)") auto
      have "md_normalize dl (md_column_type dl f) = md_normalize dl ty"
      proof (rule ccontr)
        assume "md_normalize dl (md_column_type dl f) \<noteq> md_normalize dl ty"
        then have "\<lparr>ca_field_name = f_name f, ca_column_name = f_db_column f, ca_old_column = ty,
            ca_new_column = md_column_type dl f\<rparr> \<in> set (ta_alter_columns ?a)"
          unfolding alters using f ty by blast
        then show False using n(1) by auto
      qed
      then show ?thesis using n(3) f ty by (simp add: drops)
    qed
  next
    fix c assume "map_of (altered_columns (md_column_type dl) ?a cols) c \<noteq> None"
    then show "c \<in> ?T"
      using altered_lookup [of "md_column_type dl" ?a cols c, OF refl]
      by (auto simp: alters adds drops split: if_splits)
  qed
qed

section \<open>The target schema\<close>

definition target_ok :: "target \<Rightarrow> bool" where
  "target_ok t \<longleftrightarrow> (distinct (map at_name (fst t)) \<longrightarrow>
     (\<forall>a \<in> set (fst t). \<exists>d. map_of (snd t) (at_name a) = Some d \<and> a = doc_to_atlas d))"

lemma at_name_doc [simp]: "at_name (doc_to_atlas d) = d_table_name d"
  by (simp add: doc_to_atlas_def)

lemma target_ok_add: "target_ok t \<Longrightarrow> target_ok (add_target d t)"
proof (cases t)
  case (Pair ts m)
  assume ok: "target_ok t"
  show ?thesis
    unfolding target_ok_def Pair add_target_def
  proof (simp, intro impI conjI ballI)
    assume d: "distinct (map at_name ts) \<and> d_table_name d \<notin> at_name ` set ts"
    show "\<exists>da. map_of (AList.update (d_table_name d) d m) (d_table_name d) = Some da \<and> doc_to_atlas d = doc_to_atlas da"
      by (simp add: map_of_update)
    fix a assume a: "a \<in> set ts"
    then have "at_name a \<noteq> d_table_name d" using d by (metis imageI)
    moreover obtain x where "map_of m (at_name a) = Some x" "a = doc_to_atlas x"
      using ok a d by (auto simp: target_ok_def Pair)
    ultimately show "\<exists>da. map_of (AList.update (d_table_name d) d m) (at_name a) = Some da \<and> a = doc_to_atlas da"
      by (intro exI [of _ x]) (simp add: map_of_update)
  qed
qed

lemma target_ok_children: "target_ok t \<Longrightarrow> target_ok (fold add_child_target cs t)"
  by (induction cs arbitrary: t) (auto simp: add_child_target_def target_ok_add)

lemma target_schema_ok: "target_ok (target_schema docs)"
proof -
  have "target_ok (fold (\<lambda>d t. fold add_child_target (d_child_tables d) (add_target d t)) docs t)" if "target_ok t" for t
    using that by (induction docs arbitrary: t) (auto simp: target_ok_add target_ok_children)
  then show ?thesis by (simp add: target_schema_def target_ok_def)
qed

section \<open>The difference as a function of the live schema\<close>

definition live_cols :: "live_schema \<Rightarrow> string \<Rightarrow> (string \<times> string) list" where
  "live_cols s t = (case map_of s t of Some cols \<Rightarrow> cols | None \<Rightarrow> [])"

definition target_doc :: "(string \<times> compiled_doc) list \<Rightarrow> atlas_table \<Rightarrow> compiled_doc" where
  "target_doc docs t = (case map_of docs (at_name t) of Some d \<Rightarrow> d | None \<Rightarrow> zero_doc)"

definition missing_docs :: "(string \<times> compiled_doc) list \<Rightarrow> live_schema \<Rightarrow> atlas_table list \<Rightarrow> compiled_doc list" where
  "missing_docs docs s ts = List.map_filter (\<lambda>t. if map_of s (at_name t) = None then map_of docs (at_name t) else None) ts"

definition changed_tables :: "migration_dialect \<Rightarrow> (string \<times> compiled_doc) list \<Rightarrow> live_schema \<Rightarrow> atlas_table list \<Rightarrow> table_alteration list" where
  "changed_tables dl docs s ts =
     filter changes_table (map (\<lambda>t. table_diff dl (target_doc docs t) t (live_cols s (at_name t)))
       (filter (\<lambda>t. map_of s (at_name t) \<noteq> None) ts))"

definition live_orphans :: "live_schema \<Rightarrow> atlas_table list \<Rightarrow> string list \<Rightarrow> string list" where
  "live_orphans s ts names = filter (\<lambda>n. n \<notin> at_name ` set ts \<and>
     map_of (live_cols s n) ''id'' \<noteq> None \<and> map_of (live_cols s n) ''deleted'' \<noteq> None) names"

lemma in_columns_live: "in_columns live_inspector t s = (Inr (live_cols s t), s)"
  by (simp add: live_inspector_def live_cols_def)

lemma diff_targets_live:
  "diff_targets dl live_inspector docs (map fst s) ts df s =
     (Inr (df\<lparr>sd_create_tables := sd_create_tables df @ missing_docs docs s ts,
              sd_alter_tables := sd_alter_tables df @ changed_tables dl docs s ts\<rparr>), s)"
proof (induction ts arbitrary: df)
  case Nil
  then show ?case by (simp add: missing_docs_def changed_tables_def List.map_filter_simps)
next
  case (Cons t ts)
  show ?case
  proof (cases "map_of s (at_name t)")
    case None
    then have "at_name t \<notin> set (map fst s)" by (simp add: map_of_eq_None_iff)
    then show ?thesis using None Cons.IH
      by (auto simp: missing_docs_def changed_tables_def List.map_filter_simps split: option.splits)
  next
    case (Some cols)
    then have "at_name t \<in> set (map fst s)" using map_of_keys [of s "at_name t"] by simp
    then show ?thesis using Some Cons.IH
      by (simp add: missing_docs_def changed_tables_def List.map_filter_simps bind_s_def wrap_internal_def
          in_columns_live target_doc_def Let_def)
  qed
qed

lemma orphaned_live: "orphaned_tables live_inspector (map at_name ts) names s = (Inr (live_orphans s ts names), s)"
  by (induction names) (auto simp: live_orphans_def bind_s_def wrap_internal_def in_columns_live)

lemma diff_live:
  assumes "target_schema (registry_list reg) = (ts, docs)"
  shows "diff_with_inspector dl reg live_inspector s =
    (Inr \<lparr>sd_create_tables = missing_docs docs s ts, sd_alter_tables = changed_tables dl docs s ts,
          sd_drop_tables = sort (live_orphans s ts (map fst s))\<rparr>, s)"
proof -
  have "in_tables live_inspector s = (Inr (map fst s), s)" by (simp add: live_inspector_def)
  then show ?thesis using assms
    by (simp add: diff_with_inspector_def bind_s_def wrap_internal_def diff_targets_live orphaned_live empty_diff_def)
qed

section \<open>After applying a difference\<close>

lemma map_of_apply_create:
  "map_of (apply_create ty d s) t =
     (if t = d_table_name d \<and> map_of s t = None then Some (live_columns ty d) else map_of s t)"
  by (auto simp: apply_create_def map_of_update)

lemma map_of_creates_old:
  "map_of s t \<noteq> None \<or> t \<notin> d_table_name ` set ds \<Longrightarrow> map_of (fold (apply_create ty) ds s) t = map_of s t"
  by (induction ds arbitrary: s) (auto simp: map_of_apply_create)

lemma map_of_creates_new:
  assumes "map_of s t = None" and "d \<in> set ds" and "d_table_name d = t"
    and "\<And>e. e \<in> set ds \<Longrightarrow> d_table_name e = t \<Longrightarrow> e = d"
  shows "map_of (fold (apply_create ty) ds s) t = Some (live_columns ty d)"
  using assms
proof (induction ds arbitrary: s)
  case (Cons e ds)
  show ?case
  proof (cases "d_table_name e = t")
    case True
    have "e = d" by (rule Cons.prems(4)) (simp_all add: True)
    moreover have "map_of (apply_create ty e s) t = Some (live_columns ty e)"
      using True Cons.prems(1) by (simp add: map_of_apply_create)
    ultimately show ?thesis by (simp add: map_of_creates_old)
  next
    case False
    then have "d \<in> set ds" using Cons.prems(2,3) by auto
    have "map_of (apply_create ty e s) t = None" using False Cons.prems(1) by (simp add: map_of_apply_create)
    then have "map_of (fold (apply_create ty) ds (apply_create ty e s)) t = Some (live_columns ty d)"
      by (rule Cons.IH [OF _ \<open>d \<in> set ds\<close> Cons.prems(3)]) (rule Cons.prems(4) [OF list.set_intros(2)])
    then show ?thesis by simp
  qed
qed simp

lemma map_of_alters:
  assumes "distinct (map ta_table_name as)" and "\<And>a. a \<in> set as \<Longrightarrow> map_of s (ta_table_name a) \<noteq> None"
  shows "map_of (fold (apply_alter ty) as s) t =
    (case find (\<lambda>a. ta_table_name a = t) as of
       Some a \<Rightarrow> map_option (altered_columns ty a) (map_of s t) | None \<Rightarrow> map_of s t)"
  using assms
proof (induction as arbitrary: s)
  case (Cons a as)
  obtain cols where cols: "map_of s (ta_table_name a) = Some cols" using Cons.prems(2) by fastforce
  have s': "map_of (apply_alter ty a s) u = (if u = ta_table_name a then Some (altered_columns ty a cols) else map_of s u)" for u
    using cols by (simp add: apply_alter_def map_of_update)
  have "map_of (fold (apply_alter ty) as (apply_alter ty a s)) t =
      (case find (\<lambda>a. ta_table_name a = t) as of
         Some b \<Rightarrow> map_option (altered_columns ty b) (map_of (apply_alter ty a s) t) | None \<Rightarrow> map_of (apply_alter ty a s) t)"
    by (rule Cons.IH) (use Cons.prems in \<open>auto simp: s'\<close>)
  moreover have "find (\<lambda>b. ta_table_name b = t) as = None" if "ta_table_name a = t"
  proof -
    have "ta_table_name b \<noteq> t" if "b \<in> set as" for b
      using imageI [OF that, of ta_table_name] Cons.prems(1) \<open>ta_table_name a = t\<close> by auto
    then show ?thesis by (auto simp: find_None_iff)
  qed
  ultimately show ?case using cols by (auto simp: s' split: option.splits)
qed simp

text \<open>A target without clashes: no two documents share a table, no document has two fields of one column.\<close>

definition clean_target :: "target \<Rightarrow> bool" where
  "clean_target t \<longleftrightarrow> target_ok t \<and> distinct (map at_name (fst t)) \<and>
     (\<forall>(n, d) \<in> set (snd t). distinct (map f_db_column (d_fields d)))"

lemma clean_doc:
  assumes "clean_target (ts, docs)" and "t \<in> set ts"
  shows "map_of docs (at_name t) = Some (target_doc docs t)" "t = doc_to_atlas (target_doc docs t)"
    "distinct (map f_db_column (d_fields (target_doc docs t)))" "d_table_name (target_doc docs t) = at_name t"
proof -
  obtain d where d: "map_of docs (at_name t) = Some d" "t = doc_to_atlas d"
    using assms by (auto simp: clean_target_def target_ok_def)
  then have e: "target_doc docs t = d" by (simp add: target_doc_def)
  show "map_of docs (at_name t) = Some (target_doc docs t)" "t = doc_to_atlas (target_doc docs t)"
    unfolding e by (rule d)+
  then show "d_table_name (target_doc docs t) = at_name t" by (metis at_name_doc)
  show "distinct (map f_db_column (d_fields (target_doc docs t)))"
    unfolding e using assms(1) map_of_SomeD [OF d(1)] by (auto simp: clean_target_def)
qed

lemma clean_name: "clean_target (ts, docs) \<Longrightarrow> t \<in> set ts \<Longrightarrow> u \<in> set ts \<Longrightarrow> at_name t = at_name u \<Longrightarrow> t = u"
  by (simp add: clean_target_def distinct_map inj_on_def)

lemma missing_docs_iff:
  assumes "clean_target (ts, docs)"
  shows "d \<in> set (missing_docs docs s ts) \<longleftrightarrow> (\<exists>t \<in> set ts. map_of s (at_name t) = None \<and> d = target_doc docs t)"
proof -
  have "(if map_of s (at_name t) = None then map_of docs (at_name t) else None) = Some d \<longleftrightarrow>
      map_of s (at_name t) = None \<and> d = target_doc docs t" if "t \<in> set ts" for t
    using clean_doc(1) [OF assms that] by auto
  then show ?thesis unfolding missing_docs_def set_map_filter by blast
qed

lemma changed_tables_iff:
  "a \<in> set (changed_tables dl docs s ts) \<longleftrightarrow> (\<exists>t \<in> set ts. map_of s (at_name t) \<noteq> None \<and>
     a = table_diff dl (target_doc docs t) t (live_cols s (at_name t)) \<and> changes_table a)"
  by (auto simp: changed_tables_def)

lemma changed_tables_distinct:
  assumes "clean_target (ts, docs)"
  shows "distinct (map ta_table_name (changed_tables dl docs s ts))"
proof -
  have "map ta_table_name (map (\<lambda>t. table_diff dl (target_doc docs t) t (live_cols s (at_name t))) xs) = map at_name xs" for xs
    by (simp add: table_diff_def o_def)
  then have "distinct (map ta_table_name (map (\<lambda>t. table_diff dl (target_doc docs t) t (live_cols s (at_name t)))
      (filter (\<lambda>t. map_of s (at_name t) \<noteq> None) ts)))"
    using assms by (simp only: clean_target_def fst_conv distinct_map_filter)
  then show ?thesis unfolding changed_tables_def by (rule distinct_map_filter)
qed

lemma changed_tables_name:
  "a \<in> set (changed_tables dl docs s ts) \<Longrightarrow> ta_table_name a \<in> at_name ` set ts \<and> map_of s (ta_table_name a) \<noteq> None"
  by (auto simp: changed_tables_iff table_diff_def)

lemma find_changed:
  assumes "clean_target (ts, docs)" and "t \<in> set ts"
  shows "find (\<lambda>a. ta_table_name a = at_name t) (changed_tables dl docs s ts) =
    (case map_of s (at_name t) of None \<Rightarrow> None
     | Some cols \<Rightarrow> let a = table_diff dl (target_doc docs t) t cols in if changes_table a then Some a else None)"
    (is "?f = _")
proof -
  let ?a = "table_diff dl (target_doc docs t) t (live_cols s (at_name t))"
  have n: "ta_table_name ?a = at_name t" by (simp add: table_diff_def)
  have found: "a = ?a \<and> changes_table ?a \<and> map_of s (at_name t) \<noteq> None"
    if "a \<in> set (changed_tables dl docs s ts)" "ta_table_name a = at_name t" for a
  proof -
    have a: "a \<in> set (changed_tables dl docs s ts)" "ta_table_name a = at_name t" by (rule that)+
    obtain u where u: "u \<in> set ts" "map_of s (at_name u) \<noteq> None"
      "a = table_diff dl (target_doc docs u) u (live_cols s (at_name u))" "changes_table a"
      using a(1) unfolding changed_tables_iff by blast
    have "at_name u = at_name t" using a(2) u(3) by (simp add: table_diff_def)
    then have "u = t" by (rule clean_name [OF assms(1) u(1) assms(2)])
    then show ?thesis using u by simp
  qed
  show ?thesis
  proof (cases ?f)
    case None
    then have "?a \<notin> set (changed_tables dl docs s ts)" using n unfolding find_None_iff by metis
    then have "map_of s (at_name t) = None \<or> \<not> changes_table ?a"
      using assms(2) unfolding changed_tables_iff by blast
    then show ?thesis using None by (auto simp: live_cols_def Let_def split: option.splits)
  next
    case (Some x)
    then have "x = ?a \<and> changes_table ?a \<and> map_of s (at_name t) \<noteq> None"
      using find_SomeD [OF Some] by (intro found) simp_all
    then show ?thesis using Some by (auto simp: live_cols_def Let_def)
  qed
qed

text \<open>The tables after the creations and alterations.\<close>

definition migrated :: "migration_dialect \<Rightarrow> (string \<times> compiled_doc) list \<Rightarrow> atlas_table list \<Rightarrow> live_schema \<Rightarrow> live_schema" where
  "migrated dl docs ts s = fold (apply_alter (md_column_type dl)) (changed_tables dl docs s ts)
     (fold (apply_create (md_column_type dl)) (missing_docs docs s ts) s)"

lemma migrated_lookup:
  assumes "clean_target (ts, docs)"
  shows "map_of (migrated dl docs ts s) n =
    (case find (\<lambda>a. ta_table_name a = n) (changed_tables dl docs s ts) of
       Some a \<Rightarrow> map_option (altered_columns (md_column_type dl) a) (map_of s n)
     | None \<Rightarrow> map_of (fold (apply_create (md_column_type dl)) (missing_docs docs s ts) s) n)"
proof -
  let ?s1 = "fold (apply_create (md_column_type dl)) (missing_docs docs s ts) s"
  have old: "map_of ?s1 (ta_table_name a) = map_of s (ta_table_name a) \<and> map_of s (ta_table_name a) \<noteq> None"
    if "a \<in> set (changed_tables dl docs s ts)" for a
    using changed_tables_name [OF that] by (simp add: map_of_creates_old)
  have "map_of (migrated dl docs ts s) n = (case find (\<lambda>a. ta_table_name a = n) (changed_tables dl docs s ts) of
       Some a \<Rightarrow> map_option (altered_columns (md_column_type dl) a) (map_of ?s1 n) | None \<Rightarrow> map_of ?s1 n)"
    unfolding migrated_def by (rule map_of_alters [OF changed_tables_distinct [OF assms]]) (simp add: old)
  moreover have "map_of ?s1 n = map_of s n" if "find (\<lambda>a. ta_table_name a = n) (changed_tables dl docs s ts) = Some a" for a
    using find_SomeD [OF that] old [of a] by simp
  ultimately show ?thesis by (auto split: option.splits)
qed

lemma migrated_other:
  assumes "clean_target (ts, docs)" and "n \<notin> at_name ` set ts"
  shows "map_of (migrated dl docs ts s) n = map_of s n"
proof -
  have "find (\<lambda>a. ta_table_name a = n) (changed_tables dl docs s ts) = None"
    unfolding find_None_iff using changed_tables_name assms(2) by metis
  moreover have "n \<notin> d_table_name ` set (missing_docs docs s ts)"
    using assms(2) clean_doc(4) [OF assms(1)] by (auto simp: missing_docs_iff [OF assms(1)])
  ultimately show ?thesis by (simp add: migrated_lookup [OF assms(1)] map_of_creates_old)
qed

lemma migrated_target:
  assumes "clean_target (ts, docs)" and "t \<in> set ts"
  shows "\<exists>cols. map_of (migrated dl docs ts s) (at_name t) = Some cols \<and> in_step dl (target_doc docs t) cols"
proof (cases "map_of s (at_name t)")
  case None
  have "map_of (fold (apply_create (md_column_type dl)) (missing_docs docs s ts) s) (at_name t) =
      Some (live_columns (md_column_type dl) (target_doc docs t))"
  proof (rule map_of_creates_new [OF None])
    show "target_doc docs t \<in> set (missing_docs docs s ts)"
      unfolding missing_docs_iff [OF assms(1)] using None assms(2) by blast
    show "d_table_name (target_doc docs t) = at_name t" by (rule clean_doc(4) [OF assms])
    fix e assume e: "e \<in> set (missing_docs docs s ts)" "d_table_name e = at_name t"
    then obtain u where u: "u \<in> set ts" "e = target_doc docs u" unfolding missing_docs_iff [OF assms(1)] by blast
    then have "at_name u = at_name t" using e(2) clean_doc(4) [OF assms(1) u(1)] by simp
    then show "e = target_doc docs t" using clean_name [OF assms(1) u(1) assms(2)] u(2) by simp
  qed
  then show ?thesis
    using None live_columns_in_step [OF clean_doc(3) [OF assms]]
    by (simp add: migrated_lookup [OF assms(1)] find_changed [OF assms])
next
  case (Some cols)
  let ?a = "table_diff dl (target_doc docs t) t cols"
  have "in_step dl (target_doc docs t) (altered_columns (md_column_type dl) ?a cols)"
    using altered_in_step [OF clean_doc(3) [OF assms], of dl cols] clean_doc(2) [OF assms] by simp
  moreover have "\<not> changes_table ?a \<longleftrightarrow> in_step dl (target_doc docs t) cols"
    using table_diff_unchanged [OF clean_doc(3) [OF assms], of dl cols] clean_doc(2) [OF assms] by simp
  ultimately show ?thesis using Some
    by (simp add: migrated_lookup [OF assms(1)] find_changed [OF assms] map_of_creates_old Let_def)
qed

lemma in_step_no_change:
  assumes "clean_target (ts, docs)" and "\<And>t. t \<in> set ts \<Longrightarrow> \<exists>cols. map_of s (at_name t) = Some cols \<and> in_step dl (target_doc docs t) cols"
  shows "missing_docs docs s ts = []" and "changed_tables dl docs s ts = []"
proof -
  show "missing_docs docs s ts = []"
    unfolding missing_docs_def map_filter_empty using assms(2) by fastforce
  have "\<not> changes_table (table_diff dl (target_doc docs t) t (live_cols s (at_name t)))" if t: "t \<in> set ts" for t
  proof -
    obtain cols where c: "map_of s (at_name t) = Some cols" "in_step dl (target_doc docs t) cols"
      using assms(2) [OF t] by blast
    have "live_cols s (at_name t) = cols" by (simp add: live_cols_def c(1))
    then show ?thesis
      using table_diff_unchanged [OF clean_doc(3) [OF assms(1) t], of dl cols] clean_doc(2) [OF assms(1) t] c(2) by simp
  qed
  then show "changed_tables dl docs s ts = []" by (auto simp: changed_tables_def filter_empty_conv)
qed

lemma orphans_gone:
  assumes "\<And>n. n \<notin> at_name ` set ts \<Longrightarrow>
      map_of s' n = (if n \<in> set (live_orphans s ts (map fst s)) then None else map_of s n)"
  shows "live_orphans s' ts names = []"
proof -
  have "map_of (live_cols s' n) ''id'' = None \<or> map_of (live_cols s' n) ''deleted'' = None" if n: "n \<notin> at_name ` set ts" for n
  proof (cases "map_of s' n")
    case None
    then have "live_cols s' n = []" by (simp add: live_cols_def)
    then show ?thesis by simp
  next
    case (Some cols)
    then have o: "n \<notin> set (live_orphans s ts (map fst s))" "map_of s n = Some cols"
      using assms [OF n] by (simp_all split: if_splits)
    then have "n \<in> set (map fst s)" using map_of_keys [of s n] by simp
    moreover have "live_cols s' n = live_cols s n" using Some o(2) by (simp add: live_cols_def)
    ultimately show ?thesis using o(1) n by (simp add: live_orphans_def)
  qed
  then show ?thesis unfolding live_orphans_def filter_empty_conv by metis
qed


definition demo_notes :: compiled_doc where
  "demo_notes = zero_doc\<lparr>d_name := ''Note'', d_table_name := ''notes'',
     d_fields := [zero_field\<lparr>f_name := ''ID'', f_db_column := ''id'', f_required := True\<rparr>,
                  zero_field\<lparr>f_name := ''Size'', f_db_column := ''size'', f_type := FTInt\<rparr>]\<rparr>"

definition demo_notes_reg :: registry where
  "demo_notes_reg = new_registry\<lparr>rg_docs := [(''Note'', demo_notes)], rg_compiled := True\<rparr>"

definition demo_old_tables :: live_schema where
  "demo_old_tables =
     [(''notes'', [(''id'', ''INTEGER''), (''body'', ''TEXT'')]), (''memos'', [(''id'', ''TEXT''), (''deleted'', ''INTEGER'')])]"


end
