(* ===== verification/Core.thy ===== *)
theory Core
  imports Database EventBus
begin

text \<open>
  The core application (\<open>orjanda-core\<close>): the identity and permission documents with their field access,
  the password hook and the bootstrap of the first administrator. bcrypt, the clock, the ULIDs and the
  random source are parameters; a \<open>schema.Link\<close> value is the string it holds.
\<close>

section \<open>Documents\<close>

record user_doc =
  ud_base :: base_document
  ud_email :: string
  ud_full_name :: string
  ud_password :: string
  ud_active :: bool

definition user_get :: "user_doc \<Rightarrow> string \<Rightarrow> val" where
  "user_get u fld =
     (if fld = ''Email'' then VStr (ud_email u) else if fld = ''FullName'' then VStr (ud_full_name u)
      else if fld = ''Password'' then VStr (ud_password u) else if fld = ''Active'' then VBool (ud_active u)
      else base_get (ud_base u) fld)"

text \<open>A field of the document takes a value of its type; anything else goes to the base document.\<close>

definition in_base :: "('b \<Rightarrow> 'd) \<Rightarrow> gerror + 'b \<Rightarrow> gerror + 'd" where
  "in_base f r = bind_r r (\<lambda>b. Inr (f b))"

definition user_set :: "user_doc \<Rightarrow> string \<Rightarrow> val \<Rightarrow> gerror + user_doc" where
  "user_set u fld v =
     (case v of
        VStr x \<Rightarrow>
          if fld = ''Email'' then Inr (u\<lparr>ud_email := x\<rparr>) else if fld = ''FullName'' then Inr (u\<lparr>ud_full_name := x\<rparr>)
          else if fld = ''Password'' then Inr (u\<lparr>ud_password := x\<rparr>)
          else in_base (\<lambda>b. u\<lparr>ud_base := b\<rparr>) (base_set (ud_base u) fld v)
      | VBool x \<Rightarrow>
          if fld = ''Active'' then Inr (u\<lparr>ud_active := x\<rparr>)
          else in_base (\<lambda>b. u\<lparr>ud_base := b\<rparr>) (base_set (ud_base u) fld v)
      | _ \<Rightarrow> in_base (\<lambda>b. u\<lparr>ud_base := b\<rparr>) (base_set (ud_base u) fld v))"

record user_role =
  ur_base :: base_child
  ur_role :: string

definition user_role_get :: "user_role \<Rightarrow> string \<Rightarrow> val" where
  "user_role_get u fld = (if fld = ''Role'' then VStr (ur_role u) else child_get (ur_base u) fld)"

definition user_role_set :: "user_role \<Rightarrow> string \<Rightarrow> val \<Rightarrow> gerror + user_role" where
  "user_role_set u fld v =
     (case (fld = ''Role'', v) of
        (True, VStr x) \<Rightarrow> Inr (u\<lparr>ur_role := x\<rparr>)
      | _ \<Rightarrow> in_base (\<lambda>b. u\<lparr>ur_base := b\<rparr>) (child_set (ur_base u) fld v))"

record role_doc =
  ro_base :: base_document
  ro_name :: string

definition role_get :: "role_doc \<Rightarrow> string \<Rightarrow> val" where
  "role_get r fld = (if fld = ''RoleName'' then VStr (ro_name r) else base_get (ro_base r) fld)"

definition role_set :: "role_doc \<Rightarrow> string \<Rightarrow> val \<Rightarrow> gerror + role_doc" where
  "role_set r fld v =
     (case (fld = ''RoleName'', v) of
        (True, VStr x) \<Rightarrow> Inr (r\<lparr>ro_name := x\<rparr>)
      | _ \<Rightarrow> in_base (\<lambda>b. r\<lparr>ro_base := b\<rparr>) (base_set (ro_base r) fld v))"

record role_permission =
  rp_base :: base_document
  rp_role :: string
  rp_doc_type :: string
  rp_read :: bool
  rp_write :: bool
  rp_create :: bool
  rp_delete :: bool
  rp_submit :: bool

definition grant_get :: "role_permission \<Rightarrow> string \<Rightarrow> val" where
  "grant_get p fld =
     (if fld = ''Role'' then VStr (rp_role p) else if fld = ''DocType'' then VStr (rp_doc_type p)
      else if fld = ''Read'' then VBool (rp_read p) else if fld = ''Write'' then VBool (rp_write p)
      else if fld = ''Create'' then VBool (rp_create p) else if fld = ''Delete'' then VBool (rp_delete p)
      else if fld = ''Submit'' then VBool (rp_submit p) else base_get (rp_base p) fld)"

definition grant_set :: "role_permission \<Rightarrow> string \<Rightarrow> val \<Rightarrow> gerror + role_permission" where
  "grant_set p fld v =
     (let other = in_base (\<lambda>b. p\<lparr>rp_base := b\<rparr>) (base_set (rp_base p) fld v) in
      case v of
        VStr x \<Rightarrow>
          if fld = ''Role'' then Inr (p\<lparr>rp_role := x\<rparr>) else if fld = ''DocType'' then Inr (p\<lparr>rp_doc_type := x\<rparr>)
          else other
      | VBool x \<Rightarrow>
          if fld = ''Read'' then Inr (p\<lparr>rp_read := x\<rparr>) else if fld = ''Write'' then Inr (p\<lparr>rp_write := x\<rparr>)
          else if fld = ''Create'' then Inr (p\<lparr>rp_create := x\<rparr>) else if fld = ''Delete'' then Inr (p\<lparr>rp_delete := x\<rparr>)
          else if fld = ''Submit'' then Inr (p\<lparr>rp_submit := x\<rparr>) else other
      | _ \<Rightarrow> other)"

section \<open>The password hook\<close>

definition is_bcrypt_hash :: "string \<Rightarrow> bool" where
  "is_bcrypt_hash s \<longleftrightarrow> has_prefix s ''$2a$'' \<or> has_prefix s ''$2b$'' \<or> has_prefix s ''$2y$''"

definition password_hook :: "(string \<Rightarrow> gerror + string) \<Rightarrow> handler" where
  "password_hook hash cx doc =
     (case map_of doc ''password'' of
        Some (VStr raw) \<Rightarrow>
          if raw = [] \<or> is_bcrypt_hash raw then (doc, None)
          else (case hash raw of
                  Inl e \<Rightarrow> (doc, Some e)
                | Inr h \<Rightarrow> (AList.update ''password'' (VStr h) doc, None))
      | _ \<Rightarrow> (doc, None))"

definition register_user_hooks :: "(string \<Rightarrow> gerror + string) \<Rightarrow> bus \<Rightarrow> bus" where
  "register_user_hooks hash b = bus_on ''User'' ev_before_save (password_hook hash) b"

text \<open>After the hook a present password is empty, has the form of a hash, or is the hash of what was given;
  a text that merely starts like a hash is stored as it is.\<close>

lemma password_hook_hashes:
  "password_hook hash cx doc = (doc', None) \<Longrightarrow> map_of doc ''password'' = Some (VStr raw) \<Longrightarrow>
   map_of doc' ''password'' =
     Some (VStr (if raw = [] \<or> is_bcrypt_hash raw then raw else projr (hash raw)))"
  by (auto simp: password_hook_def map_of_update split: if_splits sum.splits)

lemma password_hook_idempotent:
  assumes "\<And>x h. hash x = Inr h \<Longrightarrow> is_bcrypt_hash h" and "password_hook hash cx doc = (doc', None)"
  shows "password_hook hash cx doc' = (doc', None)"
  using assms(2)
  by (auto simp: password_hook_def map_of_update dest: assms(1) split: if_splits sum.splits option.splits val.splits)

section \<open>Bootstrap\<close>

definition admin_role :: string where "admin_role = ''System Administrator''"
definition admin_email :: string where "admin_email = ''admin@localhost''"

definition already_bootstrapped :: gerror where
  "already_bootstrapped = StdError ''system already bootstrapped'' None"

text \<open>The ULIDs of one bootstrap: the role's, one for each document, the user's and the user role's.\<close>

record boot_env =
  be_now :: int
  be_role :: string
  be_grant :: "string \<Rightarrow> string"
  be_user :: string
  be_user_role :: string

definition stamped :: "boot_env \<Rightarrow> row \<Rightarrow> row" where
  "stamped b r = r @ [(''created_at'', VTime (be_now b)), (''updated_at'', VTime (be_now b)), (''deleted'', VBool False)]"

definition role_row :: "boot_env \<Rightarrow> row" where
  "role_row b = stamped b [(''id'', VStr (be_role b)), (''role_name'', VStr admin_role), (''name'', VStr admin_role)]"

definition grant_row :: "boot_env \<Rightarrow> string \<Rightarrow> row" where
  "grant_row b dt = stamped b
     [(''id'', VStr (be_grant b dt)), (''role'', VStr admin_role), (''doc_type'', VStr dt),
      (''read'', VBool True), (''write'', VBool True), (''create'', VBool True), (''delete'', VBool True),
      (''submit'', VBool True)]"

definition admin_row :: "boot_env \<Rightarrow> string \<Rightarrow> row" where
  "admin_row b hashed = stamped b
     [(''id'', VStr (be_user b)), (''email'', VStr admin_email), (''full_name'', VStr ''System Administrator''),
      (''password'', VStr hashed), (''active'', VBool True)]"

definition admin_role_row :: "boot_env \<Rightarrow> row" where
  "admin_role_row b =
     [(''id'', VStr (be_user_role b)), (''parent_id'', VStr (be_user b)), (''idx'', VInt 0), (''role'', VStr admin_role)]"

definition role_query :: select where
  "role_query = zero_select\<lparr>s_doc_type := ''Role'', s_filters := [(''role_name'', VStr admin_role)], s_limit := 1\<rparr>"

definition grant_query :: "string \<Rightarrow> select" where
  "grant_query dt = zero_select\<lparr>s_doc_type := ''RolePermission'',
     s_filters := [(''role'', VStr admin_role), (''doc_type'', VStr dt)], s_limit := 1\<rparr>"

text \<open>Inserts a row unless the query finds one.\<close>

definition ensure_row :: "'s dal \<Rightarrow> select \<Rightarrow> string \<Rightarrow> row \<Rightarrow> ('s, gerror, unit) step" where
  "ensure_row D q dt r =
     bind_s (tx_query D q) (\<lambda>found. if found = [] then bind_s (tx_insert D dt r) (\<lambda>_. ret ()) else ret ())"

fun grant_all :: "'s dal \<Rightarrow> boot_env \<Rightarrow> compiled_doc list \<Rightarrow> ('s, gerror, unit) step" where
  "grant_all D b [] = ret ()"
| "grant_all D b (d # ds) =
     bind_s (ensure_row D (grant_query (d_name d)) ''RolePermission'' (grant_row b (d_name d))) (\<lambda>_. grant_all D b ds)"

definition bootstrap_body :: "'s dal \<Rightarrow> registry \<Rightarrow> boot_env \<Rightarrow> string \<Rightarrow> ('s, gerror, unit) step" where
  "bootstrap_body D reg b hashed =
     bind_s (tx_query D (zero_select\<lparr>s_doc_type := ''User'', s_limit := 1\<rparr>)) (\<lambda>users.
     if users \<noteq> [] then fail already_bootstrapped
     else bind_s (ensure_row D role_query ''Role'' (role_row b)) (\<lambda>_.
          bind_s (grant_all D b (registry_list reg)) (\<lambda>_.
          bind_s (tx_insert D ''User'' (admin_row b hashed)) (\<lambda>_.
          bind_s (tx_insert D ''UserRole'' (admin_role_row b)) (\<lambda>_. ret ())))))"

text \<open>
  \<open>Bootstrap\<close>; the password and its hash are results of the random source and of bcrypt, \<open>unique\<close>
  recognises the unique-constraint errors of the drivers. The result is the password, empty when there was
  nothing to do.
\<close>

definition bootstrap ::
    "'s dal \<Rightarrow> registry \<Rightarrow> boot_env \<Rightarrow> (gerror \<Rightarrow> bool) \<Rightarrow> gerror + string \<Rightarrow> (string \<Rightarrow> gerror + string)
     \<Rightarrow> ('s, gerror, string) step" where
  "bootstrap D reg b unique password hash =
     bind_s (lift_r password) (\<lambda>pw.
     bind_s (lift_r (hash pw)) (\<lambda>hashed. (\<lambda>s.
       case transaction D (bootstrap_body D reg b hashed) s of
         (Inr _, s') \<Rightarrow> (Inr pw, s')
       | (Inl e, s') \<Rightarrow>
           if e = already_bootstrapped \<or> unique e then (Inr [], s')
           else (Inl (internal_err ''bootstrap failed'' (Some e)), s'))))"

text \<open>\<open>generateRandomPassword\<close>: each index is drawn below the length of the alphabet, or the source fails.\<close>

definition password_chars :: string where
  "password_chars = ''abcdefghijklmnopqrstuvwxyzABCDEFGHIJKLMNOPQRSTUVWXYZ0123456789!@#$%^&*''"

definition random_password :: "nat option list \<Rightarrow> gerror + string" where
  "random_password draws =
     map_r (\<lambda>d. case d of Some n \<Rightarrow> Inr (password_chars ! n)
                       | None \<Rightarrow> Inl (internal_err ''failed to generate random password'' None)) draws"


section \<open>What a bootstrap writes\<close>

text \<open>The insertions that lead from one state of a transaction to another, reads aside.\<close>

inductive tx_writes :: "'s dal \<Rightarrow> (string \<times> row) list \<Rightarrow> 's \<Rightarrow> 's \<Rightarrow> bool" for D where
  writes_none: "tx_writes D [] s s"
| writes_query: "tx_writes D ws s t \<Longrightarrow> tx_writes D ws s (snd (tx_query D q t))"
| writes_insert: "tx_writes D ws s t \<Longrightarrow> tx_insert D dt r t = (Inr i, u) \<Longrightarrow> tx_writes D (ws @ [(dt, r)]) s u"

inductive_cases tx_writes_none: "tx_writes D ws s t"

text \<open>Whether a query of the transaction has found a row.\<close>

definition tx_found :: "'s dal \<Rightarrow> select \<Rightarrow> bool" where
  "tx_found D q \<longleftrightarrow> (\<exists>u rows. fst (tx_query D q u) = Inr rows \<and> rows \<noteq> [])"

lemma ensure_row_writes:
  assumes "tx_writes D ws s t" and "ensure_row D q dt r t = (Inr x, u)"
  shows "\<exists>new. tx_writes D (ws @ new) s u \<and> (new = [(dt, r)] \<or> new = [] \<and> tx_found D q)"
proof -
  obtain rows t' where q: "tx_query D q t = (Inr rows, t')"
    and w: "(if rows = [] then bind_s (tx_insert D dt r) (\<lambda>_. ret ()) else ret ()) t' = (Inr x, u)"
    using assms(2) by (auto simp: ensure_row_def bind_s_Inr)
  have t': "tx_writes D ws s t'" using writes_query [OF assms(1), of q] q by simp
  show ?thesis
  proof (cases "rows = []")
    case True
    then obtain i where "tx_insert D dt r t' = (Inr i, u)" using w by (auto simp: bind_s_Inr)
    then show ?thesis using writes_insert [OF t'] by blast
  next
    case False
    then have "u = t'" "tx_found D q" using w q by (auto simp: tx_found_def) (metis fst_conv)
    then show ?thesis using t' by (metis append_Nil2)
  qed
qed

lemma grant_all_writes:
  assumes "tx_writes D ws s t" and "grant_all D b ds t = (Inr x, u)"
  shows "\<exists>gs. tx_writes D (ws @ map (\<lambda>d. (''RolePermission'', grant_row b (d_name d))) gs) s u \<and> set gs \<subseteq> set ds \<and>
    (\<forall>d \<in> set ds. d \<in> set gs \<or> tx_found D (grant_query (d_name d)))"
  using assms
proof (induction ds arbitrary: ws t)
  case (Cons d ds)
  obtain t' y where e: "ensure_row D (grant_query (d_name d)) ''RolePermission'' (grant_row b (d_name d)) t = (Inr y, t')"
    and g: "grant_all D b ds t' = (Inr x, u)"
    using Cons.prems(2) by (auto simp: bind_s_Inr)
  obtain new where n: "tx_writes D (ws @ new) s t'" "new = [(''RolePermission'', grant_row b (d_name d))] \<or>
      new = [] \<and> tx_found D (grant_query (d_name d))"
    using ensure_row_writes [OF Cons.prems(1) e] by blast
  obtain gs where gs: "tx_writes D ((ws @ new) @ map (\<lambda>d. (''RolePermission'', grant_row b (d_name d))) gs) s u"
    "set gs \<subseteq> set ds" "\<forall>d \<in> set ds. d \<in> set gs \<or> tx_found D (grant_query (d_name d))"
    using Cons.IH [OF n(1) g] by blast
  from n(2) show ?case
  proof
    assume "new = [(''RolePermission'', grant_row b (d_name d))]"
    then show ?thesis using gs by (intro exI [of _ "d # gs"]) auto
  next
    assume "new = [] \<and> tx_found D (grant_query (d_name d))"
    then show ?thesis using gs by (intro exI [of _ gs]) auto
  qed
qed (auto intro!: exI [of _ "[]"])

definition bootstrap_rows :: "boot_env \<Rightarrow> string \<Rightarrow> bool \<Rightarrow> compiled_doc list \<Rightarrow> (string \<times> row) list" where
  "bootstrap_rows b hashed new_role gs =
     (if new_role then [(''Role'', role_row b)] else []) @
     map (\<lambda>d. (''RolePermission'', grant_row b (d_name d))) gs @
     [(''User'', admin_row b hashed), (''UserRole'', admin_role_row b)]"

lemma bootstrap_body_writes:
  assumes "bootstrap_body D reg b hashed s = (Inr x, t)"
  shows "\<exists>new_role gs. tx_writes D (bootstrap_rows b hashed new_role gs) s t \<and>
    (new_role \<or> tx_found D role_query) \<and> set gs \<subseteq> set (registry_list reg) \<and>
    (\<forall>d \<in> set (registry_list reg). d \<in> set gs \<or> tx_found D (grant_query (d_name d)))"
proof -
  let ?q = "zero_select\<lparr>s_doc_type := ''User'', s_limit := 1\<rparr>"
  obtain s1 s2 s3 s4 y z i j where q: "tx_query D ?q s = (Inr [], s1)"
    and r: "ensure_row D role_query ''Role'' (role_row b) s1 = (Inr y, s2)"
    and g: "grant_all D b (registry_list reg) s2 = (Inr z, s3)"
    and u: "tx_insert D ''User'' (admin_row b hashed) s3 = (Inr i, s4)"
    and v: "tx_insert D ''UserRole'' (admin_role_row b) s4 = (Inr j, t)"
    using assms by (auto simp: bootstrap_body_def bind_s_Inr split: if_splits)
  have "tx_writes D [] s s1" using writes_query [OF writes_none [of D s], of ?q] q by simp
  from ensure_row_writes [OF this r] obtain new where n: "tx_writes D new s s2"
    "new = [(''Role'', role_row b)] \<or> new = [] \<and> tx_found D role_query" by auto
  from grant_all_writes [OF n(1) g] obtain gs where
    gs: "tx_writes D (new @ map (\<lambda>d. (''RolePermission'', grant_row b (d_name d))) gs) s s3"
      "set gs \<subseteq> set (registry_list reg)"
      "\<forall>d \<in> set (registry_list reg). d \<in> set gs \<or> tx_found D (grant_query (d_name d))" by blast
  from writes_insert [OF writes_insert [OF gs(1) u] v] n(2) gs(2,3) show ?thesis
    by (intro exI [of _ "new \<noteq> []"] exI [of _ gs]) (auto simp: bootstrap_rows_def)
qed

lemma preserves_ensure_row: "preserves (tx_reach D) (ensure_row D q dt r)"
  unfolding ensure_row_def
  by (rule preserves_bind) (auto simp del: ret_apply intro!: preserves_bind preserves_ret)

lemma preserves_grant_all: "preserves (tx_reach D) (grant_all D b ds)"
proof (induction ds)
  case Nil
  show ?case by (simp add: preserves_def tx_refl)
qed (auto intro!: preserves_bind preserves_ensure_row)

lemma preserves_bootstrap_body: "preserves (tx_reach D) (bootstrap_body D reg b hashed)"
  unfolding bootstrap_body_def
  by (auto simp del: ret_apply
      intro!: preserves_bind preserves_ret preserves_fail preserves_ensure_row preserves_grant_all)

text \<open>C36: Bootstrap is all or nothing: either it reports the password whose hash one committed transaction
  stored, together with the administrator, the role and a grant for every document type that had none, or
  the database is as it was. A second administrator is never made: with a user present nothing is written.\<close>

theorem bootstrap_all_or_nothing:
  assumes "rollback_law D" and "bootstrap D reg b unique (Inr pw) hash s = (r, t)" and "pw \<noteq> []"
  shows "if r = Inr pw
    then \<exists>hashed s1 s2 new_role gs. hash pw = Inr hashed \<and> dal_begin D s = (Inr (), s1) \<and>
      tx_writes D (bootstrap_rows b hashed new_role gs) s1 s2 \<and> dal_commit D s2 = (Inr (), t) \<and>
      (new_role \<or> tx_found D role_query) \<and> set gs \<subseteq> set (registry_list reg) \<and>
      (\<forall>d \<in> set (registry_list reg). d \<in> set gs \<or> tx_found D (grant_query (d_name d)))
    else t = s"
proof (cases "hash pw")
  case (Inl e)
  then show ?thesis using assms(2) by (auto simp: bootstrap_def bind_s_def)
next
  case (Inr hashed)
  obtain x u where tr: "transaction D (bootstrap_body D reg b hashed) s = (x, u)" by fastforce
  show ?thesis
  proof (cases x)
    case (Inl e)
    then have "u = s" using transaction_error [OF assms(1) preserves_bootstrap_body] tr by blast
    then show ?thesis using assms(2,3) Inr tr Inl by (auto simp: bootstrap_def bind_s_def split: if_splits)
  next
    case (Inr y)
    then obtain s1 s2 where "dal_begin D s = (Inr (), s1)" "bootstrap_body D reg b hashed s1 = (Inr y, s2)"
      "dal_commit D s2 = (Inr (), u)" using tr by (auto simp: transaction_Inr)
    moreover have "r = Inr pw" "t = u" using assms(2) \<open>hash pw = Inr hashed\<close> tr Inr by (auto simp: bootstrap_def bind_s_def)
    ultimately show ?thesis using bootstrap_body_writes \<open>hash pw = Inr hashed\<close> by (smt (verit, best))
  qed
qed

definition core_answers :: answers where
  "core_answers log q args = Inr \<lparr>sr_cols = [], sr_rows = [], sr_err = None\<rparr>"

definition core_conf :: db_conf where
  "core_conf = fold (\<lambda>(dt, tn). register_table dt tn)
     [(''User'', ''users''), (''Role'', ''roles''), (''RolePermission'', ''role_permissions''), (''UserRole'', ''user_roles'')]
     empty_conf"

definition core_db :: "journal dal" where
  "core_db = database (journal_engine core_answers (\<lambda>q a. Inr 1)) pg_driver itoa core_conf (\<lambda>r. ''n1'')"

definition core_reg :: registry where
  "core_reg = new_registry\<lparr>rg_docs := [(''User'', zero_doc\<lparr>d_name := ''User''\<rparr>)], rg_compiled := True\<rparr>"

definition demo_boot :: boot_env where
  "demo_boot = \<lparr>be_now = 7, be_role = ''r1'', be_grant = (\<lambda>dt. ''g'' @ dt), be_user = ''u1'', be_user_role = ''x1''\<rparr>"

theorem bootstrap_all_or_nothing_witness:
  "\<exists>hashed s1 s2 new_role gs. tx_writes core_db (bootstrap_rows demo_boot hashed new_role gs) s1 s2 \<and>
     hashed = ''$2a$pw'' \<and>
     length (jr_log (snd (bootstrap core_db core_reg demo_boot (\<lambda>e. False) (Inr ''pw'') (\<lambda>p. Inr (''$2a$'' @ p))
       empty_journal))) = 4"
proof -
  let ?r = "bootstrap core_db core_reg demo_boot (\<lambda>e. False) (Inr ''pw'') (\<lambda>p. Inr (''$2a$'' @ p)) empty_journal"
  have l: "rollback_law core_db" unfolding core_db_def by (rule database_rollback_law [OF journal_engine_law])
  have "fst ?r = Inr ''pw''" by code_simp
  then have "?r = (Inr ''pw'', snd ?r)" by (simp add: prod_eq_iff)
  from bootstrap_all_or_nothing [OF l this] obtain hashed s1 s2 new_role gs where
    "tx_writes core_db (bootstrap_rows demo_boot hashed new_role gs) s1 s2" "hashed = ''$2a$pw''" by auto
  moreover have "length (jr_log (snd ?r)) = 4" by code_simp
  ultimately show ?thesis by blast
qed

end
