(* ===== verification/AgentSocket.thy ===== *)
theory AgentSocket
  imports Http AgentEvents
begin

text \<open>
  The agent chat socket (\<open>api/agent.go\<close>): the origin check of the upgrade, the messages of a client, the
  bounded queue of turns and the approval gateway. Two goroutines share a connection, the reader
  and the worker that runs the turns, so the connection is a transition system whose events are the
  steps of either; an operation that holds the gateway's lock is one step unless it blocks on a channel
  while it holds it. What a turn does between its approval requests is not constrained: it may ask, or
  end, at any time. The texts of \<open>ctx.Err()\<close>, of the timeout and of a failed turn are arguments of the
  events that carry them.
\<close>

section \<open>The origin of an upgrade\<close>

text \<open>\<open>url_host\<close> is \<open>url.Parse\<close> followed by \<open>Host\<close>; \<open>host\<close> is the host the request was sent to.\<close>

definition authorize_origin :: "(string \<Rightarrow> string option) \<Rightarrow> string \<Rightarrow> string list \<Rightarrow> string \<Rightarrow> bool" where
  "authorize_origin url_host host allowed origin \<longleftrightarrow>
     origin = [] \<or>
     (case url_host origin of Some h \<Rightarrow> equal_fold h host | None \<Rightarrow> False) \<or>
     list_ex (\<lambda>o1. o1 = ''*'' \<or> equal_fold o1 origin) allowed"

text \<open>
  The socket and the HTTP interface have one origin policy: an origin is let through exactly
  when it is absent, the host of the request itself, or one that the CORS middleware answers with its own name.
\<close>

theorem origin_policy_agrees:
  "authorize_origin url_host host allowed origin \<longleftrightarrow>
     origin = [] \<or> (\<exists>h. url_host origin = Some h \<and> equal_fold h host) \<or>
     cors_origin allowed origin = [(''Access-Control-Allow-Origin'', origin)]"
  by (cases allowed) (auto simp: authorize_origin_def cors_origin_def split: option.splits)

section \<open>Messages of a client\<close>

record client_message =
  wm_type :: string
  wm_text :: string
  wm_action_id :: string
  wm_approved :: bool
  wm_payload :: "row option"

definition message_of_row :: "row \<Rightarrow> client_message option" where
  "message_of_row m =
     (case (member_as want_str [] ''type'' m, member_as want_str [] ''text'' m, member_as want_str [] ''action_id'' m,
            member_as want_bool False ''approved'' m, member_as (map_option Some \<circ> want_row) None ''payload'' m) of
        (Some ty, Some tx, Some aid, Some ok, Some pl) \<Rightarrow>
          Some \<lparr>wm_type = ty, wm_text = tx, wm_action_id = aid, wm_approved = ok, wm_payload = pl\<rparr>
      | _ \<Rightarrow> None)"

definition client_message :: "string \<Rightarrow> client_message option" where
  "client_message raw =
     (case json_decode raw of Some (VMap m) \<Rightarrow> message_of_row m | Some VNil \<Rightarrow> message_of_row [] | _ \<Rightarrow> None)"

definition message_response :: "client_message \<Rightarrow> approval_response" where
  "message_response m =
     \<lparr>ar_action_id = wm_action_id m, ar_approved = wm_approved m, ar_payload = wm_payload m\<rparr>"

section \<open>The connection\<close>

definition max_queued_turns :: nat where
  "max_queued_turns = 16"

definition max_early_responses :: nat where
  "max_early_responses = 16"

text \<open>\<open>defaultApprovalTimeout\<close>, in nanoseconds, and the timeout of a handler.\<close>

definition default_approval_timeout :: int where
  "default_approval_timeout = 5 * 60 * 1000000000"

definition approval_timeout :: "int \<Rightarrow> int" where
  "approval_timeout t = (if t \<le> 0 then default_approval_timeout else t)"

text \<open>
  The reader is in \<open>c.Read\<close>, is blocked in \<open>submit\<close> on the send to a full channel (and holds the
  lock), or has returned. The worker waits for a turn, runs one, waits for the answer to a request on
  the request's channel, is about to remove the request again, or has returned.
\<close>

datatype reader = Reading | Sending nat approval_response | ReaderDone

datatype worker =
    Waiting
  | Running
  | Asking string nat
  | Removing string "string + approval_response"
  | WorkerDone

text \<open>
  \<open>sk_pending\<close> and \<open>sk_early\<close> are the gateway's maps; \<open>sk_channels\<close> holds what is in each channel, which
  has room for one response. \<open>sk_answers\<close> and \<open>sk_outcomes\<close> record the responses the client has
  submitted and what each request for approval has returned.
\<close>

record socket =
  sk_pending :: "(string \<times> nat) list"
  sk_early :: "(string \<times> approval_response) list"
  sk_channels :: "approval_response option list"
  sk_reader :: reader
  sk_worker :: worker
  sk_queue :: "string list"
  sk_sent :: "event list"
  sk_closed :: bool
  sk_answers :: "approval_response list"
  sk_outcomes :: "(string \<times> (string + approval_response)) list"

definition opened :: socket where
  "opened =
     \<lparr>sk_pending = [], sk_early = [], sk_channels = [], sk_reader = Reading, sk_worker = Waiting,
      sk_queue = [], sk_sent = [], sk_closed = False, sk_answers = [], sk_outcomes = []\<rparr>"

text \<open>\<open>wsSink.Send\<close>: nothing is written once the connection's context is cancelled.\<close>

definition sink_send :: "event \<Rightarrow> socket \<Rightarrow> socket" where
  "sink_send e s = (if sk_closed s then s else s\<lparr>sk_sent := sk_sent s @ [e]\<rparr>)"

definition tool_end :: "string \<Rightarrow> event" where
  "tool_end text = (plain_event ''tool_end'')\<lparr>ev_content := text\<rparr>"

text \<open>The lock is held, between two steps, only by a reader that is blocked in \<open>submit\<close>.\<close>

definition unlocked :: "socket \<Rightarrow> bool" where
  "unlocked s = (case sk_reader s of Sending _ _ \<Rightarrow> False | _ \<Rightarrow> True)"

definition submit :: "approval_response \<Rightarrow> socket \<Rightarrow> socket" where
  "submit r s =
     (let s = s\<lparr>sk_answers := sk_answers s @ [r]\<rparr> in
      case map_of (sk_pending s) (ar_action_id r) of
        Some ch \<Rightarrow>
          (case sk_channels s ! ch of
             None \<Rightarrow> s\<lparr>sk_channels := (sk_channels s)[ch := Some r]\<rparr>
           | Some _ \<Rightarrow> s\<lparr>sk_reader := Sending ch r\<rparr>)
      | None \<Rightarrow>
          if max_early_responses \<le> length (sk_early s) then s
          else s\<lparr>sk_early := AList.update (ar_action_id r) r (sk_early s)\<rparr>)"

text \<open>The start of \<open>RequestApproval\<close>: an early response is returned, otherwise the request is registered.\<close>

definition request_approval :: "string \<Rightarrow> socket \<Rightarrow> socket" where
  "request_approval aid s =
     (case map_of (sk_early s) aid of
        Some r \<Rightarrow>
          s\<lparr>sk_channels := sk_channels s @ [None], sk_early := AList.delete aid (sk_early s),
            sk_outcomes := sk_outcomes s @ [(aid, Inr r)]\<rparr>
      | None \<Rightarrow>
          s\<lparr>sk_channels := sk_channels s @ [None],
            sk_pending := AList.update aid (length (sk_channels s)) (sk_pending s),
            sk_worker := Asking aid (length (sk_channels s))\<rparr>)"

text \<open>One message of the client, read by \<open>Stream\<close>'s loop.\<close>

definition read_message :: "string \<Rightarrow> socket \<Rightarrow> socket" where
  "read_message raw s =
     (case client_message raw of
        None \<Rightarrow> s
      | Some m \<Rightarrow>
          if wm_type m = ''message'' then
            (if length (sk_queue s) < max_queued_turns then s\<lparr>sk_queue := sk_queue s @ [wm_text m]\<rparr>
             else sink_send (tool_end ''too many pending requests; try again'') s)
          else if wm_type m = ''approval_response'' then
            (if wm_action_id m = [] then s else submit (message_response m) s)
          else s)"

datatype socket_event =
    Read string
  | ReadFails
  | Sent
  | NextTurn
  | Ask string
  | TurnEnds "string option"
  | Receive
  | Cancelled string
  | TimesOut string
  | Remove
  | Stop

text \<open>
  One step, where it can be taken. The worker may pick a turn or notice that the context is done, in
  either order; a turn that ends with an error sends it.
\<close>

fun socket_step :: "socket_event \<Rightarrow> socket \<Rightarrow> socket option" where
  "socket_step (Read raw) s = (if sk_reader s = Reading then Some (read_message raw s) else None)"
| "socket_step ReadFails s =
     (if sk_reader s = Reading then Some (s\<lparr>sk_reader := ReaderDone, sk_closed := True\<rparr>) else None)"
| "socket_step Sent s =
     (case sk_reader s of
        Sending ch r \<Rightarrow>
          (case sk_channels s ! ch of
             None \<Rightarrow> Some (s\<lparr>sk_channels := (sk_channels s)[ch := Some r], sk_reader := Reading\<rparr>)
           | Some _ \<Rightarrow> None)
      | _ \<Rightarrow> None)"
| "socket_step NextTurn s =
     (case sk_queue s of
        t # ts \<Rightarrow> if sk_worker s = Waiting \<and> \<not> sk_closed s then Some (s\<lparr>sk_queue := ts, sk_worker := Running\<rparr>) else None
      | [] \<Rightarrow> None)"
| "socket_step (Ask aid) s =
     (if sk_worker s = Running \<and> unlocked s then Some (request_approval aid s) else None)"
| "socket_step (TurnEnds err) s =
     (if sk_worker s = Running
      then Some ((case err of None \<Rightarrow> s | Some e \<Rightarrow> sink_send (tool_end (''error: '' @ e)) s)\<lparr>sk_worker := Waiting\<rparr>)
      else None)"
| "socket_step Receive s =
     (case sk_worker s of
        Asking aid ch \<Rightarrow>
          (case sk_channels s ! ch of
             Some r \<Rightarrow> Some (s\<lparr>sk_channels := (sk_channels s)[ch := None], sk_worker := Removing aid (Inr r)\<rparr>)
           | None \<Rightarrow> None)
      | _ \<Rightarrow> None)"
| "socket_step (Cancelled e) s =
     (case sk_worker s of
        Asking aid ch \<Rightarrow> if sk_closed s then Some (s\<lparr>sk_worker := Removing aid (Inl e)\<rparr>) else None
      | _ \<Rightarrow> None)"
| "socket_step (TimesOut after) s =
     (case sk_worker s of
        Asking aid ch \<Rightarrow>
          Some (s\<lparr>sk_worker := Removing aid (Inl (''approval '' @ aid @ '' timed out after '' @ after))\<rparr>)
      | _ \<Rightarrow> None)"
| "socket_step Remove s =
     (case sk_worker s of
        Removing aid out \<Rightarrow>
          if unlocked s
          then Some (s\<lparr>sk_pending := AList.delete aid (sk_pending s), sk_worker := Running,
                       sk_outcomes := sk_outcomes s @ [(aid, out)]\<rparr>)
          else None
      | _ \<Rightarrow> None)"
| "socket_step Stop s =
     (if sk_worker s = Waiting \<and> sk_closed s then Some (s\<lparr>sk_worker := WorkerDone\<rparr>) else None)"

inductive socket_moves :: "socket \<Rightarrow> socket \<Rightarrow> bool" where
  move: "socket_step e s = Some t \<Longrightarrow> socket_moves s t"

inductive socket_reachable :: "socket \<Rightarrow> bool" where
  start: "socket_reachable opened"
| later: "socket_reachable s \<Longrightarrow> socket_moves s t \<Longrightarrow> socket_reachable t"

inductive_cases socket_movesE: "socket_moves s t"

fun socket_run :: "socket_event list \<Rightarrow> socket \<Rightarrow> socket option" where
  "socket_run [] s = Some s"
| "socket_run (e # es) s = Option.bind (socket_step e s) (socket_run es)"

section \<open>What holds of a connection\<close>

text \<open>
  At most the request the worker waits for is registered; whatever is buffered, in flight or returned for
  an action is an answer that the client has given to that action; the reader is blocked only after
  two answers to the same action.
\<close>

definition answer_to :: "approval_response list \<Rightarrow> string \<Rightarrow> approval_response \<Rightarrow> bool" where
  "answer_to rs aid r \<longleftrightarrow> ar_action_id r = aid \<and> r \<in> set rs"

definition outcome_ok :: "approval_response list \<Rightarrow> string \<times> (string + approval_response) \<Rightarrow> bool" where
  "outcome_ok rs x = (case x of (aid, Inr r) \<Rightarrow> answer_to rs aid r | (aid, Inl e) \<Rightarrow> True)"

definition worker_ok :: "socket \<Rightarrow> bool" where
  "worker_ok s =
     (case sk_worker s of
        Asking aid ch \<Rightarrow> sk_pending s = [(aid, ch)]
      | Removing aid out \<Rightarrow> map fst (sk_pending s) = [aid] \<and> outcome_ok (sk_answers s) (aid, out)
      | _ \<Rightarrow> sk_pending s = [])"

definition channels_ok :: "socket \<Rightarrow> bool" where
  "channels_ok s \<longleftrightarrow>
     (\<forall>(aid, ch) \<in> set (sk_pending s).
        ch < length (sk_channels s) \<and> (\<forall>r. sk_channels s ! ch = Some r \<longrightarrow> answer_to (sk_answers s) aid r))"

definition single_answers :: "approval_response list \<Rightarrow> bool" where
  "single_answers rs \<longleftrightarrow> distinct (map ar_action_id rs)"

definition reader_ok :: "socket \<Rightarrow> bool" where
  "reader_ok s =
     (case sk_reader s of
        Sending ch r \<Rightarrow>
          (\<exists>aid. sk_pending s = [(aid, ch)] \<and> answer_to (sk_answers s) aid r) \<and> \<not> single_answers (sk_answers s)
      | _ \<Rightarrow> True)"

definition early_ok :: "socket \<Rightarrow> bool" where
  "early_ok s \<longleftrightarrow>
     length (sk_early s) \<le> max_early_responses \<and> (\<forall>(aid, r) \<in> set (sk_early s). answer_to (sk_answers s) aid r)"

definition closing_ok :: "socket \<Rightarrow> bool" where
  "closing_ok s \<longleftrightarrow> sk_closed s = (sk_reader s = ReaderDone)"

lemmas socket_parts =
  worker_ok_def channels_ok_def reader_ok_def early_ok_def closing_ok_def answer_to_def outcome_ok_def

definition socket_ok :: "socket \<Rightarrow> bool" where
  "socket_ok s \<longleftrightarrow>
     worker_ok s \<and> channels_ok s \<and> reader_ok s \<and> early_ok s \<and> closing_ok s \<and>
     (\<forall>x \<in> set (sk_outcomes s). outcome_ok (sk_answers s) x) \<and> length (sk_queue s) \<le> max_queued_turns"

lemma opened_ok: "socket_ok opened"
  by (simp add: socket_ok_def socket_parts opened_def)

lemma sink_send_ok [simp]: "socket_ok (sink_send e s) = socket_ok s"
  by (simp add: sink_send_def socket_ok_def socket_parts single_answers_def split: worker.splits reader.splits sum.splits)

lemma length_update_le: "length (AList.update k v m) \<le> Suc (length m)"
  by (induction m) auto

text \<open>Recording one more answer keeps everything that was known.\<close>

lemma answered_ok:
  assumes "socket_ok s" "sk_reader s = Reading"
  shows "socket_ok (s\<lparr>sk_answers := sk_answers s @ [r]\<rparr>)"
  using assms by (auto simp: socket_ok_def socket_parts split: worker.splits sum.splits)

lemma submit_ok:
  assumes ok: "socket_ok s" and rd: "sk_reader s = Reading"
  shows "socket_ok (submit r s)"
proof -
  let ?s = "s\<lparr>sk_answers := sk_answers s @ [r]\<rparr>"
  have a: "socket_ok ?s" using answered_ok [OF ok rd] .
  show ?thesis
  proof (cases "map_of (sk_pending s) (ar_action_id r)")
    case None
    have "length (AList.update (ar_action_id r) r (sk_early s)) \<le> max_early_responses"
      if "length (sk_early s) < max_early_responses"
      using length_update_le [of "ar_action_id r" r "sk_early s"] that by simp
    moreover have "\<forall>(aid, x) \<in> set (AList.update (ar_action_id r) r (sk_early s)). answer_to (sk_answers ?s) aid x"
      using set_update_subset [of "ar_action_id r" r "sk_early s"] a
      by (fastforce simp: socket_ok_def early_ok_def answer_to_def)
    ultimately show ?thesis
      using None a rd
      by (auto simp: submit_def Let_def socket_ok_def socket_parts split: worker.splits sum.splits)
  next
    case (Some ch)
    then have p: "sk_pending s = [(ar_action_id r, ch)]"
      using ok by (auto simp: socket_ok_def worker_ok_def split: worker.splits if_splits)
    show ?thesis
    proof (cases "sk_channels s ! ch")
      case None
      then show ?thesis
        using Some a p rd
        by (auto simp: submit_def Let_def socket_ok_def socket_parts nth_list_update split: worker.splits sum.splits)
    next
      case (Some x)
      then have "ar_action_id x = ar_action_id r" "x \<in> set (sk_answers s)"
        using ok p by (auto simp: socket_ok_def channels_ok_def answer_to_def)
      then have "\<not> single_answers (sk_answers ?s)"
        by (auto simp: single_answers_def image_iff intro!: bexI [of _ x])
      then show ?thesis
        using Some \<open>map_of (sk_pending s) (ar_action_id r) = Some ch\<close> a p rd
        by (auto simp: submit_def Let_def socket_ok_def socket_parts single_answers_def split: worker.splits sum.splits)
    qed
  qed
qed

lemma read_message_ok:
  assumes "socket_ok s" "sk_reader s = Reading"
  shows "socket_ok (read_message raw s)"
proof -
  have "socket_ok (s\<lparr>sk_queue := sk_queue s @ [t]\<rparr>)" if "length (sk_queue s) < max_queued_turns" for t
    using assms that by (auto simp: socket_ok_def socket_parts split: worker.splits sum.splits)
  with assms show ?thesis
    by (auto simp: read_message_def submit_ok split: option.splits)
qed

lemma in_delete: "x \<in> set (AList.delete k m) \<Longrightarrow> x \<in> set m"
  by (simp add: AList.delete_eq)

lemma request_approval_ok:
  assumes "socket_ok s" "sk_worker s = Running" "unlocked s"
  shows "socket_ok (request_approval aid s)"
  using assms
  by (auto simp: request_approval_def socket_ok_def socket_parts unlocked_def nth_append
    dest: map_of_SomeD in_delete intro: order.trans [OF length_delete_le]
    split: option.splits reader.splits)

text \<open>The steps of the reader, then those of the worker.\<close>

lemma reader_step_ok:
  assumes "socket_ok s" and "socket_step e s = Some t" and "e \<in> {ReadFails, Sent} \<union> range Read"
  shows "socket_ok t"
proof -
  consider raw where "e = Read raw" | "e = ReadFails" | "e = Sent" using assms(3) by auto
  then show ?thesis
  proof cases
    case 1
    with assms show ?thesis by (auto simp: read_message_ok split: if_splits)
  next
    case 2
    then have "sk_reader s = Reading" "t = s\<lparr>sk_reader := ReaderDone, sk_closed := True\<rparr>"
      using assms(2) by (simp_all split: if_splits)
    with assms(1) show ?thesis by (simp add: socket_ok_def socket_parts split: worker.splits)
  next
    case 3
    then obtain ch r where "sk_reader s = Sending ch r" "sk_channels s ! ch = None"
      "t = s\<lparr>sk_channels := (sk_channels s)[ch := Some r], sk_reader := Reading\<rparr>"
      using assms(2) by (auto split: reader.splits option.splits)
    with assms(1) show ?thesis
      by (auto simp: socket_ok_def socket_parts split: worker.splits sum.splits)
  qed
qed

lemma receive_ok:
  assumes "socket_ok s" "sk_worker s = Asking aid ch" "sk_channels s ! ch = Some r"
  shows "socket_ok (s\<lparr>sk_channels := (sk_channels s)[ch := None], sk_worker := Removing aid (Inr r)\<rparr>)"
  using assms by (auto simp: socket_ok_def socket_parts nth_list_update split: reader.splits)

lemma removal_ok:
  assumes "socket_ok s" "sk_worker s = Removing aid out" "unlocked s"
  shows "socket_ok (s\<lparr>sk_pending := AList.delete aid (sk_pending s), sk_worker := Running,
                       sk_outcomes := sk_outcomes s @ [(aid, out)]\<rparr>)"
proof -
  obtain ch where "sk_pending s = [(aid, ch)]"
    using assms(1,2) by (auto simp: socket_ok_def worker_ok_def)
  with assms show ?thesis
    by (auto simp: socket_ok_def socket_parts unlocked_def split: reader.splits)
qed

lemma gives_up_ok:
  assumes "socket_ok s" "sk_worker s = Asking aid ch"
  shows "socket_ok (s\<lparr>sk_worker := Removing aid (Inl e)\<rparr>)"
  using assms by (auto simp: socket_ok_def socket_parts split: reader.splits)

lemma turn_ok:
  assumes "socket_ok s" "sk_worker s \<in> {Waiting, Running}" "w \<in> {Waiting, Running, WorkerDone}"
    "length q \<le> max_queued_turns"
  shows "socket_ok (s\<lparr>sk_queue := q, sk_worker := w\<rparr>)"
  using assms by (auto simp: socket_ok_def socket_parts split: reader.splits)

lemma queue_ok: "socket_ok s \<Longrightarrow> length (sk_queue s) \<le> max_queued_turns"
  by (simp add: socket_ok_def)

lemma worker_turn_ok:
  assumes "socket_ok s" "sk_worker s \<in> {Waiting, Running}" "w \<in> {Waiting, Running, WorkerDone}"
  shows "socket_ok (s\<lparr>sk_worker := w\<rparr>)"
  using turn_ok [OF assms queue_ok [OF assms(1)]] by simp

lemma socket_step_ok:
  assumes ok: "socket_ok s" and step: "socket_step e s = Some t"
  shows "socket_ok t"
proof (cases e)
  case NextTurn
  with step queue_ok [OF ok] show ?thesis
    by (auto split: list.splits if_splits intro!: turn_ok [OF ok])
next
  case (Ask aid)
  with ok step show ?thesis by (auto intro: request_approval_ok split: if_splits)
next
  case (TurnEnds err)
  define u where "u = (case err of None \<Rightarrow> s | Some e \<Rightarrow> sink_send (tool_end (''error: '' @ e)) s)"
  have "socket_ok u" using ok by (simp add: u_def split: option.split)
  moreover have "sk_worker u = sk_worker s" by (simp add: u_def sink_send_def split: option.split)
  ultimately show ?thesis
    using TurnEnds step by (auto simp: u_def [symmetric] split: if_splits intro: worker_turn_ok)
next
  case Receive
  with step receive_ok [OF ok] show ?thesis by (auto split: worker.splits option.splits)
next
  case (Cancelled x)
  with step gives_up_ok [OF ok] show ?thesis by (auto split: worker.splits if_splits)
next
  case (TimesOut x)
  with step gives_up_ok [OF ok] show ?thesis by (auto split: worker.splits)
next
  case Remove
  with step removal_ok [OF ok] show ?thesis by (auto split: worker.splits if_splits)
next
  case Stop
  with step show ?thesis by (auto split: if_splits intro!: worker_turn_ok [OF ok])
qed (use reader_step_ok [OF ok step] in auto)

lemma reachable_ok: "socket_reachable s \<Longrightarrow> socket_ok s"
  by (induction rule: socket_reachable.induct) (auto simp: opened_ok elim!: socket_movesE intro: socket_step_ok)

lemma run_reachable:
  "socket_run es s = Some t \<Longrightarrow> socket_reachable s \<Longrightarrow> socket_reachable t"
  by (induction es arbitrary: s) (simp, fastforce split: bind_splits intro: later move)

lemma opened_run_reachable: "socket_run es opened = Some t \<Longrightarrow> socket_reachable t"
  by (rule run_reachable [OF _ start])

section \<open>Properties\<close>

text \<open>C22: 
  Whatever a client sends, and however reader and worker are interleaved: the buffer of early
  responses and the queue of turns stay within 16, and every response that a request for approval returns
  is one the client has given, to the very action it was asked about.
\<close>

theorem answers_match_requests:
  assumes "socket_reachable s"
  shows "length (sk_early s) \<le> 16 \<and> length (sk_queue s) \<le> 16 \<and>
    list_all (\<lambda>(aid, out). case out of Inl e \<Rightarrow> True | Inr r \<Rightarrow> ar_action_id r = aid \<and> r \<in> set (sk_answers s))
      (sk_outcomes s)"
proof -
  have ok: "socket_ok s" using reachable_ok [OF assms] .
  then have "\<forall>x \<in> set (sk_outcomes s). outcome_ok (sk_answers s) x" by (simp add: socket_ok_def)
  then have "list_all (\<lambda>(aid, out). case out of Inl e \<Rightarrow> True | Inr r \<Rightarrow> ar_action_id r = aid \<and> r \<in> set (sk_answers s))
      (sk_outcomes s)"
    by (fastforce simp: list_all_iff outcome_ok_def answer_to_def split: sum.splits)
  with ok show ?thesis
    by (simp add: socket_ok_def early_ok_def max_early_responses_def max_queued_turns_def)
qed

definition demo_message :: string where
  "demo_message = json_fields [(''type'', json_str ''message''), (''text'', json_str ''hi'')]"

definition demo_answer :: string where
  "demo_answer = json_fields
     [(''type'', json_str ''approval_response''), (''action_id'', json_str ''a1''), (''approved'', ''true'')]"

definition demo_events :: "socket_event list" where
  "demo_events = [Read demo_message, NextTurn, Read demo_answer, Ask ''a1'', Ask ''a2'', TimesOut ''5m0s'', Remove]"

definition demo_connection :: socket where
  "demo_connection = the (socket_run demo_events opened)"

lemma demo_connection_runs:
  "socket_run demo_events opened = Some demo_connection"
  "sk_outcomes demo_connection =
     [(''a1'', Inr \<lparr>ar_action_id = ''a1'', ar_approved = True, ar_payload = None\<rparr>),
      (''a2'', Inl ''approval a2 timed out after 5m0s'')]"
  "map ar_action_id (sk_answers demo_connection) = [''a1'']"
  by code_simp+

lemma demo_connection_reachable: "socket_reachable demo_connection"
  using demo_connection_runs(1) by (rule opened_run_reachable)

lemma answers_match_requests_witness:
  "length (sk_early demo_connection) \<le> 16 \<and> map fst (sk_outcomes demo_connection) = [''a1'', ''a2'']"
  using answers_match_requests [OF demo_connection_reachable] by (simp add: demo_connection_runs(2))

lemma worker_finishes:
  assumes "sk_reader s = ReaderDone" "sk_closed s"
  shows "\<exists>es t. socket_run es s = Some t \<and> sk_worker t = WorkerDone \<and> sk_reader t = ReaderDone"
proof (cases "sk_worker s")
  case Waiting
  with assms show ?thesis by (intro exI [of _ "[Stop]"]) simp
next
  case Running
  with assms show ?thesis by (intro exI [of _ "[TurnEnds None, Stop]"]) simp
next
  case (Asking aid ch)
  with assms show ?thesis
    by (intro exI [of _ "[Cancelled [], Remove, TurnEnds None, Stop]"]) (simp add: unlocked_def)
next
  case (Removing aid out)
  with assms show ?thesis by (intro exI [of _ "[Remove, TurnEnds None, Stop]"]) (simp add: unlocked_def)
next
  case WorkerDone
  with assms show ?thesis by (intro exI [of _ "[]"]) simp
qed



definition repeated_answers :: "socket_event list" where
  "repeated_answers =
     [Read demo_message, NextTurn, Ask ''a1'', Read demo_answer, Receive, Read demo_answer, Read demo_answer]"

lemma no_step:
  assumes "sk_reader s = Sending ch r" "sk_channels s ! ch = Some x" "sk_worker s = Removing aid out"
  shows "socket_step e s = None"
  using assms by (cases e) (simp_all add: unlocked_def split: list.split)

text \<open>C24: 
  Three answers to one action, as a client that repeats its response sends them, can stop a connection
  for good: once the worker has taken the first, the reader fills the channel with the second and
  blocks on the third with the lock held, which the worker needs to remove its request. No step is
  possible any more; neither the timeout nor the loss of the connection is noticed.
\<close>

theorem repeated_answers_deadlock:
  "\<exists>s. socket_run repeated_answers opened = Some s \<and> (\<forall>e. socket_step e s = None) \<and>
     sk_worker s \<noteq> WorkerDone \<and> sk_reader s \<noteq> ReaderDone"
proof -
  let ?r = "\<lparr>ar_action_id = ''a1'', ar_approved = True, ar_payload = None\<rparr>"
  have "map_option (\<lambda>s. (sk_reader s, sk_channels s, sk_worker s)) (socket_run repeated_answers opened) =
      Some (Sending 0 ?r, [Some ?r], Removing ''a1'' (Inr ?r))"
    by code_simp
  then obtain s where "socket_run repeated_answers opened = Some s" "sk_reader s = Sending 0 ?r"
    "sk_channels s = [Some ?r]" "sk_worker s = Removing ''a1'' (Inr ?r)"
    by auto
  then show ?thesis using no_step [of s 0 ?r ?r] by auto
qed

end
