(* ===== verification/LlmHttp.thy ===== *)
theory LlmHttp
  imports Gateway Json
begin

text \<open>
  What the provider adapters share (\<open>agent/llm/http.go\<close>): a JSON request to an endpoint, the opening of a
  stream and its events. The HTTP client of the standard library is a parameter; it answers with an
  error, or with a status, the body that could be read and the error that ended it early. \<open>jm\<close> is the
  decoder's own message for a body. Logging and cancellation of the context are not modelled.
\<close>

section \<open>Endpoints\<close>

record wire_response =
  wr_status :: int
  wr_body :: string
  wr_error :: "string option"

text \<open>Method, URL, headers and body of a request.\<close>

type_synonym 's transport =
  "string \<Rightarrow> string \<Rightarrow> (string \<times> string) list \<Rightarrow> string \<Rightarrow> ('s, string, wire_response) step"

record provider_options =
  po_key :: string
  po_model :: string
  po_base_url :: string
  po_max_tokens :: int
  po_auth :: string
  po_tools :: "bool option"
  po_structured :: "bool option"

definition bool_or :: "bool option \<Rightarrow> bool \<Rightarrow> bool" where
  "bool_or p def = (case p of None \<Rightarrow> def | Some b \<Rightarrow> b)"

definition trim_slash :: "string \<Rightarrow> string" where
  "trim_slash s = (if has_suffix s ''/'' then butlast s else s)"

definition json_header :: "(string \<times> string) list" where
  "json_header = [(''Content-Type'', ''application/json'')]"

definition success_status :: "int \<Rightarrow> bool" where
  "success_status n \<longleftrightarrow> \<not> (n < 200 \<or> 300 \<le> n)"

definition status_error :: "wire_response \<Rightarrow> llm_error" where
  "status_error r = HTTPStatusError (wr_status r) (trim_space (take 4096 (wr_body r)))"

text \<open>The decoded body; \<open>dec\<close> reads the struct the caller wants from a JSON value.\<close>

definition decode_body :: "(string \<Rightarrow> string) \<Rightarrow> (val \<Rightarrow> 'r option) \<Rightarrow> wire_response \<Rightarrow> llm_error + 'r" where
  "decode_body jm dec r =
     (case read_body (wr_body r) of
        BodyValue v \<Rightarrow> (case dec v of Some x \<Rightarrow> Inr x | None \<Rightarrow> Inl (LlmStdError (jm (wr_body r)) None))
      | _ \<Rightarrow> Inl (LlmStdError (case wr_error r of Some e \<Rightarrow> e | None \<Rightarrow> jm (wr_body r)) None))"

definition do_json ::
    "'s transport \<Rightarrow> (string \<Rightarrow> string) \<Rightarrow> string \<Rightarrow> (string \<times> string) list \<Rightarrow> string \<Rightarrow> (val \<Rightarrow> 'r option)
     \<Rightarrow> ('s, llm_error, 'r) step" where
  "do_json tr jm url headers payload dec = (\<lambda>s.
     case tr ''POST'' url (headers @ json_header) payload s of
       (Inl e, t) \<Rightarrow> (Inl (LlmStdError e None), t)
     | (Inr r, t) \<Rightarrow> (if success_status (wr_status r) then decode_body jm dec r else Inl (status_error r), t))"

definition open_stream ::
    "'s transport \<Rightarrow> string \<Rightarrow> (string \<times> string) list \<Rightarrow> string \<Rightarrow> ('s, llm_error, wire_response) step" where
  "open_stream tr url headers payload = (\<lambda>s.
     case tr ''POST'' url (headers @ json_header) payload s of
       (Inl e, t) \<Rightarrow> (Inl (LlmStdError e None), t)
     | (Inr r, t) \<Rightarrow> (if success_status (wr_status r) then Inr r else Inl (status_error r), t))"

section \<open>Streams\<close>

text \<open>
  \<open>bufio.Scanner\<close>: lines without their end, a trailing carriage return dropped; the last line may lack
  an end. A line that does not fit in the buffer ends the scan with an error.
\<close>

definition scan_limit :: nat where
  "scan_limit = 4 * 1024 * 1024"

definition drop_cr :: "string \<Rightarrow> string" where
  "drop_cr l = (if l \<noteq> [] \<and> last l = char_of (13 :: nat) then butlast l else l)"

definition body_lines :: "string \<Rightarrow> string list" where
  "body_lines s =
     (let ls = split_on (char_of (10 :: nat)) s in if last ls = [] then butlast ls else ls)"

text \<open>What is to be done with a line: skip it, stop, or handle its data.\<close>

datatype stream_line = SkipLine | StopLine | DataLine string

definition read_line :: "string \<Rightarrow> stream_line" where
  "read_line l =
     (if \<not> has_prefix l ''data:'' then SkipLine
      else let data = trim_space (trim_prefix l ''data:'') in
        if data = '''' then SkipLine else if data = ''[DONE]'' then StopLine else DataLine data)"

text \<open>\<open>on_event\<close> updates what has been collected so far, or fails; what was collected before is kept.\<close>

fun run_lines :: "('c \<Rightarrow> string \<Rightarrow> llm_error + 'c) \<Rightarrow> llm_error option \<Rightarrow> string list \<Rightarrow> 'c \<Rightarrow> 'c \<times> llm_error option" where
  "run_lines on_event end_error [] c = (c, end_error)"
| "run_lines on_event end_error (l # ls) c =
     (if scan_limit \<le> length l then (c, Some (LlmStdError ''bufio.Scanner: token too long'' None))
      else case read_line (drop_cr l) of
        SkipLine \<Rightarrow> run_lines on_event end_error ls c
      | StopLine \<Rightarrow> (c, None)
      | DataLine d \<Rightarrow>
          (case on_event c d of Inl e \<Rightarrow> (c, Some e) | Inr c' \<Rightarrow> run_lines on_event end_error ls c'))"

definition stream_events :: "('c \<Rightarrow> string \<Rightarrow> llm_error + 'c) \<Rightarrow> wire_response \<Rightarrow> 'c \<Rightarrow> 'c \<times> llm_error option" where
  "stream_events on_event r c =
     run_lines on_event (map_option (\<lambda>e. LlmStdError e None) (wr_error r)) (body_lines (wr_body r)) c"

text \<open>\<open>orjerrors.Internal\<close> over an error of this layer.\<close>

definition llm_internal :: "string \<Rightarrow> llm_error option \<Rightarrow> llm_error" where
  "llm_internal msg cause = LlmOrjError CodeInternal msg [] cause"

section \<open>Struct members that are left out when empty\<close>

definition opt_str :: "string \<Rightarrow> string \<Rightarrow> (string \<times> string) list" where
  "opt_str k v = (if v = [] then [] else [(k, json_str v)])"

definition opt_row :: "(int \<Rightarrow> string) \<Rightarrow> string \<Rightarrow> row \<Rightarrow> (string \<times> string) list" where
  "opt_row jt k m = (if m = [] then [] else [(k, json_encode jt (VMap m))])"

definition json_array :: "string list \<Rightarrow> string" where
  "json_array xs = ''['' @ join_with '','' xs @ '']''"

definition opt_array :: "string \<Rightarrow> string list \<Rightarrow> (string \<times> string) list" where
  "opt_array k xs = (if xs = [] then [] else [(k, json_array xs)])"

definition json_bool :: "bool \<Rightarrow> string" where
  "json_bool b = (if b then ''true'' else ''false'')"

section \<open>Failures of an endpoint\<close>

lemma do_json_cases:
  assumes "do_json tr jm url headers payload dec s = (out, t)"
  obtains (lost) e where "tr ''POST'' url (headers @ json_header) payload s = (Inl e, t)" "out = Inl (LlmStdError e None)"
    | (refused) r where "tr ''POST'' url (headers @ json_header) payload s = (Inr r, t)"
        "\<not> success_status (wr_status r)" "out = Inl (status_error r)"
    | (answered) r where "tr ''POST'' url (headers @ json_header) payload s = (Inr r, t)"
        "success_status (wr_status r)" "out = decode_body jm dec r"
  using assms by (auto simp: do_json_def split: prod.splits sum.splits if_splits)

lemma decode_body_error: "decode_body jm dec r = Inl e \<Longrightarrow> as_http_status e = None"
  by (auto simp: decode_body_def split: body_value.splits option.splits)

lemma failover_internal [simp]: "is_failover_error (llm_internal msg cause) = (case cause of None \<Rightarrow> False | Some e \<Rightarrow> is_failover_error e)"
  by (simp add: is_failover_error_def llm_internal_def split: option.splits)

lemma failover_std [simp]: "\<not> is_failover_error (LlmStdError m None)"
  by (simp add: is_failover_error_def)

lemma failover_status [simp]: "is_failover_error (status_error r) \<longleftrightarrow> 500 \<le> wr_status r"
  by (simp add: is_failover_error_def status_error_def)

lemma decode_body_no_failover: "decode_body jm dec r = Inl e \<Longrightarrow> \<not> is_failover_error e"
  using decode_body_error [of jm dec r e] by (simp add: is_failover_error_def)

end
