(* ===== verification/OpenAI.thy ===== *)
theory OpenAI
  imports LlmHttp
begin

text \<open>
  The adapter of the OpenAI chat-completions API (\<open>agent/llm/openai.go\<close>), which also serves any endpoint
  with this wire format (\<open>agent/llm/openai_compatible.go\<close>): the translation of a request and its JSON, of
  a response and of the events of a stream. A nil map and an empty one are the same, and a struct that
  occurs twice in one object is read from its last occurrence. \<open>jt\<close> renders times in JSON.
\<close>

section \<open>The provider\<close>

record openai =
  oa_key :: string
  oa_model :: string
  oa_base_url :: string
  oa_max_tokens :: int
  oa_auth :: string
  oa_tools :: bool
  oa_structured :: bool

definition default_openai_base_url :: string where
  "default_openai_base_url = ''https://api.openai.com/v1''"

definition new_openai_provider :: "provider_options \<Rightarrow> openai" where
  "new_openai_provider o1 =
     (let base = trim_slash (po_base_url o1) in
      \<lparr>oa_key = po_key o1, oa_model = po_model o1,
       oa_base_url = (if base = [] then default_openai_base_url else base),
       oa_max_tokens = po_max_tokens o1,
       oa_auth = (if po_auth o1 = [] then ''bearer'' else po_auth o1),
       oa_tools = bool_or (po_tools o1) True, oa_structured = bool_or (po_structured o1) True\<rparr>)"

text \<open>\<open>url_parts\<close> is \<open>url.Parse\<close>: scheme and host; \<open>quote\<close> is \<open>%q\<close>.\<close>

definition new_openai_compatible_provider ::
    "(string \<Rightarrow> (string \<times> string) option) \<Rightarrow> (string \<Rightarrow> string) \<Rightarrow> provider_options \<Rightarrow> string + openai" where
  "new_openai_compatible_provider url_parts quote o1 =
     (let base = trim_slash (po_base_url o1);
          bad = Inl (''llm: openai_compatible requires base_url to be a valid http(s) endpoint, got '' @ quote (po_base_url o1))
      in case url_parts base of
           None \<Rightarrow> bad
         | Some (scheme, host) \<Rightarrow>
             if scheme \<notin> {''http'', ''https''} \<or> host = [] then bad
             else Inr \<lparr>oa_key = po_key o1, oa_model = po_model o1, oa_base_url = base,
                       oa_max_tokens = po_max_tokens o1,
                       oa_auth = (if po_auth o1 = [] then ''bearer_if_key'' else po_auth o1),
                       oa_tools = bool_or (po_tools o1) True, oa_structured = bool_or (po_structured o1) True\<rparr>)"

definition openai_headers :: "openai \<Rightarrow> (string \<times> string) list" where
  "openai_headers p =
     (if oa_auth p = ''none'' \<or> oa_auth p = ''bearer_if_key'' \<and> oa_key p = [] then []
      else [(''Authorization'', ''Bearer '' @ oa_key p)])"

section \<open>The wire format\<close>

record openai_function =
  of_name :: string
  of_arguments :: string
  of_description :: string
  of_parameters :: row

record openai_tool_call =
  oc_id :: string
  oc_type :: string
  oc_function :: openai_function

record openai_message =
  om_role :: string
  om_content :: string
  om_name :: string
  om_call_id :: string
  om_calls :: "openai_tool_call list"

record openai_tool =
  ot_type :: string
  ot_function :: openai_function

record openai_response_format =
  rf_type :: string
  rf_name :: string
  rf_schema :: row
  rf_strict :: bool

record openai_request =
  or_model :: string
  or_messages :: "openai_message list"
  or_tools :: "openai_tool list"
  or_temperature :: "int \<times> int"
  or_max_tokens :: "int option"
  or_stream :: bool
  or_format :: "openai_response_format option"

definition function_json :: "(int \<Rightarrow> string) \<Rightarrow> openai_function \<Rightarrow> string" where
  "function_json jt f = json_fields
     ([(''name'', json_str (of_name f))] @ opt_str ''arguments'' (of_arguments f) @
      opt_str ''description'' (of_description f) @ opt_row jt ''parameters'' (of_parameters f))"

definition tool_call_json :: "(int \<Rightarrow> string) \<Rightarrow> openai_tool_call \<Rightarrow> string" where
  "tool_call_json jt c = json_fields
     [(''id'', json_str (oc_id c)), (''type'', json_str (oc_type c)), (''function'', function_json jt (oc_function c))]"

definition message_json :: "(int \<Rightarrow> string) \<Rightarrow> openai_message \<Rightarrow> string" where
  "message_json jt m = json_fields
     ([(''role'', json_str (om_role m))] @ opt_str ''content'' (om_content m) @ opt_str ''name'' (om_name m) @
      opt_str ''tool_call_id'' (om_call_id m) @ opt_array ''tool_calls'' (map (tool_call_json jt) (om_calls m)))"

definition openai_tool_json :: "(int \<Rightarrow> string) \<Rightarrow> openai_tool \<Rightarrow> string" where
  "openai_tool_json jt t = json_fields [(''type'', json_str (ot_type t)), (''function'', function_json jt (ot_function t))]"

definition response_format_json :: "(int \<Rightarrow> string) \<Rightarrow> openai_response_format \<Rightarrow> string" where
  "response_format_json jt f = json_fields
     [(''type'', json_str (rf_type f)),
      (''json_schema'', json_fields
         [(''name'', json_str (rf_name f)), (''schema'', json_encode jt (VMap (rf_schema f))), (''strict'', json_bool (rf_strict f))])]"

definition openai_request_json :: "(int \<Rightarrow> string) \<Rightarrow> openai_request \<Rightarrow> string" where
  "openai_request_json jt r = json_fields
     ([(''model'', json_str (or_model r)), (''messages'', json_array (map (message_json jt) (or_messages r)))] @
      opt_array ''tools'' (map (openai_tool_json jt) (or_tools r)) @
      [(''temperature'', case or_temperature r of (m, e) \<Rightarrow> json_float m e)] @
      (case or_max_tokens r of None \<Rightarrow> [] | Some n \<Rightarrow> [(''max_tokens'', itoa n)]) @
      [(''stream'', json_bool (or_stream r))] @
      (case or_format r of None \<Rightarrow> [] | Some f \<Rightarrow> [(''response_format'', response_format_json jt f)]))"

section \<open>Requests\<close>

definition openai_call :: "llm_call \<Rightarrow> openai_tool_call" where
  "openai_call c =
     \<lparr>oc_id = lc_id c, oc_type = ''function'',
      oc_function = \<lparr>of_name = lc_name c, of_arguments = lc_arguments c, of_description = [], of_parameters = []\<rparr>\<rparr>"

definition to_openai_message :: "chat_message \<Rightarrow> openai_message" where
  "to_openai_message m =
     \<lparr>om_role = cm_role m, om_content = cm_content m, om_name = cm_name m, om_call_id = cm_call_id m,
      om_calls = map openai_call (cm_calls m)\<rparr>"

definition to_openai_tool :: "tool_definition \<Rightarrow> openai_tool" where
  "to_openai_tool t =
     \<lparr>ot_type = ''function'',
      ot_function = \<lparr>of_name = td_name t, of_arguments = [], of_description = td_description t,
                     of_parameters = td_parameters t\<rparr>\<rparr>"

definition openai_build_request :: "openai \<Rightarrow> chat_request \<Rightarrow> bool \<Rightarrow> openai_request" where
  "openai_build_request p rq stream =
     \<lparr>or_model = (if rq_model rq = [] then oa_model p else rq_model rq),
      or_messages = map to_openai_message (rq_messages rq),
      or_tools = map to_openai_tool (rq_tools rq),
      or_temperature = rq_temperature rq,
      or_max_tokens =
        (if 0 < rq_max_tokens rq then Some (rq_max_tokens rq)
         else if 0 < oa_max_tokens p then Some (oa_max_tokens p) else None),
      or_stream = stream,
      or_format = map_option (\<lambda>f. \<lparr>rf_type = ''json_schema'', rf_name = jf_name f, rf_schema = jf_schema f, rf_strict = True\<rparr>)
        (rq_format rq)\<rparr>"

section \<open>Responses\<close>

definition no_function :: openai_function where
  "no_function = \<lparr>of_name = [], of_arguments = [], of_description = [], of_parameters = []\<rparr>"

definition no_call :: openai_tool_call where
  "no_call = \<lparr>oc_id = [], oc_type = [], oc_function = no_function\<rparr>"

definition no_message :: openai_message where
  "no_message = \<lparr>om_role = [], om_content = [], om_name = [], om_call_id = [], om_calls = []\<rparr>"

definition function_of_val :: "val \<Rightarrow> openai_function option" where
  "function_of_val v =
     Option.bind (want_row v) (\<lambda>m.
       case (member_as want_str [] ''name'' m, member_as want_str [] ''arguments'' m,
             member_as want_str [] ''description'' m, member_as want_row [] ''parameters'' m) of
         (Some n, Some a, Some d, Some ps) \<Rightarrow>
           Some \<lparr>of_name = n, of_arguments = a, of_description = d, of_parameters = ps\<rparr>
       | _ \<Rightarrow> None)"

definition call_of_val :: "val \<Rightarrow> openai_tool_call option" where
  "call_of_val v =
     Option.bind (want_row v) (\<lambda>m.
       case (member_as want_str [] ''id'' m, member_as want_str [] ''type'' m,
             member_as function_of_val no_function ''function'' m) of
         (Some i, Some t, Some f) \<Rightarrow> Some \<lparr>oc_id = i, oc_type = t, oc_function = f\<rparr>
       | _ \<Rightarrow> None)"

definition message_of_val :: "val \<Rightarrow> openai_message option" where
  "message_of_val v =
     Option.bind (want_row v) (\<lambda>m.
       case (member_as want_str [] ''role'' m, member_as want_str [] ''content'' m, member_as want_str [] ''name'' m,
             member_as want_str [] ''tool_call_id'' m, member_as (want_all call_of_val no_call) [] ''tool_calls'' m) of
         (Some r, Some c, Some n, Some i, Some cs) \<Rightarrow>
           Some \<lparr>om_role = r, om_content = c, om_name = n, om_call_id = i, om_calls = cs\<rparr>
       | _ \<Rightarrow> None)"

record openai_choice =
  ch_message :: openai_message
  ch_finish :: string

definition choice_of_val :: "val \<Rightarrow> openai_choice option" where
  "choice_of_val v =
     Option.bind (want_row v) (\<lambda>m.
       case (member_as message_of_val no_message ''message'' m, member_as want_str [] ''finish_reason'' m) of
         (Some x, Some f) \<Rightarrow> Some \<lparr>ch_message = x, ch_finish = f\<rparr>
       | _ \<Rightarrow> None)"

record openai_response =
  os_id :: string
  os_choices :: "openai_choice list"
  os_usage :: token_usage
  os_error :: "string option"

text \<open>The message of an error object, whose type is not used.\<close>

definition error_of_val :: "val \<Rightarrow> string option" where
  "error_of_val v =
     Option.bind (want_row v) (\<lambda>m.
       case (member_as want_str [] ''message'' m, member_as want_str [] ''type'' m) of
         (Some x, Some t) \<Rightarrow> Some x
       | _ \<Rightarrow> None)"

definition usage_of_val :: "val \<Rightarrow> token_usage option" where
  "usage_of_val v =
     Option.bind (want_row v) (\<lambda>m.
       case (member_as want_int 0 ''prompt_tokens'' m, member_as want_int 0 ''completion_tokens'' m,
             member_as want_int 0 ''total_tokens'' m) of
         (Some p, Some c, Some t) \<Rightarrow> Some \<lparr>tu_prompt = p, tu_completion = c, tu_total = t\<rparr>
       | _ \<Rightarrow> None)"

definition no_choice :: openai_choice where
  "no_choice = \<lparr>ch_message = no_message, ch_finish = []\<rparr>"

definition response_of_row :: "row \<Rightarrow> openai_response option" where
  "response_of_row m =
     (case (member_as want_str [] ''id'' m,
            member_as (want_all choice_of_val no_choice) [] ''choices'' m,
            member_as usage_of_val no_usage ''usage'' m,
            member_as (map_option Some \<circ> error_of_val) None ''error'' m) of
        (Some i, Some cs, Some u, Some e) \<Rightarrow> Some \<lparr>os_id = i, os_choices = cs, os_usage = u, os_error = e\<rparr>
      | _ \<Rightarrow> None)"

definition response_of_val :: "val \<Rightarrow> openai_response option" where
  "response_of_val v = Option.bind (elem_as want_row [] v) response_of_row"

definition from_openai_call :: "openai_tool_call \<Rightarrow> llm_call" where
  "from_openai_call c =
     \<lparr>lc_id = oc_id c, lc_name = of_name (oc_function c), lc_arguments = of_arguments (oc_function c)\<rparr>"

definition translate_openai_response :: "openai_response \<Rightarrow> chat_response" where
  "translate_openai_response r =
     (case os_choices r of
        [] \<Rightarrow> \<lparr>rs_content = [], rs_calls = [], rs_usage = os_usage r, rs_finish = []\<rparr>
      | ch # _ \<Rightarrow>
          \<lparr>rs_content = om_content (ch_message ch), rs_calls = map from_openai_call (om_calls (ch_message ch)),
           rs_usage = os_usage r, rs_finish = ch_finish ch\<rparr>)"

definition openai_chat ::
    "(int \<Rightarrow> string) \<Rightarrow> (string \<Rightarrow> string) \<Rightarrow> 's transport \<Rightarrow> openai \<Rightarrow> chat_request \<Rightarrow> ('s, llm_error, chat_response) step" where
  "openai_chat jt jm tr p rq = (\<lambda>s.
     case do_json tr jm (oa_base_url p @ ''/chat/completions'') (openai_headers p)
            (openai_request_json jt (openai_build_request p rq False)) response_of_val s of
       (Inl e, t) \<Rightarrow> (Inl (llm_internal ''openai: chat completion request failed'' (Some e)), t)
     | (Inr r, t) \<Rightarrow>
         (case os_error r of
            Some m \<Rightarrow> (Inl (llm_internal (''openai: '' @ m) None), t)
          | None \<Rightarrow> (Inr (translate_openai_response r), t)))"

section \<open>Streams\<close>

text \<open>The part of a message that an event adds.\<close>

record openai_delta =
  dl_content :: string
  dl_calls :: "openai_tool_call list"

definition no_delta :: openai_delta where
  "no_delta = \<lparr>dl_content = [], dl_calls = []\<rparr>"

definition delta_of_val :: "val \<Rightarrow> openai_delta option" where
  "delta_of_val v =
     Option.bind (want_row v) (\<lambda>m.
       case (member_as want_str [] ''content'' m, member_as (want_all call_of_val no_call) [] ''tool_calls'' m) of
         (Some c, Some cs) \<Rightarrow> Some \<lparr>dl_content = c, dl_calls = cs\<rparr>
       | _ \<Rightarrow> None)"

record openai_stream_choice =
  sc_index :: int
  sc_delta :: openai_delta
  sc_finish :: string

definition stream_choice_of_val :: "val \<Rightarrow> openai_stream_choice option" where
  "stream_choice_of_val v =
     Option.bind (want_row v) (\<lambda>m.
       case (member_as want_int 0 ''index'' m, member_as delta_of_val no_delta ''delta'' m,
             member_as want_str [] ''finish_reason'' m) of
         (Some i, Some d, Some f) \<Rightarrow> Some \<lparr>sc_index = i, sc_delta = d, sc_finish = f\<rparr>
       | _ \<Rightarrow> None)"

record openai_stream_event =
  oe_choices :: "openai_stream_choice list"
  oe_error :: "string option"

definition stream_error_of_val :: "val \<Rightarrow> string option" where
  "stream_error_of_val v = Option.bind (want_row v) (member_as want_str [] ''message'')"

definition openai_event_of_val :: "val \<Rightarrow> openai_stream_event option" where
  "openai_event_of_val v =
     Option.bind (elem_as want_row [] v) (\<lambda>m.
       case (member_as (want_all stream_choice_of_val \<lparr>sc_index = 0, sc_delta = no_delta, sc_finish = []\<rparr>) [] ''choices'' m,
             member_as (map_option Some \<circ> stream_error_of_val) None ''error'' m) of
         (Some cs, Some e) \<Rightarrow> Some \<lparr>oe_choices = cs, oe_error = e\<rparr>
       | _ \<Rightarrow> None)"

definition openai_on_event :: "(string \<Rightarrow> string) \<Rightarrow> chat_chunk list \<Rightarrow> string \<Rightarrow> llm_error + chat_chunk list" where
  "openai_on_event jm sent data =
     (case Option.bind (json_decode data) openai_event_of_val of
        None \<Rightarrow> Inl (llm_internal ''openai: malformed stream event'' (Some (LlmStdError (jm data) None)))
      | Some ev \<Rightarrow>
          (case (oe_error ev, oe_choices ev) of
             (Some m, _) \<Rightarrow> Inl (llm_internal (''openai: '' @ m) None)
           | (None, []) \<Rightarrow> Inr sent
           | (None, ch # _) \<Rightarrow>
               Inr (sent @ [\<lparr>ck_content = dl_content (sc_delta ch),
                             ck_calls = map from_openai_call (dl_calls (sc_delta ch)), ck_finish = sc_finish ch\<rparr>])))"

text \<open>The chunks a stream delivers: those before its end or its first error, which is only logged.\<close>

definition openai_stream ::
    "(int \<Rightarrow> string) \<Rightarrow> (string \<Rightarrow> string) \<Rightarrow> 's transport \<Rightarrow> openai \<Rightarrow> chat_request \<Rightarrow> ('s, llm_error, chat_chunk list) step" where
  "openai_stream jt jm tr p rq = (\<lambda>s.
     case open_stream tr (oa_base_url p @ ''/chat/completions'') (openai_headers p)
            (openai_request_json jt (openai_build_request p rq True)) s of
       (Inl e, t) \<Rightarrow> (Inl (llm_internal ''openai: stream request failed'' (Some e)), t)
     | (Inr r, t) \<Rightarrow> (Inr (fst (stream_events (openai_on_event jm) r [])), t))"

definition openai_model_info :: "openai \<Rightarrow> model_info" where
  "openai_model_info p = \<lparr>mi_name = oa_model p, mi_tools = oa_tools p, mi_structured = oa_structured p\<rparr>"

definition openai_provider ::
    "(int \<Rightarrow> string) \<Rightarrow> (string \<Rightarrow> string) \<Rightarrow> 's transport \<Rightarrow> openai \<Rightarrow> 's provider" where
  "openai_provider jt jm tr p =
     \<lparr>lp_chat = openai_chat jt jm tr p, lp_stream = openai_stream jt jm tr p, lp_tools = oa_tools p,
      lp_structured = oa_structured p, lp_info = openai_model_info p\<rparr>"

end
