(* ===== verification/Anthropic.thy ===== *)
theory Anthropic
  imports LlmHttp Transcript
begin

text \<open>
  The adapter of the Anthropic Messages API (\<open>agent/llm/anthropic.go\<close>): system messages move to a field
  of their own, consecutive tool results become the blocks of one user message, tool calls become
  blocks with their decoded arguments, and back. The conventions are those of the other adapter.
\<close>

section \<open>The provider\<close>

record anthropic =
  an_key :: string
  an_model :: string
  an_base_url :: string
  an_max_tokens :: int

definition default_anthropic_base_url :: string where
  "default_anthropic_base_url = ''https://api.anthropic.com''"

definition anthropic_api_version :: string where
  "anthropic_api_version = ''2023-06-01''"

definition new_anthropic_provider :: "provider_options \<Rightarrow> anthropic" where
  "new_anthropic_provider o1 =
     (let base = trim_slash (po_base_url o1) in
      \<lparr>an_key = po_key o1, an_model = po_model o1,
       an_base_url = (if base = [] then default_anthropic_base_url else base),
       an_max_tokens = po_max_tokens o1\<rparr>)"

definition anthropic_headers :: "anthropic \<Rightarrow> (string \<times> string) list" where
  "anthropic_headers p = [(''x-api-key'', an_key p), (''anthropic-version'', anthropic_api_version)]"

definition anthropic_model_info :: "anthropic \<Rightarrow> model_info" where
  "anthropic_model_info p = \<lparr>mi_name = an_model p, mi_tools = True, mi_structured = False\<rparr>"

section \<open>The wire format\<close>

record content_block =
  cb_type :: string
  cb_text :: string
  cb_id :: string
  cb_name :: string
  cb_input :: row
  cb_tool_use_id :: string
  cb_content :: string

definition no_block :: content_block where
  "no_block = \<lparr>cb_type = [], cb_text = [], cb_id = [], cb_name = [], cb_input = [], cb_tool_use_id = [], cb_content = []\<rparr>"

record anthropic_message =
  am_role :: string
  am_content :: "content_block list"

record anthropic_tool =
  at_name :: string
  at_description :: string
  at_schema :: row

record anthropic_request =
  ar_model :: string
  ar_max_tokens :: int
  ar_temperature :: "(int \<times> int) option"
  ar_system :: string
  ar_messages :: "anthropic_message list"
  ar_tools :: "anthropic_tool list"
  ar_tool_choice :: "string option"
  ar_stream :: bool

definition block_json :: "(int \<Rightarrow> string) \<Rightarrow> content_block \<Rightarrow> string" where
  "block_json jt b = json_fields
     ([(''type'', json_str (cb_type b))] @ opt_str ''text'' (cb_text b) @ opt_str ''id'' (cb_id b) @
      opt_str ''name'' (cb_name b) @ opt_row jt ''input'' (cb_input b) @
      opt_str ''tool_use_id'' (cb_tool_use_id b) @ opt_str ''content'' (cb_content b))"

definition anthropic_message_json :: "(int \<Rightarrow> string) \<Rightarrow> anthropic_message \<Rightarrow> string" where
  "anthropic_message_json jt m = json_fields
     [(''role'', json_str (am_role m)), (''content'', json_array (map (block_json jt) (am_content m)))]"

definition anthropic_tool_json :: "(int \<Rightarrow> string) \<Rightarrow> anthropic_tool \<Rightarrow> string" where
  "anthropic_tool_json jt t = json_fields
     ([(''name'', json_str (at_name t))] @ opt_str ''description'' (at_description t) @
      [(''input_schema'', json_encode jt (VMap (at_schema t)))])"

definition anthropic_request_json :: "(int \<Rightarrow> string) \<Rightarrow> anthropic_request \<Rightarrow> string" where
  "anthropic_request_json jt r = json_fields
     ([(''model'', json_str (ar_model r)), (''max_tokens'', itoa (ar_max_tokens r))] @
      (case ar_temperature r of None \<Rightarrow> [] | Some (m, e) \<Rightarrow> [(''temperature'', json_float m e)]) @
      opt_str ''system'' (ar_system r) @
      [(''messages'', if ar_messages r = [] then ''null'' else json_array (map (anthropic_message_json jt) (ar_messages r)))] @
      opt_array ''tools'' (map (anthropic_tool_json jt) (ar_tools r)) @
      (case ar_tool_choice r of None \<Rightarrow> [] | Some t \<Rightarrow> [(''tool_choice'', json_fields [(''type'', json_str t)])]) @
      [(''stream'', json_bool (ar_stream r))])"

section \<open>Requests\<close>

text \<open>The input of a tool call: the decoded arguments, no members when they are not an object.\<close>

definition call_input :: "string \<Rightarrow> row" where
  "call_input args = (if args = [] then [] else case json_object args of Some m \<Rightarrow> m | None \<Rightarrow> [])"

definition text_block :: "string \<Rightarrow> content_block" where
  "text_block t = no_block\<lparr>cb_type := ''text'', cb_text := t\<rparr>"

definition tool_use_block :: "llm_call \<Rightarrow> content_block" where
  "tool_use_block c =
     no_block\<lparr>cb_type := ''tool_use'', cb_id := lc_id c, cb_name := lc_name c, cb_input := call_input (lc_arguments c)\<rparr>"

definition tool_result_block :: "chat_message \<Rightarrow> content_block" where
  "tool_result_block m = no_block\<lparr>cb_type := ''tool_result'', cb_tool_use_id := cm_call_id m, cb_content := cm_content m\<rparr>"

definition turn_message :: "chat_message \<Rightarrow> anthropic_message" where
  "turn_message m =
     \<lparr>am_role = (if cm_role m \<noteq> ''assistant'' then ''user'' else cm_role m),
      am_content = (if cm_content m \<noteq> [] then [text_block (cm_content m)] else []) @
        map (tool_use_block) (cm_calls m)\<rparr>"

text \<open>\<open>flushToolResults\<close>: messages so far and results that wait for a message of their own.\<close>

definition flush_results :: "anthropic_message list \<Rightarrow> content_block list \<Rightarrow> anthropic_message list" where
  "flush_results messages waiting =
     (if waiting = [] then messages else messages @ [\<lparr>am_role = ''user'', am_content = waiting\<rparr>])"

fun translate_messages ::
    "chat_message list \<Rightarrow> string list \<Rightarrow> anthropic_message list \<Rightarrow> content_block list
     \<Rightarrow> string list \<times> anthropic_message list" where
  "translate_messages [] system messages waiting = (system, flush_results messages waiting)"
| "translate_messages (m # ms) system messages waiting =
     (if cm_role m = ''system'' then
        translate_messages ms (if cm_content m \<noteq> [] then system @ [cm_content m] else system) messages waiting
      else if cm_role m = ''tool'' then
        translate_messages ms system messages (waiting @ [tool_result_block m])
      else
        translate_messages ms system (flush_results messages waiting @ [turn_message m]) [])"

definition anthropic_build_request :: "anthropic \<Rightarrow> chat_request \<Rightarrow> bool \<Rightarrow> anthropic_request" where
  "anthropic_build_request p rq stream =
     (let mt = (if rq_max_tokens rq = 0 then an_max_tokens p else rq_max_tokens rq);
          (system, messages) = translate_messages (rq_messages rq) [] [] [];
          tools = map (\<lambda>t. \<lparr>at_name = td_name t, at_description = td_description t, at_schema = td_parameters t\<rparr>) (rq_tools rq)
      in \<lparr>ar_model = (if rq_model rq = [] then an_model p else rq_model rq),
          ar_max_tokens = (if mt = 0 then 4096 else mt),
          ar_temperature = (if fst (rq_temperature rq) \<noteq> 0 then Some (rq_temperature rq) else None),
          ar_system = join_with [char_of (10 :: nat), char_of (10 :: nat)] system,
          ar_messages = messages, ar_tools = tools,
          ar_tool_choice = (if tools = [] then None else Some ''auto''), ar_stream = stream\<rparr>)"

section \<open>Responses\<close>

definition block_of_val :: "val \<Rightarrow> content_block option" where
  "block_of_val v =
     Option.bind (want_row v) (\<lambda>m.
       case (member_as want_str [] ''type'' m, member_as want_str [] ''text'' m, member_as want_str [] ''id'' m,
             member_as want_str [] ''name'' m, member_as want_row [] ''input'' m,
             member_as want_str [] ''tool_use_id'' m, member_as want_str [] ''content'' m) of
         (Some t, Some x, Some i, Some n, Some inp, Some u, Some c) \<Rightarrow>
           Some \<lparr>cb_type = t, cb_text = x, cb_id = i, cb_name = n, cb_input = inp, cb_tool_use_id = u, cb_content = c\<rparr>
       | _ \<Rightarrow> None)"

record anthropic_response =
  as_id :: string
  as_content :: "content_block list"
  as_stop_reason :: string
  as_input_tokens :: int
  as_output_tokens :: int
  as_error :: "string option"

definition anthropic_usage_of_val :: "val \<Rightarrow> (int \<times> int) option" where
  "anthropic_usage_of_val v =
     Option.bind (want_row v) (\<lambda>m.
       case (member_as want_int 0 ''input_tokens'' m, member_as want_int 0 ''output_tokens'' m) of
         (Some i, Some x) \<Rightarrow> Some (i, x)
       | _ \<Rightarrow> None)"

definition anthropic_error_of_val :: "val \<Rightarrow> string option" where
  "anthropic_error_of_val v =
     Option.bind (want_row v) (\<lambda>m.
       case (member_as want_str [] ''type'' m, member_as want_str [] ''message'' m) of
         (Some t, Some x) \<Rightarrow> Some x
       | _ \<Rightarrow> None)"

definition anthropic_response_of_val :: "val \<Rightarrow> anthropic_response option" where
  "anthropic_response_of_val v =
     Option.bind (elem_as want_row [] v) (\<lambda>m.
       case (member_as want_str [] ''id'' m, member_as (want_all block_of_val no_block) [] ''content'' m,
             member_as want_str [] ''stop_reason'' m, member_as anthropic_usage_of_val (0, 0) ''usage'' m,
             member_as (map_option Some \<circ> anthropic_error_of_val) None ''error'' m) of
         (Some i, Some bs, Some r, Some (it, ot), Some e) \<Rightarrow>
           Some \<lparr>as_id = i, as_content = bs, as_stop_reason = r, as_input_tokens = it, as_output_tokens = ot, as_error = e\<rparr>
       | _ \<Rightarrow> None)"

definition map_stop_reason :: "string \<Rightarrow> string" where
  "map_stop_reason r =
     (if r = ''end_turn'' then ''stop'' else if r = ''tool_use'' then ''tool_calls''
      else if r = ''max_tokens'' then ''length'' else r)"

text \<open>A response without input and one whose input is the empty object have the same arguments.\<close>

definition block_call :: "(int \<Rightarrow> string) \<Rightarrow> content_block \<Rightarrow> llm_call" where
  "block_call jt b = \<lparr>lc_id = cb_id b, lc_name = cb_name b, lc_arguments = json_encode jt (VMap (cb_input b))\<rparr>"

definition translate_anthropic_response :: "(int \<Rightarrow> string) \<Rightarrow> anthropic_response \<Rightarrow> chat_response" where
  "translate_anthropic_response jt r =
     \<lparr>rs_content = concat (map cb_text (filter (\<lambda>b. cb_type b = ''text'') (as_content r))),
      rs_calls = map (block_call jt) (filter (\<lambda>b. cb_type b = ''tool_use'') (as_content r)),
      rs_usage = \<lparr>tu_prompt = as_input_tokens r, tu_completion = as_output_tokens r,
                  tu_total = as_input_tokens r + as_output_tokens r\<rparr>,
      rs_finish = map_stop_reason (as_stop_reason r)\<rparr>"

definition anthropic_chat ::
    "(int \<Rightarrow> string) \<Rightarrow> (string \<Rightarrow> string) \<Rightarrow> 's transport \<Rightarrow> anthropic \<Rightarrow> chat_request
     \<Rightarrow> ('s, llm_error, chat_response) step" where
  "anthropic_chat jt jm tr p rq = (\<lambda>s.
     case do_json tr jm (an_base_url p @ ''/v1/messages'') (anthropic_headers p)
            (anthropic_request_json jt (anthropic_build_request p rq False)) anthropic_response_of_val s of
       (Inl e, t) \<Rightarrow> (Inl (llm_internal ''anthropic: message request failed'' (Some e)), t)
     | (Inr r, t) \<Rightarrow>
         (case as_error r of
            Some m \<Rightarrow> (Inl (llm_internal (''anthropic: '' @ m) None), t)
          | None \<Rightarrow> (Inr (translate_anthropic_response jt r), t)))"

section \<open>Streams\<close>

record anthropic_delta =
  ad_type :: string
  ad_text :: string
  ad_partial_json :: string
  ad_stop_reason :: string

definition anthropic_delta_of_val :: "val \<Rightarrow> anthropic_delta option" where
  "anthropic_delta_of_val v =
     Option.bind (want_row v) (\<lambda>m.
       case (member_as want_str [] ''type'' m, member_as want_str [] ''text'' m,
             member_as want_str [] ''partial_json'' m, member_as want_str [] ''stop_reason'' m) of
         (Some t, Some x, Some j, Some r) \<Rightarrow>
           Some \<lparr>ad_type = t, ad_text = x, ad_partial_json = j, ad_stop_reason = r\<rparr>
       | _ \<Rightarrow> None)"

record anthropic_stream_event =
  ae_type :: string
  ae_block :: "content_block option"
  ae_delta :: "anthropic_delta option"

definition anthropic_event_of_val :: "val \<Rightarrow> anthropic_stream_event option" where
  "anthropic_event_of_val v =
     Option.bind (elem_as want_row [] v) (\<lambda>m.
       case (member_as want_str [] ''type'' m, member_as (map_option Some \<circ> block_of_val) None ''content_block'' m,
             member_as (map_option Some \<circ> anthropic_delta_of_val) None ''delta'' m) of
         (Some t, Some b, Some d) \<Rightarrow> Some \<lparr>ae_type = t, ae_block = b, ae_delta = d\<rparr>
       | _ \<Rightarrow> None)"

text \<open>What the event handler keeps: the tool call in progress, and the chunks it has sent.\<close>

record anthropic_reader =
  rd_tool_id :: string
  rd_tool_name :: string
  rd_sent :: "chat_chunk list"

definition send_chunk :: "chat_chunk \<Rightarrow> anthropic_reader \<Rightarrow> anthropic_reader" where
  "send_chunk c st = st\<lparr>rd_sent := rd_sent st @ [c]\<rparr>"

definition anthropic_delta_event :: "anthropic_delta \<Rightarrow> anthropic_reader \<Rightarrow> anthropic_reader" where
  "anthropic_delta_event d st =
     (if ad_type d = ''text_delta'' then send_chunk \<lparr>ck_content = ad_text d, ck_calls = [], ck_finish = []\<rparr> st
      else if ad_type d = ''input_json_delta'' then
        send_chunk \<lparr>ck_content = [],
          ck_calls = [\<lparr>lc_id = rd_tool_id st, lc_name = rd_tool_name st, lc_arguments = ad_partial_json d\<rparr>],
          ck_finish = []\<rparr> st
      else st)"

definition anthropic_step :: "anthropic_stream_event \<Rightarrow> anthropic_reader \<Rightarrow> anthropic_reader" where
  "anthropic_step ev st =
     (if ae_type ev = ''content_block_start'' then
        (case ae_block ev of
           Some b \<Rightarrow> if cb_type b = ''tool_use'' then st\<lparr>rd_tool_id := cb_id b, rd_tool_name := cb_name b\<rparr> else st
         | None \<Rightarrow> st)
      else if ae_type ev = ''content_block_delta'' then
        (case ae_delta ev of None \<Rightarrow> st | Some d \<Rightarrow> anthropic_delta_event d st)
      else if ae_type ev = ''content_block_stop'' then st\<lparr>rd_tool_id := [], rd_tool_name := []\<rparr>
      else if ae_type ev = ''message_delta'' then
        (case ae_delta ev of
           Some d \<Rightarrow>
             if ad_stop_reason d = [] then st
             else send_chunk \<lparr>ck_content = [], ck_calls = [], ck_finish = map_stop_reason (ad_stop_reason d)\<rparr> st
         | None \<Rightarrow> st)
      else st)"

definition anthropic_on_event :: "(string \<Rightarrow> string) \<Rightarrow> anthropic_reader \<Rightarrow> string \<Rightarrow> llm_error + anthropic_reader" where
  "anthropic_on_event jm st data =
     (case Option.bind (json_decode data) anthropic_event_of_val of
        None \<Rightarrow> Inl (llm_internal ''anthropic: malformed stream event'' (Some (LlmStdError (jm data) None)))
      | Some ev \<Rightarrow> Inr (anthropic_step ev st))"

definition anthropic_stream ::
    "(int \<Rightarrow> string) \<Rightarrow> (string \<Rightarrow> string) \<Rightarrow> 's transport \<Rightarrow> anthropic \<Rightarrow> chat_request
     \<Rightarrow> ('s, llm_error, chat_chunk list) step" where
  "anthropic_stream jt jm tr p rq = (\<lambda>s.
     case open_stream tr (an_base_url p @ ''/v1/messages'') (anthropic_headers p)
            (anthropic_request_json jt (anthropic_build_request p rq True)) s of
       (Inl e, t) \<Rightarrow> (Inl (llm_internal ''anthropic: stream request failed'' (Some e)), t)
     | (Inr r, t) \<Rightarrow>
         (Inr (rd_sent (fst (stream_events (anthropic_on_event jm) r \<lparr>rd_tool_id = [], rd_tool_name = [], rd_sent = []\<rparr>))), t))"

definition anthropic_provider ::
    "(int \<Rightarrow> string) \<Rightarrow> (string \<Rightarrow> string) \<Rightarrow> 's transport \<Rightarrow> anthropic \<Rightarrow> 's provider" where
  "anthropic_provider jt jm tr p =
     \<lparr>lp_chat = anthropic_chat jt jm tr p, lp_stream = anthropic_stream jt jm tr p, lp_tools = True,
      lp_structured = False, lp_info = anthropic_model_info p\<rparr>"

section \<open>The messages of a request\<close>

text \<open>
  A reference for the translation: the runs of consecutive tool messages, system messages left out,
  become one message each, and every other message becomes one.
\<close>

definition is_tool :: "chat_message \<Rightarrow> bool" where
  "is_tool m \<longleftrightarrow> cm_role m = ''tool''"

definition run_message :: "chat_message list \<Rightarrow> anthropic_message" where
  "run_message ms = \<lparr>am_role = ''user'', am_content = map tool_result_block ms\<rparr>"

function by_runs :: "chat_message list \<Rightarrow> anthropic_message list" where
  "by_runs [] = []"
| "by_runs (m # ms) =
     (if is_tool m then run_message (m # takeWhile is_tool ms) # by_runs (dropWhile is_tool ms)
      else turn_message m # by_runs ms)"
  by pat_completeness auto
termination by (relation "measure length") (auto intro: le_imp_less_Suc length_dropWhile_le)

definition spoken :: "chat_message list \<Rightarrow> chat_message list" where
  "spoken ms = filter (\<lambda>m. cm_role m \<noteq> ''system'') ms"

definition system_texts :: "chat_message list \<Rightarrow> string list" where
  "system_texts ms = filter (\<lambda>t. t \<noteq> []) (map cm_content (filter (\<lambda>m. cm_role m = ''system'') ms))"

text \<open>The runs of a conversation that goes on from results that wait.\<close>

fun with_waiting :: "content_block list \<Rightarrow> chat_message list \<Rightarrow> anthropic_message list" where
  "with_waiting waiting ms =
     flush_results [] (waiting @ map tool_result_block (takeWhile is_tool ms)) @
     by_runs (dropWhile is_tool ms)"

declare with_waiting.simps [simp del]

lemma with_waiting_tool:
  "is_tool m \<Longrightarrow> with_waiting waiting (m # ms) = with_waiting (waiting @ [tool_result_block m]) ms"
  by (simp add: with_waiting.simps)

lemma with_waiting_other:
  "\<not> is_tool m \<Longrightarrow>
     with_waiting waiting (m # ms) = flush_results [] waiting @ turn_message m # with_waiting [] ms"
proof -
  assume "\<not> is_tool m"
  moreover have "with_waiting [] ms = by_runs ms"
    by (cases ms) (auto simp: with_waiting.simps flush_results_def run_message_def)
  ultimately show ?thesis by (simp add: with_waiting.simps)
qed

lemma with_waiting_Nil: "with_waiting [] ms = by_runs ms"
  by (cases ms) (auto simp: with_waiting.simps flush_results_def run_message_def)

lemma flush_append: "flush_results xs waiting = xs @ flush_results [] waiting"
  by (simp add: flush_results_def)

lemma translate_spoken:
  "translate_messages ms system messages waiting =
     (system @ system_texts ms, messages @ with_waiting waiting (spoken ms))"
proof (induction ms arbitrary: system messages waiting)
  case Nil
  show ?case using flush_append [of messages waiting]
    by (simp add: spoken_def system_texts_def with_waiting.simps)
next
  case (Cons m ms)
  consider "cm_role m = ''system''" | "cm_role m = ''tool''" | "cm_role m \<noteq> ''system''" "cm_role m \<noteq> ''tool''" by blast
  then show ?case
  proof cases
    case 1
    with Cons show ?thesis by (simp add: spoken_def system_texts_def)
  next
    case 2
    then have "spoken (m # ms) = m # spoken ms" "system_texts (m # ms) = system_texts ms"
      by (simp_all add: spoken_def system_texts_def)
    with 2 Cons show ?thesis by (simp add: with_waiting_tool is_tool_def)
  next
    case 3
    then have "spoken (m # ms) = m # spoken ms" "system_texts (m # ms) = system_texts ms"
      by (simp_all add: spoken_def system_texts_def)
    with 3 Cons flush_append [of messages waiting] show ?thesis by (simp add: with_waiting_other is_tool_def)
  qed
qed

lemma request_messages:
  "ar_messages (anthropic_build_request p rq stream) = by_runs (spoken (rq_messages rq))"
  "ar_system (anthropic_build_request p rq stream) =
     join_with [char_of (10 :: nat), char_of (10 :: nat)] (system_texts (rq_messages rq))"
  by (simp_all add: anthropic_build_request_def Let_def translate_spoken with_waiting_Nil)

text \<open>C33: 
  The pass over the messages, with its results that wait to be flushed, is the grouping by
  runs: every system text is in the system field and everything else is in the messages, in their order.
\<close>

theorem anthropic_groups_by_runs:
  "translate_messages ms [] [] [] = (system_texts ms, by_runs (spoken ms))"
  by (simp add: translate_spoken with_waiting_Nil)

section \<open>Results follow the calls\<close>

definition use_ids :: "anthropic_message \<Rightarrow> string list" where
  "use_ids w = map cb_id (filter (\<lambda>b. cb_type b = ''tool_use'') (am_content w))"

definition result_ids :: "anthropic_message \<Rightarrow> string list" where
  "result_ids w = map cb_tool_use_id (filter (\<lambda>b. cb_type b = ''tool_result'') (am_content w))"

lemma turn_ids [simp]:
  "use_ids (turn_message m) = map lc_id (cm_calls m)" "result_ids (turn_message m) = []"
  by (simp_all add: use_ids_def result_ids_def turn_message_def text_block_def tool_use_block_def comp_def filter_map)

lemma run_ids [simp]:
  "use_ids (run_message ms) = []" "result_ids (run_message ms) = map cm_call_id ms"
  by (simp_all add: run_message_def use_ids_def result_ids_def tool_result_block_def comp_def filter_map)

text \<open>Every result in a message answers a call of the message just before it.\<close>

fun results_follow :: "string list \<Rightarrow> anthropic_message list \<Rightarrow> bool" where
  "results_follow ids [] = True"
| "results_follow ids (w # ws) \<longleftrightarrow> set (result_ids w) \<subseteq> set ids \<and> results_follow (use_ids w) ws"

lemma answers_run:
  "answers_calls ids ms \<Longrightarrow> set (map cm_call_id (takeWhile is_tool ms)) \<subseteq> set ids \<and>
     answers_calls ids (dropWhile is_tool ms)"
proof (induction ms)
  case (Cons m ms)
  then show ?case by (cases "is_tool m") (auto simp: is_tool_def)
qed simp

lemma results_follow_start:
  "ms = [] \<or> \<not> is_tool (hd ms) \<Longrightarrow> results_follow ids (by_runs ms) = results_follow ids' (by_runs ms)"
  by (cases ms) auto

lemma by_runs_follow: "answers_calls ids ms \<Longrightarrow> results_follow ids (by_runs ms)"
proof (induction ms arbitrary: ids rule: by_runs.induct)
  case 1
  then show ?case by simp
next
  case (2 m ms)
  let ?rest = "dropWhile is_tool ms"
  show ?case
  proof (cases "is_tool m")
    case False
    with 2(2) [OF False, of "map lc_id (cm_calls m)"] 2(3) show ?thesis by (simp add: is_tool_def)
  next
    case True
    with 2(3) have "answers_calls ids ms" "cm_call_id m \<in> set ids" by (simp_all add: is_tool_def)
    then have run: "set (map cm_call_id (takeWhile is_tool ms)) \<subseteq> set ids" "answers_calls ids ?rest"
      using answers_run by blast+
    have "?rest = [] \<or> \<not> is_tool (hd ?rest)" using hd_dropWhile by metis
    then have "results_follow [] (by_runs ?rest)"
      using 2(1) [OF True run(2)] results_follow_start by blast
    then show ?thesis using True run(1) \<open>cm_call_id m \<in> set ids\<close> by simp
  qed
qed

lemma answers_spoken:
  assumes "\<forall>m \<in> set ms. cm_role m = ''system'' \<longrightarrow> cm_calls m = []" and "answers_calls ids' ms"
    and "set ids' \<subseteq> set ids"
  shows "answers_calls ids (spoken ms)"
  using assms
proof (induction ms arbitrary: ids ids')
  case Nil
  then show ?case by (simp add: spoken_def)
next
  case (Cons m ms)
  show ?case
  proof (cases "cm_role m = ''system''")
    case True
    then have "answers_calls [] ms" using Cons.prems by simp
    with True Cons.IH [of "[]" ids] Cons.prems(1) show ?thesis by (simp add: spoken_def)
  next
    case False
    then have s: "spoken (m # ms) = m # spoken ms" by (simp add: spoken_def)
    have none: "\<forall>x \<in> set ms. cm_role x = ''system'' \<longrightarrow> cm_calls x = []" using Cons.prems(1) by simp
    show ?thesis
    proof (cases "cm_role m = ''tool''")
      case True
      with Cons.prems(2,3) Cons.IH [OF none, of ids' ids] show ?thesis by (auto simp: s)
    next
      case False
      with Cons.prems(2) Cons.IH [OF none, of "map lc_id (cm_calls m)" "map lc_id (cm_calls m)"]
      show ?thesis by (simp add: s)
    qed
  qed
qed

lemma result_ids_by_runs:
  "concat (map result_ids (by_runs ms)) = map cm_call_id (filter is_tool ms)"
proof (induction ms rule: by_runs.induct)
  case (2 m ms)
  have "filter is_tool ms =
      takeWhile is_tool ms @ filter is_tool (dropWhile is_tool ms)"
    by (induction ms) auto
  with 2 show ?case by simp
qed simp

text \<open>C25: 
  The API refuses a tool result that does not answer a call of the message before it. A conversation in
  which every tool message answers the calls that were declared last, as the runtime keeps its
  transcripts, is translated into such a request; no result is lost or moved, and system texts do not get between.
\<close>

theorem anthropic_results_follow_calls:
  assumes "answers_calls [] (rq_messages rq)" and "\<forall>m \<in> set (rq_messages rq). cm_role m = ''system'' \<longrightarrow> cm_calls m = []"
  shows "results_follow [] (ar_messages (anthropic_build_request p rq stream)) \<and>
    concat (map result_ids (ar_messages (anthropic_build_request p rq stream))) =
      map cm_call_id (filter is_tool (rq_messages rq))"
proof -
  have "filter is_tool (spoken ms) = filter is_tool ms" for ms
    by (induction ms) (simp_all add: spoken_def is_tool_def)
  then show ?thesis
    using by_runs_follow [OF answers_spoken [OF assms(2,1)]] by (simp add: request_messages result_ids_by_runs)
qed

definition demo_conversation :: "chat_message list" where
  "demo_conversation =
     [\<lparr>cm_role = ''system'', cm_content = ''be brief'', cm_name = [], cm_call_id = [], cm_calls = []\<rparr>,
      \<lparr>cm_role = ''user'', cm_content = ''how many?'', cm_name = [], cm_call_id = [], cm_calls = []\<rparr>,
      \<lparr>cm_role = ''assistant'', cm_content = [], cm_name = [], cm_call_id = [],
        cm_calls = [\<lparr>lc_id = ''c1'', lc_name = ''list_task'', lc_arguments = ''{}''\<rparr>,
                    \<lparr>lc_id = ''c2'', lc_name = ''list_user'', lc_arguments = []\<rparr>]\<rparr>,
      \<lparr>cm_role = ''tool'', cm_content = ''2'', cm_name = ''list_task'', cm_call_id = ''c1'', cm_calls = []\<rparr>,
      \<lparr>cm_role = ''tool'', cm_content = ''3'', cm_name = ''list_user'', cm_call_id = ''c2'', cm_calls = []\<rparr>]"

definition demo_request :: chat_request where
  "demo_request =
     \<lparr>rq_model = [], rq_messages = demo_conversation, rq_tools = [], rq_temperature = (0, 0), rq_max_tokens = 0,
      rq_format = None\<rparr>"

definition demo_anthropic :: anthropic where
  "demo_anthropic =
     new_anthropic_provider \<lparr>po_key = ''k'', po_model = ''m'', po_base_url = ''http://x/'', po_max_tokens = 0,
       po_auth = [], po_tools = None, po_structured = None\<rparr>"

lemma anthropic_results_follow_calls_witness:
  "results_follow [] (ar_messages (anthropic_build_request demo_anthropic demo_request False)) \<and>
   concat (map result_ids (ar_messages (anthropic_build_request demo_anthropic demo_request False))) = [''c1'', ''c2'']"
proof -
  have "answers_calls [] (rq_messages demo_request)"
    "\<forall>m \<in> set (rq_messages demo_request). cm_role m = ''system'' \<longrightarrow> cm_calls m = []"
    by (simp_all add: demo_request_def demo_conversation_def)
  moreover have "map cm_call_id (filter is_tool (rq_messages demo_request)) = [''c1'', ''c2'']" by code_simp
  ultimately show ?thesis using anthropic_results_follow_calls [of demo_request demo_anthropic False] by simp
qed

end
