(* ===== verification/Config.thy ===== *)
theory Config
  imports GoValue
begin

text \<open>
  The configuration of a site (\<open>config/config.go\<close>): its defaults, the environment variables it is bound
  to, and what \<open>Load\<close> accepts. The viper library is a parameter: it reads the file and merges
  environment, file and defaults into a configuration. So are \<open>%q\<close> (\<open>quote\<close>), the check that a file is there
  and the random source.
\<close>

section \<open>The configuration\<close>

definition env_development :: string where "env_development = ''development''"
definition env_production :: string where "env_production = ''production''"

record server_config =
  sv_port :: int
  sv_host :: string
  sv_cors :: "string list"

record database_config =
  db_driver :: string
  db_dsn :: string
  db_max_open :: int
  db_max_idle :: int

text \<open>Capabilities that are not configured are those of the adapter.\<close>

record llm_provider_config =
  lc_api_key :: string
  lc_model :: string
  lc_max_tokens :: int
  lc_base_url :: string
  lc_auth :: string
  lc_tools :: "bool option"
  lc_structured :: "bool option"

text \<open>\<open>ll_providers\<close> is nil or a map.\<close>

record llm_config =
  ll_default :: string
  ll_providers :: "(string \<times> llm_provider_config) list option"
  ll_max_bulk :: int

record config =
  cf_env :: string
  cf_server :: server_config
  cf_database :: database_config
  cf_jwt_secret :: string
  cf_llm :: llm_config

section \<open>Sources\<close>

definition config_defaults :: row where
  "config_defaults =
     [(''env'', VStr env_development),
      (''server.port'', VInt 8080),
      (''server.host'', VStr ''0.0.0.0''),
      (''server.cors_origins'', VStrs [''*'']),
      (''database.driver'', VStr ''sqlite''),
      (''database.dsn'', VStr ''orjanda.db''),
      (''database.max_open_conns'', VInt 25),
      (''database.max_idle_conns'', VInt 5),
      (''llm.default_provider'', VStr ''openai''),
      (''llm.providers.openai.model'', VStr ''gpt-4o''),
      (''llm.providers.openai.max_tokens'', VInt 4096),
      (''llm.providers.anthropic.model'', VStr ''claude-3-5-sonnet-20240620''),
      (''llm.providers.anthropic.max_tokens'', VInt 4096),
      (''llm.providers.openai_compatible.max_tokens'', VInt 4096),
      (''llm.safety.max_bulk_operations'', VInt 5)]"

definition env_bindings :: "(string \<times> string) list" where
  "env_bindings =
     [(''env'', ''ORJANDA_ENV''),
      (''llm.providers.openai.api_key'', ''ORJANDA_OPENAI_API_KEY''),
      (''llm.providers.anthropic.api_key'', ''ORJANDA_ANTHROPIC_API_KEY''),
      (''auth.jwt_secret'', ''ORJANDA_AUTH_JWT_SECRET'')]"

text \<open>
  \<open>vp_read\<close> is \<open>ReadInConfig\<close> (the error of a file that cannot be read); \<open>vp_unmarshal\<close> decodes what the file,
  if one was read, the environment under the prefix \<open>ORJANDA\<close> and the bindings, and the defaults give.
\<close>

record viper =
  vp_read :: "string \<Rightarrow> string option"
  vp_unmarshal :: "row \<Rightarrow> (string \<times> string) list \<Rightarrow> string option \<Rightarrow> string + config"

section \<open>The signing secret\<close>

definition min_jwt_secret_length :: nat where
  "min_jwt_secret_length = 32"

definition validate_jwt_secret :: "string \<Rightarrow> string option" where
  "validate_jwt_secret secret =
     (if secret = [] then
        Some ''auth.jwt_secret must be set (orjanda.yaml: auth.jwt_secret, or env ORJANDA_AUTH_JWT_SECRET)''
      else if length secret < min_jwt_secret_length then
        Some (''auth.jwt_secret must be at least '' @ itoa (int min_jwt_secret_length) @ '' characters'')
      else None)"

definition base64_digit :: "nat \<Rightarrow> char" where
  "base64_digit n =
     (if n < 26 then char_of (65 + n) else if n < 52 then char_of (71 + n) else if n < 62 then char_of (n - 4)
      else if n = 62 then CHR ''-'' else CHR ''_'')"

text \<open>\<open>base64.RawURLEncoding.EncodeToString\<close>: six bits a digit, no padding.\<close>

fun base64_url :: "string \<Rightarrow> string" where
  "base64_url (a # b # c # s) =
     (let n = (of_char a * 65536 + of_char b * 256 + of_char c :: nat)
      in base64_digit (n div 262144) # base64_digit (n div 4096 mod 64) # base64_digit (n div 64 mod 64) #
         base64_digit (n mod 64) # base64_url s)"
| "base64_url [a, b] =
     (let n = (of_char a * 256 + of_char b :: nat)
      in [base64_digit (n div 1024), base64_digit (n div 16 mod 64), base64_digit (4 * (n mod 16))])"
| "base64_url [a] = (let n = (of_char a :: nat) in [base64_digit (n div 4), base64_digit (16 * (n mod 4))])"
| "base64_url [] = []"

text \<open>\<open>rand\<close>: the bytes that \<open>crypto/rand\<close> gives, or none when it fails.\<close>

definition generate_dev_jwt_secret :: "string option \<Rightarrow> string" where
  "generate_dev_jwt_secret rand =
     (case rand of
        None \<Rightarrow> ''dev-only-'' @ itoa (int min_jwt_secret_length) @ ''-bytes''
      | Some bs \<Rightarrow> base64_url bs)"

section \<open>Load\<close>

definition validate_config :: "(string \<Rightarrow> string) \<Rightarrow> config \<Rightarrow> string option" where
  "validate_config quote c =
     (let dr = db_driver (cf_database c); port = sv_port (cf_server c) in
      if cf_env c = [] then Some ''config: env must not be empty''
      else if cf_env c \<noteq> env_development \<and> cf_env c \<noteq> env_production then
        Some (''config: ORJANDA_ENV '' @ quote (cf_env c) @ '' is not supported; choose '' @
              quote env_development @ '' or '' @ quote env_production)
      else if dr = [] then Some ''config: database.driver must not be empty''
      else if dr \<noteq> ''postgres'' \<and> dr \<noteq> ''sqlite'' then
        Some (''config: database.driver '' @ quote dr @ '' is not supported; choose postgres or sqlite'')
      else if port < 1 \<or> 65535 < port then
        Some (''config: server.port '' @ itoa port @ '' is out of range [1, 65535]'')
      else None)"

text \<open>The file to read, if any, or the error of reading it.\<close>

definition config_file :: "viper \<Rightarrow> (string \<Rightarrow> string) \<Rightarrow> bool \<Rightarrow> string \<Rightarrow> string + string option" where
  "config_file vp quote present file =
     (if file \<noteq> [] then
        (case vp_read vp file of
           Some e \<Rightarrow> Inl (''config: reading '' @ quote file @ '': '' @ e) | None \<Rightarrow> Inr (Some file))
      else if present then
        (case vp_read vp ''orjanda.yaml'' of
           Some e \<Rightarrow> Inl (''config: reading orjanda.yaml: '' @ e) | None \<Rightarrow> Inr (Some ''orjanda.yaml''))
      else Inr None)"

text \<open>The secret rule of the environment; the second result is the secret that was generated.\<close>

definition settle_secret :: "(string \<Rightarrow> string) \<Rightarrow> string option \<Rightarrow> config \<Rightarrow> string + (config \<times> string)" where
  "settle_secret quote rand c =
     (if cf_env c = env_development then
        (case validate_jwt_secret (cf_jwt_secret c) of
           None \<Rightarrow> Inr (c, [])
         | Some e \<Rightarrow> (let g = generate_dev_jwt_secret rand in Inr (c\<lparr>cf_jwt_secret := g\<rparr>, g)))
      else if cf_env c = env_production then
        (case validate_jwt_secret (cf_jwt_secret c) of
           None \<Rightarrow> Inr (c, [])
         | Some e \<Rightarrow> Inl (''config: '' @ e))
      else Inl (''config: unsupported ORJANDA_ENV '' @ quote (cf_env c)))"

definition load_config ::
    "viper \<Rightarrow> (string \<Rightarrow> string) \<Rightarrow> bool \<Rightarrow> string option \<Rightarrow> string \<Rightarrow> string + (config \<times> string)" where
  "load_config vp quote present rand file =
     (case config_file vp quote present file of
        Inl e \<Rightarrow> Inl e
      | Inr src \<Rightarrow>
          (case vp_unmarshal vp config_defaults env_bindings src of
             Inl e \<Rightarrow> Inl (''config: unmarshal: '' @ e)
           | Inr c \<Rightarrow>
               (case validate_config quote c of
                  Some e \<Rightarrow> Inl e
                | None \<Rightarrow> settle_secret quote rand c)))"

section \<open>What a loaded configuration guarantees\<close>

lemma base64_length: "length (base64_url bs) = length bs + (length bs + 2) div 3"
  by (induction bs rule: base64_url.induct) (simp_all add: Let_def)

lemma generated_length: "length (generate_dev_jwt_secret (Some bs)) = length bs + (length bs + 2) div 3"
  by (simp add: generate_dev_jwt_secret_def base64_length)

lemma validate_jwt_secret_iff: "validate_jwt_secret s = None \<longleftrightarrow> 32 \<le> length s"
  by (auto simp: validate_jwt_secret_def min_jwt_secret_length_def)

text \<open>C28: 
  A configuration that \<open>Load\<close> returns names one of the two environments and one of the two
  drivers, its port is one, and, with a random source that works, it signs with a secret of at least 32
  bytes. A production site never runs on a generated secret: the one it signs with was configured.
\<close>

theorem loaded_config_sound:
  assumes "load_config vp quote present (Some bs) file = Inr (c, g)" and "length bs = 32"
  shows "cf_env c \<in> {''development'', ''production''} \<and> db_driver (cf_database c) \<in> {''postgres'', ''sqlite''} \<and>
    1 \<le> sv_port (cf_server c) \<and> sv_port (cf_server c) \<le> 65535 \<and> 32 \<le> length (cf_jwt_secret c) \<and>
    (g \<noteq> [] \<longrightarrow> cf_env c = ''development'' \<and> cf_jwt_secret c = g) \<and>
    (g = [] \<longrightarrow> (\<exists>src. vp_unmarshal vp config_defaults env_bindings src = Inr c))"
proof -
  obtain src c0 where c0: "vp_unmarshal vp config_defaults env_bindings src = Inr c0"
    "validate_config quote c0 = None" "settle_secret quote (Some bs) c0 = Inr (c, g)"
    using assms(1) by (auto simp: load_config_def split: sum.splits option.splits)
  have v: "cf_env c0 \<in> {''development'', ''production''}" "db_driver (cf_database c0) \<in> {''postgres'', ''sqlite''}"
    "1 \<le> sv_port (cf_server c0)" "sv_port (cf_server c0) \<le> 65535"
    using c0(2) by (auto simp: validate_config_def Let_def env_development_def env_production_def split: if_splits)
  consider (kept) "c = c0" "g = []" "validate_jwt_secret (cf_jwt_secret c0) = None"
    | (made) "cf_env c0 = env_development" "g = generate_dev_jwt_secret (Some bs)" "c = c0\<lparr>cf_jwt_secret := g\<rparr>"
    using c0(3) by (auto simp: settle_secret_def Let_def split: if_splits option.splits)
  then show ?thesis
  proof cases
    case kept
    then show ?thesis using v c0(1) by (auto simp: validate_jwt_secret_iff)
  next
    case made
    then have "length g = 43" using assms(2) by (simp add: generated_length)
    then show ?thesis using made v by (auto simp: env_development_def)
  qed
qed

definition demo_config :: "string \<Rightarrow> string \<Rightarrow> config" where
  "demo_config env secret =
     \<lparr>cf_env = env,
      cf_server = \<lparr>sv_port = 8080, sv_host = ''0.0.0.0'', sv_cors = [''*'']\<rparr>,
      cf_database = \<lparr>db_driver = ''sqlite'', db_dsn = [], db_max_open = 25, db_max_idle = 5\<rparr>,
      cf_jwt_secret = secret,
      cf_llm = \<lparr>ll_default = ''openai'', ll_providers = None, ll_max_bulk = 5\<rparr>\<rparr>"

definition demo_viper :: viper where
  "demo_viper =
     \<lparr>vp_read = (\<lambda>f. None), vp_unmarshal = (\<lambda>ds bs f. Inr (demo_config env_development ''short''))\<rparr>"

lemma loaded_config_sound_witness:
  "\<exists>c. load_config demo_viper id False (Some (replicate 32 (CHR ''x''))) [] = Inr (c, cf_jwt_secret c) \<and>
     32 \<le> length (cf_jwt_secret c)"
proof -
  let ?g = "generate_dev_jwt_secret (Some (replicate 32 (CHR ''x'')))"
  let ?c = "demo_config env_development ?g"
  have l: "load_config demo_viper id False (Some (replicate 32 (CHR ''x''))) [] = Inr (?c, ?g)"
    by (simp add: load_config_def config_file_def demo_viper_def validate_config_def settle_secret_def
        validate_jwt_secret_def min_jwt_secret_length_def demo_config_def env_development_def Let_def)
  moreover have "32 \<le> length (cf_jwt_secret ?c)"
    using loaded_config_sound [OF l] by simp
  ultimately show ?thesis by (intro exI [of _ ?c]) (simp add: demo_config_def)
qed

text \<open>
  Without a random source the generated secret is one and the same for every site, and shorter than the
  minimum that a site checks for.
\<close>

lemma fallback_secret_refused: "validate_jwt_secret (generate_dev_jwt_secret None) \<noteq> None"
  by code_simp

end
