(* ===== verification/LlmAdapters.thy ===== *)
theory LlmAdapters
  imports OpenAI Anthropic Config
begin

text \<open>
  The provider that a configuration selects (\<open>agent/llm/config.go\<close>), and which failures of an adapter
  make the gateway fall over to the next provider.
\<close>

section \<open>The configured provider\<close>

datatype adapter = OpenAIAdapter openai | AnthropicAdapter anthropic

definition auth_mode_from_config :: "(string \<Rightarrow> string) \<Rightarrow> string \<Rightarrow> string \<Rightarrow> string + string" where
  "auth_mode_from_config quote name value =
     (let v = to_lower (trim_space value) in
      if v \<in> {[], ''bearer'', ''bearer_if_key'', ''none''} then Inr v
      else Inl (''config: llm.providers.'' @ name @ ''.auth '' @ quote value @ '' is not supported; choose '' @
                quote ''bearer'' @ '', '' @ quote ''bearer_if_key'' @ '', or '' @ quote ''none''))"

definition options_from_config :: "llm_provider_config \<Rightarrow> string \<Rightarrow> string \<Rightarrow> provider_options" where
  "options_from_config p model auth =
     \<lparr>po_key = lc_api_key p, po_model = (if model \<noteq> [] then model else lc_model p), po_base_url = lc_base_url p,
      po_max_tokens = lc_max_tokens p, po_auth = auth, po_tools = lc_tools p, po_structured = lc_structured p\<rparr>"

text \<open>\<open>url_parts\<close> is \<open>url.Parse\<close>, \<open>quote\<close> is \<open>%q\<close>.\<close>

definition provider_from_config ::
    "(string \<Rightarrow> (string \<times> string) option) \<Rightarrow> (string \<Rightarrow> string) \<Rightarrow> config option \<Rightarrow> string \<Rightarrow> string + adapter" where
  "provider_from_config url_parts quote cfg model =
     (case cfg of
        None \<Rightarrow> Inl ''llm: nil config''
      | Some c \<Rightarrow>
          (let name = (if ll_default (cf_llm c) = [] then ''openai'' else ll_default (cf_llm c)) in
           case map_of (case ll_providers (cf_llm c) of Some ps \<Rightarrow> ps | None \<Rightarrow> []) name of
             None \<Rightarrow> Inl (''config: llm.providers.'' @ name @ '' is not configured'')
           | Some p \<Rightarrow>
               (case auth_mode_from_config quote name (lc_auth p) of
                  Inl e \<Rightarrow> Inl e
                | Inr auth \<Rightarrow>
                    (let o1 = options_from_config p model auth in
                     if name = ''openai'' then Inr (OpenAIAdapter (new_openai_provider o1))
                     else if name = ''anthropic'' then Inr (AnthropicAdapter (new_anthropic_provider o1))
                     else if name = ''openai_compatible'' then
                       (case new_openai_compatible_provider url_parts quote o1 of
                          Inl e \<Rightarrow> Inl e | Inr p \<Rightarrow> Inr (OpenAIAdapter p))
                     else Inl (''config: unsupported llm provider '' @ quote name)))))"

definition adapter_provider ::
    "(int \<Rightarrow> string) \<Rightarrow> (string \<Rightarrow> string) \<Rightarrow> 's transport \<Rightarrow> adapter \<Rightarrow> 's provider" where
  "adapter_provider jt jm tr a =
     (case a of
        OpenAIAdapter p \<Rightarrow> openai_provider jt jm tr p
      | AnthropicAdapter p \<Rightarrow> anthropic_provider jt jm tr p)"

section \<open>Failover\<close>

text \<open>URL, headers and body of the request of an adapter.\<close>

definition adapter_call ::
    "(int \<Rightarrow> string) \<Rightarrow> adapter \<Rightarrow> chat_request \<Rightarrow> bool \<Rightarrow> string \<times> (string \<times> string) list \<times> string" where
  "adapter_call jt a rq stream =
     (case a of
        OpenAIAdapter p \<Rightarrow>
          (oa_base_url p @ ''/chat/completions'', openai_headers p @ json_header,
           openai_request_json jt (openai_build_request p rq stream))
      | AnthropicAdapter p \<Rightarrow>
          (an_base_url p @ ''/v1/messages'', anthropic_headers p @ json_header,
           anthropic_request_json jt (anthropic_build_request p rq stream)))"

definition endpoint_answer ::
    "(int \<Rightarrow> string) \<Rightarrow> 's transport \<Rightarrow> adapter \<Rightarrow> chat_request \<Rightarrow> bool \<Rightarrow> 's \<Rightarrow> string + wire_response" where
  "endpoint_answer jt tr a rq stream s =
     (case adapter_call jt a rq stream of (url, hs, body) \<Rightarrow> fst (tr ''POST'' url hs body s))"

definition server_failure :: "string + wire_response \<Rightarrow> bool" where
  "server_failure r = (case r of Inl e \<Rightarrow> False | Inr w \<Rightarrow> 500 \<le> wr_status w)"

text \<open>A failed exchange: the error an adapter wraps, and whether the endpoint answered with a server failure.\<close>

lemma do_json_failure:
  assumes "do_json tr jm url hs body dec s = (Inl e, t)"
  shows "is_failover_error (llm_internal m (Some e)) \<longleftrightarrow> server_failure (fst (tr ''POST'' url (hs @ json_header) body s))"
  using assms
  by (cases rule: do_json_cases)
    (auto simp: server_failure_def success_status_def dest: decode_body_no_failover [OF sym])

lemma do_json_answer:
  assumes "do_json tr jm url hs body dec s = (Inr x, t)"
  shows "\<not> server_failure (fst (tr ''POST'' url (hs @ json_header) body s))"
  using assms by (cases rule: do_json_cases) (auto simp: server_failure_def success_status_def)

lemma open_stream_failure:
  assumes "open_stream tr url hs body s = (Inl e, t)"
  shows "is_failover_error (llm_internal m (Some e)) \<longleftrightarrow> server_failure (fst (tr ''POST'' url (hs @ json_header) body s))"
  using assms by (auto simp: open_stream_def server_failure_def success_status_def split: prod.splits sum.splits if_splits)

lemma openai_chat_failover:
  assumes "openai_chat jt jm tr p rq s = (Inl e, t)"
  shows "is_failover_error e \<longleftrightarrow> server_failure (endpoint_answer jt tr (OpenAIAdapter p) rq False s)"
  using assms
  by (auto simp: openai_chat_def endpoint_answer_def adapter_call_def do_json_failure do_json_answer
      split: prod.splits sum.splits option.splits simp del: failover_internal)
    (simp_all add: do_json_failure do_json_answer)

lemma anthropic_chat_failover:
  assumes "anthropic_chat jt jm tr p rq s = (Inl e, t)"
  shows "is_failover_error e \<longleftrightarrow> server_failure (endpoint_answer jt tr (AnthropicAdapter p) rq False s)"
  using assms
  by (auto simp: anthropic_chat_def endpoint_answer_def adapter_call_def do_json_failure do_json_answer
      split: prod.splits sum.splits option.splits simp del: failover_internal)
    (simp_all add: do_json_failure do_json_answer)

text \<open>C26: 
  An adapter's error makes the gateway try the next provider exactly when the endpoint answered with a
  status of 500 or more. In particular a connection that fails, a refusal with a 4xx status, a body that does not
  decode and an error in the body end the call, for a chat and for a stream alike.
\<close>

theorem adapter_failover:
  assumes "lp_chat (adapter_provider jt jm tr a) rq s = (Inl e, t)"
    and "lp_stream (adapter_provider jt jm tr a) rq s' = (Inl e', t')"
  shows "is_failover_error e = server_failure (endpoint_answer jt tr a rq False s) \<and>
    is_failover_error e' = server_failure (endpoint_answer jt tr a rq True s')"
proof (cases a)
  case (OpenAIAdapter p)
  have "openai_stream jt jm tr p rq s' = (Inl e', t')" "openai_chat jt jm tr p rq s = (Inl e, t)"
    using assms OpenAIAdapter by (simp_all add: adapter_provider_def openai_provider_def)
  then show ?thesis
    using OpenAIAdapter openai_chat_failover [of jt jm tr p rq s e t]
    by (auto simp: openai_stream_def endpoint_answer_def adapter_call_def open_stream_failure
        split: prod.splits sum.splits simp del: failover_internal)
next
  case (AnthropicAdapter p)
  have "anthropic_stream jt jm tr p rq s' = (Inl e', t')" "anthropic_chat jt jm tr p rq s = (Inl e, t)"
    using assms AnthropicAdapter by (simp_all add: adapter_provider_def anthropic_provider_def)
  then show ?thesis
    using AnthropicAdapter anthropic_chat_failover [of jt jm tr p rq s e t]
    by (auto simp: anthropic_stream_def endpoint_answer_def adapter_call_def open_stream_failure
        split: prod.splits sum.splits simp del: failover_internal)
qed

definition down :: "int \<Rightarrow> unit transport" where
  "down n = (\<lambda>meth url hs body s. (Inr \<lparr>wr_status = n, wr_body = ''down'', wr_error = None\<rparr>, s))"

lemma down_calls:
  assumes "success_status n = False"
  shows "\<exists>e. lp_chat (adapter_provider jt jm (down n) (AnthropicAdapter p)) rq () = (Inl e, ())"
    and "\<exists>e. lp_stream (adapter_provider jt jm (down n) (AnthropicAdapter p)) rq () = (Inl e, ())"
  using assms
  by (simp_all add: adapter_provider_def anthropic_provider_def anthropic_chat_def anthropic_stream_def do_json_def
      open_stream_def down_def)

lemma adapter_failover_witness:
  "\<exists>e e'. lp_chat (adapter_provider itoa id (down 503) (AnthropicAdapter demo_anthropic)) demo_request () = (Inl e, ()) \<and>
     lp_stream (adapter_provider itoa id (down 503) (AnthropicAdapter demo_anthropic)) demo_request () = (Inl e', ()) \<and>
     is_failover_error e \<and> is_failover_error e'"
proof -
  have "success_status 503 = False" by (simp add: success_status_def)
  then obtain e e' where
      c: "lp_chat (adapter_provider itoa id (down 503) (AnthropicAdapter demo_anthropic)) demo_request () = (Inl e, ())"
      "lp_stream (adapter_provider itoa id (down 503) (AnthropicAdapter demo_anthropic)) demo_request () = (Inl e', ())"
    using down_calls by blast
  have "server_failure (endpoint_answer itoa (down 503) (AnthropicAdapter demo_anthropic) demo_request st ())" for st
    by (simp add: server_failure_def endpoint_answer_def adapter_call_def down_def)
  then show ?thesis using adapter_failover [OF c] c by blast
qed

end
