(* ===== verification/JsonRoundtrip.thy ===== *)
theory JsonRoundtrip
  imports Json
begin

text \<open>
  What \<open>json.Unmarshal\<close> reads back from what \<open>json.Marshal\<close> wrote, on the texts: numbers become float64,
  the members of an object come back in key order, a time as its text.
\<close>

fun json_read :: "(int \<Rightarrow> string) \<Rightarrow> val \<Rightarrow> val"
  and json_read_kvs :: "(int \<Rightarrow> string) \<Rightarrow> (string \<times> val) list \<Rightarrow> (string \<times> val) list" where
  "json_read jt (VInt i) = float_val i 0"
| "json_read jt (VInt64 i) = float_val i 0"
| "json_read jt (VFloat m e) = float_val m e"
| "json_read jt (VStrs ss) = VList (map VStr ss)"
| "json_read jt (VMap kvs) = VMap (sort_key fst (json_read_kvs jt kvs))"
| "json_read jt (VList vs) = VList (map (json_read jt) vs)"
| "json_read jt (VTime t) = VStr (jt t)"
| "json_read jt VNil = VNil"
| "json_read jt (VStr s) = VStr s"
| "json_read jt (VBool b) = VBool b"
| "json_read_kvs jt [] = []"
| "json_read_kvs jt ((k, v) # kvs) = (k, json_read jt v) # json_read_kvs jt kvs"

text \<open>A Go map has each key once.\<close>

fun wf_val :: "val \<Rightarrow> bool" where
  "wf_val (VMap kvs) \<longleftrightarrow> distinct (map fst kvs) \<and> list_all (\<lambda>(k, v). wf_val v) kvs"
| "wf_val (VList vs) = list_all wf_val vs"
| "wf_val v = True"

section \<open>Strings\<close>

lemma hex_value_digit: "d < 16 \<Longrightarrow> hex_value (hex_digit d) = Some (int d)"
proof -
  have "list_all (\<lambda>d. hex_value (hex_digit d) = Some (int d)) [0..<16]" by code_simp
  then show "d < 16 \<Longrightarrow> hex_value (hex_digit d) = Some (int d)" by (simp add: list_all_iff)
qed

definition short_escapes :: "nat list" where
  "short_escapes = [34, 92, 8, 12, 10, 13, 9]"

lemma control_chars:
  "char_of (8 :: nat) = CHR 0x08" "char_of (12 :: nat) = CHR 0x0C" "char_of (10 :: nat) = CHR 0x0A"
  "char_of (13 :: nat) = CHR 0x0D" "char_of (9 :: nat) = CHR 0x09"
  by code_simp+

lemma short_escape:
  assumes "of_char c \<in> set short_escapes"
  shows "\<exists>d. json_char c = [CHR 0x5C, d] \<and> d \<noteq> CHR ''u'' \<and> simple_escape d = Some [c]"
proof -
  have eq: "c = d" if "of_char c = (of_char d :: nat)" for d using that by (metis char_of_char)
  have "c \<in> {CHR 0x22, CHR 0x5C, CHR 0x08, CHR 0x0C, CHR 0x0A, CHR 0x0D, CHR 0x09}"
    using assms eq [of "CHR 0x22"] eq [of "CHR 0x5C"] eq [of "CHR 0x08"] eq [of "CHR 0x0C"] eq [of "CHR 0x0A"]
      eq [of "CHR 0x0D"] eq [of "CHR 0x09"]
    by (simp add: short_escapes_def) argo
  then show ?thesis
    by (elim insertE emptyE; hypsubst; simp add: json_char_def Let_def simple_escape_def control_chars)
qed

lemma json_char_cases:
  obtains (plain) "json_char c = [c]" "c \<noteq> CHR 0x22" "c \<noteq> CHR 0x5C" "32 \<le> (of_char c :: nat)"
  | (short) d where "json_char c = [CHR 0x5C, d]" "d \<noteq> CHR ''u''" "simple_escape d = Some [c]"
  | (long) "json_char c = [CHR 0x5C, CHR ''u'', CHR ''0'', CHR ''0'', hex_digit (of_char c div 16), hex_digit (of_char c mod 16)]"
      "(of_char c :: nat) < 128"
proof -
  let ?n = "of_char c :: nat"
  consider "?n \<in> set short_escapes" | "?n \<notin> set short_escapes" "?n < 32 \<or> ?n = 60 \<or> ?n = 62 \<or> ?n = 38"
    | "?n \<notin> set short_escapes" "32 \<le> ?n" "?n \<noteq> 60" "?n \<noteq> 62" "?n \<noteq> 38" by linarith
  then show thesis
  proof cases
    case 1
    with short short_escape show ?thesis by blast
  next
    case 2
    show ?thesis by (rule long) (use 2 in \<open>auto simp: json_char_def short_escapes_def Let_def\<close>)
  next
    case 3
    show ?thesis by (rule plain) (use 3 in \<open>auto simp: json_char_def short_escapes_def Let_def\<close>)
  qed
qed

lemma utf8_byte: "(of_char c :: nat) < 128 \<Longrightarrow> utf8 (int (of_char c)) = [c]"
  by (simp add: utf8_def)

lemma json_string_char:
  "json_string (Suc k) (json_char c @ u) = map_option (\<lambda>(t, r). (c # t, r)) (json_string k u)"
proof (cases c rule: json_char_cases)
  case plain
  then show ?thesis by simp
next
  case (short d)
  then show ?thesis by simp
next
  case long
  let ?n = "of_char c :: nat"
  have h: "hex_value (hex_digit (?n div 16)) = Some (int (?n div 16))" "hex_value (hex_digit (?n mod 16)) = Some (int (?n mod 16))"
    using long(2) by (simp_all add: hex_value_digit)
  have z: "hex_value (CHR ''0'') = Some 0" by (simp add: hex_value_def Let_def)
  have "16 * int (?n div 16) + int (?n mod 16) = int ?n" by presburger
  then have "hex4 (CHR ''0'' # CHR ''0'' # hex_digit (?n div 16) # hex_digit (?n mod 16) # u) = Some (int ?n, u)"
    using h z by simp
  then have "unicode_escape (CHR ''0'' # CHR ''0'' # hex_digit (?n div 16) # hex_digit (?n mod 16) # u) = Some ([c], u)"
    using long(2) by (simp add: unicode_escape_def high_surrogate_def low_surrogate_def utf8_byte)
  then show ?thesis using long(1) by simp
qed

lemma json_string_text:
  "length s < k \<Longrightarrow> json_string k (concat (map json_char s) @ CHR 0x22 # r) = Some (s, r)"
proof (induction s arbitrary: k)
  case Nil
  then show ?case by (cases k) simp_all
next
  case (Cons c s)
  then obtain k' where "k = Suc k'" "length s < k'" by (cases k) auto
  with Cons.IH [of k'] show ?case using json_string_char [of k' c] by simp
qed

lemma json_char_length: "1 \<le> length (json_char c)"
  by (cases c rule: json_char_cases) simp_all

lemma json_str_length: "length s + 2 \<le> length (json_str s)"
proof -
  have "length s \<le> length (concat (map json_char s))"
    by (induction s) (auto intro: add_mono json_char_length [unfolded One_nat_def, THEN Suc_leD] order.trans [OF _ add_mono [OF json_char_length]])
  then show ?thesis by (simp add: json_str_def)
qed

section \<open>Numbers\<close>

definition value_end :: "string \<Rightarrow> bool" where
  "value_end r \<longleftrightarrow> r = [] \<or> hd r = CHR '','' \<or> hd r = CHR '']'' \<or> hd r = CHR ''}''"

definition no_digit :: "string \<Rightarrow> bool" where
  "no_digit r \<longleftrightarrow> r = [] \<or> \<not> is_digit (hd r)"

lemma digits_split: "list_all is_digit ds \<Longrightarrow> no_digit r \<Longrightarrow> digits_prefix (ds @ r) = (ds, r)"
  by (induction ds) (cases r; auto simp: digits_prefix_def no_digit_def)+

lemma nat_digits_digits: "list_all is_digit (nat_digits n)"
proof (induction n rule: nat_digits.induct)
  case (1 n)
  have d: "is_digit (char_of (48 + k))" if "k < 10" for k :: nat
    using that by (simp add: is_digit_def Let_def)
  show ?case using 1 d [of n] d [of "n mod 10"] by (subst nat_digits.simps) simp
qed

lemma nat_of_digits_snoc: "nat_of_digits (ds @ [c]) = 10 * nat_of_digits ds + (of_char c - 48)"
  by (simp add: nat_of_digits_def)

lemma nat_of_digits_nat: "nat_of_digits (nat_digits n) = int n"
proof (induction n rule: nat_digits.induct)
  case (1 n)
  have d: "of_char (char_of (48 + k)) - 48 = int k" if "k < 10" for k :: nat
  proof -
    have "of_char (char_of (48 + k) :: char) = int (of_char (char_of (48 + k) :: char))"
      by (rule of_nat_of_char [symmetric])
    also have "\<dots> = int (48 + k)" using that by simp
    finally show ?thesis by simp
  qed
  show ?case
  proof (cases "n < 10")
    case True
    then show ?thesis using d [of n] by (subst nat_digits.simps) (simp add: nat_of_digits_def)
  next
    case False
    then have "nat_of_digits (nat_digits n) = 10 * int (n div 10) + int (n mod 10)"
      using 1 d [of "n mod 10"] by (subst nat_digits.simps) (simp add: nat_of_digits_snoc)
    also have "\<dots> = int n" by presburger
    finally show ?thesis .
  qed
qed

lemma nat_digits_hd: "0 < n \<Longrightarrow> hd (nat_digits n) \<noteq> CHR ''0''"
proof (induction n rule: nat_digits.induct)
  case (1 n)
  show ?case
  proof (cases "n < 10")
    case True
    have "of_char (char_of (48 + n) :: char) \<noteq> (of_char (CHR ''0'') :: nat)" using True 1(2) by simp
    then have "char_of (48 + n) \<noteq> CHR ''0''" by metis
    then show ?thesis using True by (subst nat_digits.simps) simp
  next
    case False
    then show ?thesis using 1 by (subst nat_digits.simps) simp
  qed
qed

lemma nat_of_zeros: "nat_of_digits (replicate k (CHR ''0'') @ ds) = nat_of_digits ds"
  by (induction k) (simp_all add: nat_of_digits_def)

lemma nat_of_trailing: "nat_of_digits (ds @ replicate k (CHR ''0'')) = nat_of_digits ds * 10 ^ k"
proof (induction k)
  case (Suc k)
  have "ds @ replicate (Suc k) (CHR ''0'') = (ds @ replicate k (CHR ''0'')) @ [CHR ''0'']"
    by (simp add: replicate_append_same)
  then show ?case using Suc by (simp only: nat_of_digits_snoc) simp
qed simp

lemma norm_float_shift: "norm_float (m * 10 ^ k) e = norm_float m (e + int k)"
proof (induction k arbitrary: e)
  case (Suc k)
  show ?case
  proof (cases "m = 0")
    case True
    then show ?thesis by (simp add: norm_float.simps)
  next
    case False
    have "norm_float (m * 10 ^ Suc k) e = norm_float (m * 10 ^ k) (e + 1)"
      using False by (subst norm_float.simps) simp
    then show ?thesis using Suc [of "e + 1"] by (simp add: algebra_simps)
  qed
qed simp

lemma float_val_shift: "float_val (m * 10 ^ k) e = float_val m (e + int k)"
  by (simp add: float_val_def norm_float_shift)

lemma float_val_zero: "float_val 0 e = VFloat 0 0"
  by (simp add: float_val_def norm_float.simps)

text \<open>The value of a number from its parts.\<close>

definition sign_text :: "bool \<Rightarrow> string" where
  "sign_text neg = (if neg then ''-'' else [])"

definition exp_text :: "(bool \<times> string) option \<Rightarrow> string" where
  "exp_text x = (case x of None \<Rightarrow> [] | Some (neg, ds) \<Rightarrow> CHR ''e'' # (if neg then CHR ''-'' else CHR ''+'') # ds)"

definition exp_value :: "(bool \<times> string) option \<Rightarrow> int" where
  "exp_value x = (case x of None \<Rightarrow> 0 | Some (neg, ds) \<Rightarrow> if neg then - nat_of_digits ds else nat_of_digits ds)"

definition frac_text :: "string \<Rightarrow> string" where
  "frac_text fp = (if fp = [] then [] else CHR ''.'' # fp)"

lemma value_end_simps:
  "value_end r \<Longrightarrow> no_digit r" "value_end r \<Longrightarrow> r \<noteq> [] \<Longrightarrow> hd r \<noteq> CHR ''.'' \<and> hd r \<noteq> CHR ''e'' \<and> hd r \<noteq> CHR ''E''"
  by (auto simp: value_end_def no_digit_def is_digit_def)

lemma json_number_parts:
  assumes ip: "list_all is_digit ip" "ip \<noteq> []" "length ip = 1 \<or> hd ip \<noteq> CHR ''0''"
    and fp: "list_all is_digit fp"
    and ex: "\<And>n ds. ex = Some (n, ds) \<Longrightarrow> list_all is_digit ds \<and> ds \<noteq> []"
    and r: "value_end r"
  shows "json_number (sign_text neg @ ip @ frac_text fp @ exp_text ex @ r) =
    Some (float_val (if neg then - nat_of_digits (ip @ fp) else nat_of_digits (ip @ fp)) (exp_value ex - int (length fp)), r)"
proof -
  let ?t2 = "exp_text ex @ r" and ?t1 = "frac_text fp @ exp_text ex @ r"
  have hdip: "hd ip \<noteq> CHR ''-''" using ip(1,2) by (cases ip) (auto simp: is_digit_def)
  have nd1: "no_digit ?t1" and nd2: "no_digit ?t2"
    using value_end_simps(1) [OF r] by (auto simp: frac_text_def exp_text_def no_digit_def is_digit_def split: option.splits)
  have p0: "(case sign_text neg @ ip @ ?t1 of c # t \<Rightarrow> if c = CHR ''-'' then (True, t) else (False, sign_text neg @ ip @ ?t1)
      | [] \<Rightarrow> (False, sign_text neg @ ip @ ?t1)) = (neg, ip @ ?t1)"
    using hdip ip(2) by (cases ip) (auto simp: sign_text_def)
  have p1: "digits_prefix (ip @ ?t1) = (ip, ?t1)" by (rule digits_split [OF ip(1) nd1])
  have hd2: "?t2 \<noteq> [] \<Longrightarrow> hd ?t2 \<noteq> CHR ''.''"
    using value_end_simps(2) [OF r] by (auto simp: exp_text_def split: option.splits)
  have p2: "(case ?t1 of c # t \<Rightarrow> if c = CHR ''.'' then Some (digits_prefix t) else None | [] \<Rightarrow> None) =
      (if fp = [] then None else Some (fp, ?t2))"
    using digits_split [OF fp nd2] hd2 by (cases ?t2) (auto simp: frac_text_def)
  have p3: "(case (if fp = [] then None else Some (fp, ?t2)) of Some (d, t) \<Rightarrow> (d, t) | None \<Rightarrow> ([], ?t1)) = (fp, ?t2)"
    by (simp add: frac_text_def)
  have p4: "(case ?t2 of
        c # t \<Rightarrow>
          if c = CHR ''e'' \<or> c = CHR ''E''
          then (case t of
                  g # u \<Rightarrow> if g = CHR ''+'' then Some (False, digits_prefix u)
                          else if g = CHR ''-'' then Some (True, digits_prefix u)
                          else Some (False, digits_prefix t)
                | [] \<Rightarrow> Some (False, ([], [])))
          else None
      | [] \<Rightarrow> None) = map_option (\<lambda>(n, ds). (n, ds, r)) ex"
  proof (cases ex)
    case None
    then show ?thesis using value_end_simps(2) [OF r] by (cases r) (auto simp: exp_text_def)
  next
    case (Some x)
    then obtain n ds where x: "ex = Some (n, ds)" by (cases x) auto
    then have "digits_prefix (ds @ r) = (ds, r)"
      using digits_split [OF _ value_end_simps(1) [OF r]] ex by blast
    then show ?thesis using x by (simp add: exp_text_def)
  qed
  have ev: "(case map_option (\<lambda>(n, ds). (n, ds, r)) ex of Some (n, (d, t)) \<Rightarrow> (n, d, t) | None \<Rightarrow> (False, ''0'', ?t2)) =
      (case ex of None \<Rightarrow> (False, ''0'', r) | Some (n, ds) \<Rightarrow> (n, ds, r))"
    by (auto simp: exp_text_def split: option.splits)
  have z: "nat_of_digits ''0'' = 0" by (simp add: nat_of_digits_def)
  show ?thesis
    unfolding json_number_def p0 Let_def case_prod_conv p1 p2 p3 p4 ev
    using ip ex z by (cases ex) (auto simp: exp_value_def)
qed

lemma zero_digits: "nat_digits 0 = ''0''"
  by code_simp

lemma json_number_nat:
  assumes "value_end r"
  shows "json_number (sign_text neg @ nat_digits n @ r) = Some (float_val (if neg then - int n else int n) 0, r)"
proof -
  have "length (nat_digits n) = 1 \<or> hd (nat_digits n) \<noteq> CHR ''0''"
    using nat_digits_hd [of n] by (cases "n = 0") (auto simp: zero_digits)
  from json_number_parts [OF nat_digits_digits [of n] nat_digits_nonempty this, of "[]" None r neg]
  show ?thesis using assms by (simp add: frac_text_def exp_text_def exp_value_def nat_of_digits_nat)
qed

lemma itoa_text: "itoa i = sign_text (i < 0) @ nat_digits (nat \<bar>i\<bar>)"
  by (simp add: itoa_def sign_text_def)

lemma json_number_int: "value_end r \<Longrightarrow> json_number (itoa i @ r) = Some (float_val i 0, r)"
  using json_number_nat [of r "i < 0" "nat \<bar>i\<bar>"] by (simp add: itoa_text split: if_splits)

lemma zero_is_digit: "is_digit (CHR ''0'')"
  by (simp add: is_digit_def)

lemma json_number_float:
  assumes r: "value_end r"
  shows "json_number (json_float m e @ r) = Some (float_val m e, r)"
proof (cases "m = 0")
  case True
  then show ?thesis
    using json_number_nat [OF r, of False 0] by (simp add: json_float_def sign_text_def zero_digits float_val_zero)
next
  case False
  define ds where "ds = nat_digits (nat \<bar>m\<bar>)"
  define nd where "nd = int (length ds)"
  define dp where "dp = nd + e"
  define x where "x = dp - 1"
  have dsd: "list_all is_digit ds" "ds \<noteq> []" by (simp_all add: ds_def nat_digits_digits)
  have hd0: "hd ds \<noteq> CHR ''0''" using nat_digits_hd [of "nat \<bar>m\<bar>"] False by (simp add: ds_def)
  have val: "nat_of_digits ds = \<bar>m\<bar>" by (simp add: ds_def nat_of_digits_nat)
  have it: "itoa \<bar>m\<bar> = ds" by (simp add: itoa_text sign_text_def ds_def)
  have sg: "(if m < 0 then ''-'' else []) = sign_text (m < 0)" by (simp add: sign_text_def)
  have sv: "(if m < 0 then - (\<bar>m\<bar> * y) else \<bar>m\<bar> * y) = m * y" for y :: int by simp
  have dss: "ds = hd ds # tl ds" using dsd(2) by simp
  have jf: "json_float m e = sign_text (m < 0) @
      (if x < -6 \<or> 21 \<le> x
       then [hd ds] @ (if nd = 1 then [] else CHR ''.'' # tl ds) @
            CHR ''e'' # (if x < 0 then CHR ''-'' else CHR ''+'') # itoa \<bar>x\<bar>
       else if dp \<le> 0 then ''0.'' @ replicate (nat (- dp)) (CHR ''0'') @ ds
       else if nd \<le> dp then ds @ replicate (nat (dp - nd)) (CHR ''0'')
       else take (nat dp) ds @ CHR ''.'' # drop (nat dp) ds)"
    using False by (simp only: json_float_def Let_def it sg x_def dp_def nd_def if_False)
  note parts = json_number_parts [OF _ _ _ _ _ r, where neg = "m < 0"]
  consider (exp) "x < -6 \<or> 21 \<le> x" | (small) "\<not> (x < -6 \<or> 21 \<le> x)" "dp \<le> 0"
    | (whole) "\<not> (x < -6 \<or> 21 \<le> x)" "0 < dp" "nd \<le> dp" | (point) "\<not> (x < -6 \<or> 21 \<le> x)" "0 < dp" "dp < nd" by linarith
  then show ?thesis
  proof cases
    case exp
    define ex where "ex = Some (x < 0, nat_digits (nat \<bar>x\<bar>))"
    have tx: "json_float m e = sign_text (m < 0) @ [hd ds] @ frac_text (tl ds) @ exp_text ex"
    proof -
      have "itoa \<bar>x\<bar> = nat_digits (nat \<bar>x\<bar>)" by (simp add: itoa_text sign_text_def)
      moreover have "(nd = 1) = (tl ds = [])" using dss by (cases ds) (auto simp: nd_def)
      ultimately show ?thesis
        unfolding jf if_P [OF exp] by (simp add: frac_text_def exp_text_def ex_def)
    qed
    have "exp_value ex - int (length (tl ds)) = e"
      by (simp add: ex_def exp_value_def nat_of_digits_nat x_def dp_def nd_def)
        (use dss in \<open>cases ds; simp\<close>)
    moreover have "nat_of_digits ([hd ds] @ tl ds) = \<bar>m\<bar>" using val dss by simp
    moreover have "list_all is_digit [hd ds]" "list_all is_digit (tl ds)"
      using dsd by (cases ds; simp)+
    ultimately show ?thesis
      using parts [of "[hd ds]" "tl ds" ex] sv [of 1] by (simp add: tx ex_def nat_digits_digits)
  next
    case small
    let ?fp = "replicate (nat (- dp)) (CHR ''0'') @ ds"
    have tx: "json_float m e = sign_text (m < 0) @ ''0'' @ frac_text ?fp @ exp_text None"
      using small dsd(2) unfolding jf if_not_P [OF small(1)] by (simp add: frac_text_def exp_text_def)
    have "nat_of_digits (''0'' @ ?fp) = \<bar>m\<bar>"
      using nat_of_zeros [of 1 ?fp] by (simp add: nat_of_zeros val)
    moreover have "exp_value None - int (length ?fp) = e" using small(2) by (simp add: exp_value_def dp_def nd_def)
    moreover have "list_all is_digit ?fp" "list_all is_digit ''0''" using dsd by (auto simp: list_all_iff zero_is_digit)
    ultimately show ?thesis
      using parts [of "''0''" ?fp None] sv [of 1] by (simp add: tx)
  next
    case whole
    let ?ip = "ds @ replicate (nat (dp - nd)) (CHR ''0'')"
    have tx: "json_float m e = sign_text (m < 0) @ ?ip @ frac_text [] @ exp_text None"
      using whole unfolding jf if_not_P [OF whole(1)] by (simp add: frac_text_def exp_text_def)
    have "list_all is_digit ?ip" "?ip \<noteq> []" "hd ?ip \<noteq> CHR ''0''"
      using dsd hd0 by (auto simp: list_all_iff zero_is_digit)
    moreover have "nat_of_digits (?ip @ []) = \<bar>m\<bar> * 10 ^ nat e"
      using whole(3) by (simp add: nat_of_trailing val dp_def)
    moreover have "float_val (m * 10 ^ nat e) 0 = float_val m e"
      using whole(3) float_val_shift [of m "nat e" 0] by (simp add: dp_def)
    ultimately show ?thesis
      using parts [of ?ip "[]" None] sv [of "10 ^ nat e"] by (simp add: tx exp_value_def)
  next
    case point
    let ?ip = "take (nat dp) ds" and ?fp = "drop (nat dp) ds"
    have tx: "json_float m e = sign_text (m < 0) @ ?ip @ frac_text ?fp @ exp_text None"
      using point unfolding jf if_not_P [OF point(1)] by (auto simp: frac_text_def exp_text_def nd_def)
    have "list_all is_digit ?ip" "list_all is_digit ?fp" using dsd by (auto simp: list_all_iff dest: in_set_takeD in_set_dropD)
    moreover have "?ip \<noteq> []" "hd ?ip \<noteq> CHR ''0''" using point(2) dsd(2) hd0 by (simp_all add: hd_take)
    moreover have "nat_of_digits (?ip @ ?fp) = \<bar>m\<bar>" by (simp add: val)
    moreover have "exp_value None - int (length ?fp) = e" using point by (simp add: exp_value_def dp_def nd_def)
    ultimately show ?thesis
      using parts [of ?ip ?fp None] sv [of 1] by (simp add: tx)
  qed
qed

section \<open>Values\<close>

lemma encode_kvs_map: "json_encode_kvs jt kvs = map (\<lambda>(k, v). (k, json_encode jt v)) kvs"
  by (induction kvs) auto

lemma encodes_map: "json_encodes jt vs = map (json_encode jt) vs"
  by (induction vs) auto

lemma read_kvs_map: "json_read_kvs jt kvs = map (\<lambda>(k, v). (k, json_read jt v)) kvs"
  by (induction kvs) auto

lemma insort_fst_map:
  "insort_key fst (k, f v) (map (\<lambda>(k, v). (k, f v)) xs) = map (\<lambda>(k, v). (k, f v)) (insort_key fst (k, v) xs)"
  by (induction xs) auto

lemma sort_fst_map: "sort_key fst (map (\<lambda>(k, v). (k, f v)) xs) = map (\<lambda>(k, v). (k, f v)) (sort_key fst xs)"
  by (induction xs) (auto simp: sort_key_simps insort_fst_map split: prod.splits)

text \<open>What an encoding starts with; nothing is skipped before it.\<close>

definition value_start :: "string \<Rightarrow> bool" where
  "value_start s \<longleftrightarrow> s \<noteq> [] \<and> \<not> json_space (hd s) \<and> hd s \<noteq> CHR '']''"

lemma skip_start: "value_start s \<Longrightarrow> skip_json (s @ r) = s @ r"
  by (cases s) (auto simp: value_start_def skip_json_def)

definition number_start :: "string \<Rightarrow> bool" where
  "number_start s \<longleftrightarrow> s \<noteq> [] \<and> (is_digit (hd s) \<or> hd s = CHR ''-'')"

lemma number_value_start: "number_start s \<Longrightarrow> value_start s"
  by (auto simp: number_start_def value_start_def json_space_def is_digit_def Let_def)

lemma number_value:
  assumes "number_start s"
  shows "json_value (Suc k) (s @ r) = json_number (s @ r)"
proof -
  obtain c t where s: "s = c # t" "is_digit c \<or> c = CHR ''-''"
    using assms by (cases s) (auto simp: number_start_def)
  then have "c \<noteq> CHR 0x22" "c \<noteq> CHR ''[''" "c \<noteq> CHR ''{''" "c \<noteq> CHR ''t''" "c \<noteq> CHR ''f''" "c \<noteq> CHR ''n''"
    by (auto simp: is_digit_def)
  then show ?thesis
    using skip_start [OF number_value_start [OF assms], of r] by (simp add: s has_prefix_def)
qed

lemma itoa_start: "number_start (itoa i)"
  using nat_digits_digits [of "nat \<bar>i\<bar>"] nat_digits_nonempty [of "nat \<bar>i\<bar>"]
  by (cases "nat_digits (nat \<bar>i\<bar>)") (auto simp: number_start_def itoa_text sign_text_def)

lemma json_float_start: "number_start (json_float m e)"
proof -
  have d: "itoa \<bar>m\<bar> \<noteq> []" "is_digit (hd (itoa \<bar>m\<bar>))"
    using nat_digits_digits [of "nat \<bar>m\<bar>"]
    by (auto simp: itoa_text sign_text_def list_all_iff)
  have t: "take n (itoa \<bar>m\<bar>) \<noteq> [] \<Longrightarrow> hd (take n (itoa \<bar>m\<bar>)) = hd (itoa \<bar>m\<bar>)" for n by (cases n) auto
  show ?thesis
    using d by (auto simp: number_start_def json_float_def Let_def is_digit_def hd_append hd_take)
qed

lemma encode_start: "value_start (json_encode jt v)"
proof (cases v)
  case (VInt i)
  then show ?thesis using number_value_start [OF itoa_start] by simp
next
  case (VInt64 i)
  then show ?thesis using number_value_start [OF itoa_start] by simp
next
  case (VFloat m e)
  then show ?thesis using number_value_start [OF json_float_start] by simp
qed (auto simp: json_str_def value_start_def json_space_def)

lemma str_value: "2 * length (json_str s) \<le> k \<Longrightarrow> json_value k (json_str s @ r) = Some (VStr s, r)"
proof (cases k)
  case (Suc k')
  assume "2 * length (json_str s) \<le> k"
  then have "length s < k'" using json_str_length [of s] Suc by simp
  then show ?thesis
    using json_string_text [of s k' r] skip_start [of "json_str s" r] Suc
    by (simp add: json_str_def value_start_def json_space_def)
qed (use json_str_length [of s] in simp)

text \<open>A text reads as a value wherever a value may end.\<close>

definition text_reads :: "string \<Rightarrow> val \<Rightarrow> bool" where
  "text_reads t v \<longleftrightarrow> (\<forall>k r. 2 * length t \<le> k \<and> value_end r \<longrightarrow> json_value k (t @ r) = Some (v, r))"

lemma str_reads: "text_reads (json_str s) (VStr s)"
  by (simp add: text_reads_def str_value)

abbreviation reads_back :: "(int \<Rightarrow> string) \<Rightarrow> val \<Rightarrow> bool" where
  "reads_back jt v \<equiv> text_reads (json_encode jt v) (json_read jt v)"

lemmas reads_back_def = text_reads_def

lemma comma_end: "value_end (CHR '','' # r)" "value_end (CHR '']'' # r)" "value_end (CHR ''}'' # r)"
  by (simp_all add: value_end_def)

lemma skip_end: "skip_json (CHR '','' # r) = CHR '','' # r" "skip_json (CHR '']'' # r) = CHR '']'' # r"
  "skip_json (CHR ''}'' # r) = CHR ''}'' # r" "skip_json (CHR '':'' # r) = CHR '':'' # r"
  "skip_json (CHR 0x22 # r) = CHR 0x22 # r"
  by (simp_all add: skip_json_def json_space_def)

lemma elements_read:
  assumes "ts \<noteq> []" and "list_all2 text_reads ts vs" and "2 * length (join_with '','' ts) + 1 \<le> k"
  shows "json_elements k (join_with '','' ts @ CHR '']'' # r) = Some (vs, r)"
  using assms
proof (induction ts arbitrary: vs k)
  case Nil
  then show ?case by simp
next
  case (Cons t ts)
  then obtain v ws k' where k: "k = Suc k'" and vs: "vs = v # ws" "text_reads t v" "list_all2 text_reads ts ws"
    by (cases k; cases vs) auto
  have v: "json_value k' (t @ q) = Some (v, q)" if "value_end q" "2 * length t \<le> k'" for q
    using vs(2) that by (simp add: text_reads_def)
  show ?case
  proof (cases ts)
    case Nil
    then show ?thesis using v [OF comma_end(2) [of r]] vs Cons.prems(3) by (simp add: k skip_end)
  next
    case (Cons u us)
    let ?rest = "join_with '','' ts"
    have j: "join_with '','' (t # ts) = t @ CHR '','' # ?rest" using Cons by simp
    have "2 * length t \<le> k'" "2 * length ?rest + 1 \<le> k'" using Cons.prems(3) by (simp_all add: k j)
    moreover have "json_elements k' (?rest @ CHR '']'' # r) = Some (ws, r)"
      using Cons.IH [of ws k'] Cons vs(3) calculation(2) by simp
    ultimately show ?thesis
      using v [OF comma_end(1), of "?rest @ CHR '']'' # r"] unfolding j k by (simp add: skip_end vs(1))
  qed
qed

lemma list_text:
  assumes "list_all2 text_reads ts vs" and "list_all value_start ts"
  shows "text_reads (CHR ''['' # join_with '','' ts @ '']'') (VList vs)"
proof -
  let ?j = "join_with '','' ts"
  have "json_value k (CHR ''['' # ?j @ CHR '']'' # r) = Some (VList vs, r)"
    if k: "2 * length ?j + 4 \<le> k" for k r
  proof -
    obtain k' where k': "k = Suc k'" using k by (cases k) auto
    show ?thesis
    proof (cases ts)
      case Nil
      then show ?thesis using assms(1) by (simp add: k' skip_json_def json_space_def)
    next
      case (Cons t us)
      have e: "json_elements k' (?j @ CHR '']'' # r) = Some (vs, r)"
        using elements_read [OF _ assms(1), of k' r] k Cons by (simp add: k')
      have st: "value_start ?j" using assms(2) Cons by (cases us) (auto simp: value_start_def)
      then have sk: "skip_json (?j @ CHR '']'' # r) = ?j @ CHR '']'' # r" by (rule skip_start)
      have "hd ?j \<noteq> CHR '']''" "?j \<noteq> []" using st by (simp_all add: value_start_def)
      then show ?thesis using e sk by (cases ?j) (auto simp: k' skip_json_def json_space_def)
    qed
  qed
  then show ?thesis by (simp add: text_reads_def)
qed

definition member_text :: "(int \<Rightarrow> string) \<Rightarrow> string \<times> val \<Rightarrow> string" where
  "member_text jt p = json_str (fst p) @ CHR '':'' # json_encode jt (snd p)"

lemma update_new: "k \<notin> set (map fst m) \<Longrightarrow> AList.update k v m = m @ [(k, v)]"
  by (induction m) auto

lemma member_head:
  "json_members (Suc k) m (json_str key @ CHR '':'' # t) =
     (case json_value k t of
        None \<Rightarrow> None
      | Some (v, r'') \<Rightarrow>
          (case skip_json r'' of
             g # u \<Rightarrow>
               if g = CHR ''}'' then Some (AList.update key v m, u)
               else if g = CHR '','' then json_members k (AList.update key v m) u
               else None
           | [] \<Rightarrow> None))"
  if "length key < k"
  using json_string_text [OF that, of "CHR '':'' # t"] by (simp add: json_str_def skip_end)

lemma members_read:
  assumes "kvs \<noteq> []" and "list_all (\<lambda>p. reads_back jt (snd p)) kvs" and "distinct (map fst (m @ kvs))"
    and "2 * length (join_with '','' (map (member_text jt) kvs)) + 1 \<le> k"
  shows "json_members k m (join_with '','' (map (member_text jt) kvs) @ CHR ''}'' # r) =
    Some (m @ map (\<lambda>(k, v). (k, json_read jt v)) kvs, r)"
  using assms
proof (induction kvs arbitrary: k m)
  case Nil
  then show ?case by simp
next
  case (Cons p kvs)
  then obtain k' where k: "k = Suc k'" by (cases k) auto
  obtain key v where p: "p = (key, v)" by (cases p)
  have new: "AList.update key (json_read jt v) m = m @ [(key, json_read jt v)]"
    using Cons.prems(3) by (intro update_new) (auto simp: p)
  have v: "json_value k' (json_encode jt v @ q) = Some (json_read jt v, q)"
    if "value_end q" "2 * length (json_encode jt v) \<le> k'" for q
    using Cons.prems(2) that by (simp add: reads_back_def p)
  show ?case
  proof (cases kvs)
    case Nil
    then have "length key < k'" "2 * length (json_encode jt v) \<le> k'"
      using Cons.prems(4) json_str_length [of key] by (simp_all add: k p member_text_def)
    then show ?thesis
      using v [OF comma_end(3) [of r]] by (simp add: k p Nil member_text_def member_head skip_end new del: json_members.simps)
  next
    case (Cons q qs)
    let ?rest = "join_with '','' (map (member_text jt) kvs)"
    have j: "join_with '','' (map (member_text jt) (p # kvs)) =
        json_str key @ CHR '':'' # json_encode jt v @ CHR '','' # ?rest"
      using Cons by (simp add: p member_text_def)
    have "length key < k'" "2 * length (json_encode jt v) \<le> k'" "2 * length ?rest + 1 \<le> k'"
      using Cons.prems(4) json_str_length [of key] by (simp_all add: k j del: list.map)
    moreover have "json_members k' (m @ [(key, json_read jt v)]) (?rest @ CHR ''}'' # r) =
        Some (m @ map (\<lambda>(k, v). (k, json_read jt v)) (p # kvs), r)"
      using Cons.IH [of "m @ [(key, json_read jt v)]" k'] Cons Cons.prems(2,3) calculation(3) by (simp add: p)
    ultimately show ?thesis
      using v [OF comma_end(1), of "?rest @ CHR ''}'' # r"] unfolding j k
      by (simp add: member_head skip_end new del: json_members.simps)
  qed
qed

lemma encode_map_text:
  "json_encode jt (VMap kvs) = CHR ''{'' # join_with '','' (map (member_text jt) (sort_key fst kvs)) @ ''}''"
proof -
  have "(\<lambda>(k, s). json_str k @ '':'' @ s) \<circ> (\<lambda>(k, v). (k, json_encode jt v)) = member_text jt"
    by (rule ext) (auto simp: member_text_def)
  then show ?thesis by (simp add: encode_kvs_map sort_fst_map)
qed

lemma object_text:
  assumes "distinct (map fst kvs)" and "list_all (\<lambda>p. reads_back jt (snd p)) kvs"
  shows "text_reads (CHR ''{'' # join_with '','' (map (member_text jt) kvs) @ ''}'')
    (VMap (map (\<lambda>(k, v). (k, json_read jt v)) kvs))"
proof -
  let ?j = "join_with '','' (map (member_text jt) kvs)" and ?m = "map (\<lambda>(k, v). (k, json_read jt v)) kvs"
  have "json_value k (CHR ''{'' # ?j @ CHR ''}'' # r) = Some (VMap ?m, r)"
    if k: "2 * length ?j + 4 \<le> k" for k r
  proof -
    obtain k' where k': "k = Suc k'" using k by (cases k) auto
    show ?thesis
    proof (cases "kvs = []")
      case True
      then show ?thesis by (simp add: k' skip_json_def json_space_def)
    next
      case False
      have "json_members k' [] (?j @ CHR ''}'' # r) = Some ([] @ ?m, r)"
        using members_read [OF False assms(2), of "[]" k' r] assms(1) k by (simp add: k')
      moreover obtain t where "?j = CHR 0x22 # t"
      proof -
        obtain x xs where s: "kvs = x # xs" using False by (cases kvs) auto
        have "hd ?j = CHR 0x22" "?j \<noteq> []" by (cases xs; simp add: s member_text_def json_str_def)+
        then show ?thesis by (intro that [of "tl ?j"]) (metis list.collapse)
      qed
      ultimately show ?thesis
        by (simp add: k' skip_json_def json_space_def del: json_members.simps)
    qed
  qed
  then show ?thesis by (simp add: text_reads_def)
qed

lemma map_reads:
  assumes "distinct (map fst kvs)" and "list_all (\<lambda>p. reads_back jt (snd p)) kvs"
  shows "reads_back jt (VMap kvs)"
proof -
  have "distinct (map fst (sort_key fst kvs))" "list_all (\<lambda>p. reads_back jt (snd p)) (sort_key fst kvs)"
    using assms by (simp_all add: distinct_map list_all_iff)
  from object_text [OF this] show ?thesis
    unfolding encode_map_text by (simp add: read_kvs_map sort_fst_map)
qed

lemma list_reads:
  assumes "list_all (reads_back jt) vs"
  shows "reads_back jt (VList vs)"
proof -
  have "list_all2 text_reads (map (json_encode jt) vs) (map (json_read jt) vs)"
    using assms by (simp add: list_all2_map1 list_all2_map2 list.rel_refl_strong list_all_iff)
  moreover have "list_all value_start (map (json_encode jt) vs)" by (simp add: list_all_iff encode_start)
  ultimately show ?thesis using list_text by (simp add: encodes_map)
qed

lemma strs_text: "json_encode jt (VStrs ss) = json_encode jt (VList (map VStr ss))"
  by (simp add: encodes_map comp_def)

lemma all_read_back: "wf_val v \<Longrightarrow> reads_back jt v"
proof (induction v)
  case (VStr s)
  then show ?case by (simp add: reads_back_def str_value)
next
  case (VTime t)
  then show ?case by (simp add: reads_back_def str_value)
next
  case (VStrs ss)
  have "list_all (reads_back jt) (map VStr ss)" by (simp add: list_all_iff reads_back_def str_value)
  then have "reads_back jt (VList (map VStr ss))" by (rule list_reads)
  then show ?case by (simp add: reads_back_def strs_text comp_def del: json_encode.simps)
next
  case (VMap kvs)
  then have "list_all (\<lambda>p. reads_back jt (snd p)) kvs" by (fastforce simp: list_all_iff)
  with VMap.prems show ?case by (intro map_reads) auto
next
  case (VList vs)
  then show ?case by (intro list_reads) (simp add: list_all_iff)
next
  case (VInt i)
  have "json_value k (itoa i @ r) = Some (float_val i 0, r)" if "2 * length (itoa i) \<le> k" "value_end r" for k r
    using that number_value [OF itoa_start, of "k - 1" i r] json_number_int [of r i] itoa_start [of i]
    by (cases k) (auto simp: number_start_def)
  then show ?case by (simp add: reads_back_def)
next
  case (VInt64 i)
  have "json_value k (itoa i @ r) = Some (float_val i 0, r)" if "2 * length (itoa i) \<le> k" "value_end r" for k r
    using that number_value [OF itoa_start, of "k - 1" i r] json_number_int [of r i] itoa_start [of i]
    by (cases k) (auto simp: number_start_def)
  then show ?case by (simp add: reads_back_def)
next
  case (VFloat m e)
  have "json_value k (json_float m e @ r) = Some (float_val m e, r)" if "2 * length (json_float m e) \<le> k" "value_end r" for k r
    using that number_value [OF json_float_start, of "k - 1" m e r] json_number_float [of r m e] json_float_start [of m e]
    by (cases k) (auto simp: number_start_def)
  then show ?case by (simp add: reads_back_def)
next
  case (VBool b)
  have "json_value (Suc k) (json_encode jt (VBool b) @ r) = Some (VBool b, r)" for k r
    by (simp add: skip_json_def json_space_def has_prefix_def)
  moreover have "2 * length (json_encode jt (VBool b)) \<le> k \<Longrightarrow> k = Suc (k - 1)" for k by (auto split: if_splits)
  ultimately show ?case unfolding reads_back_def by (metis json_read.simps(10))
next
  case VNil
  have "json_value (Suc k) (json_encode jt VNil @ r) = Some (VNil, r)" for k r
    by (simp add: skip_json_def json_space_def has_prefix_def)
  moreover have "2 * length (json_encode jt VNil) \<le> k \<Longrightarrow> k = Suc (k - 1)" for k by auto
  ultimately show ?case unfolding reads_back_def by (metis json_read.simps(8))
qed

lemma text_decode:
  assumes "text_reads t v"
  shows "json_decode t = Some v"
proof -
  have "json_value (2 * length t + 2) (t @ []) = Some (v, [])"
    using assms [unfolded text_reads_def, rule_format, of "2 * length t + 2" "[]"]
    by (simp add: value_end_def del: json_value.simps)
  then show ?thesis by (simp add: json_decode_def skip_json_def del: json_value.simps)
qed

lemma json_decode_encode: "wf_val v \<Longrightarrow> json_decode (json_encode jt v) = Some (json_read jt v)"
  by (rule text_decode [OF all_read_back])

end
