(* ===== verification/AuditQuery.thy ===== *)
theory AuditQuery
  imports AuditLog JsonRoundtrip
begin

text \<open>
  The rest of the database-backed audit log (\<open>audit/db.go\<close>): its table, and the decoding of the rows that a
  query returns. \<open>parse_time\<close> is \<open>time.Parse\<close> under RFC 3339, \<open>jm\<close> the JSON decoder's message and \<open>tf\<close> the text of a
  time that is scanned into a string.
\<close>

section \<open>The table\<close>

definition audit_column_types :: "string \<Rightarrow> (string \<times> string) list" where
  "audit_column_types dialect =
     (let pg = (dialect = ''postgres''); text = ''TEXT NOT NULL''; opt = ''TEXT NOT NULL DEFAULT '' @ sq @ sq in
      [(''id'', ''TEXT PRIMARY KEY''),
       (''timestamp'', if pg then ''TIMESTAMPTZ NOT NULL'' else ''INTEGER NOT NULL''),
       (''user_id'', opt), (''doc_type'', text), (''doc_id'', text), (''action'', text), (''changes'', opt),
       (''via_agent'', if pg then ''BOOLEAN NOT NULL DEFAULT FALSE'' else ''INTEGER NOT NULL DEFAULT 0''),
       (''agent_session'', opt), (''agent_prompt'', opt), (''ip_address'', opt), (''user_agent'', opt),
       (''request_id'', opt)])"

definition audit_create_table :: "string \<Rightarrow> string" where
  "audit_create_table dialect =
     (let nl = [char_of (10 :: nat)]; tab = [char_of (9 :: nat)] in
      ''CREATE TABLE IF NOT EXISTS '' @ audit_table @ '' ('' @ nl @
      join_with ('','' @ nl) (map (\<lambda>(c, ty). tab @ c @ '' '' @ ty) (audit_column_types dialect)) @ nl @ '')'')"

definition ensure_schema :: "'s sql_engine \<Rightarrow> string \<Rightarrow> ('s, gerror, unit) step" where
  "ensure_schema E dialect = (\<lambda>s.
     case sql_exec E (audit_create_table dialect) [] s of
       (Inl e, s') \<Rightarrow> (Inl (internal_err ''audit: create table failed'' (Some e)), s')
     | (Inr _, s') \<Rightarrow> (Inr (), s'))"

lemma audit_columns_created: "map fst (audit_column_types dialect) = audit_columns"
  by (simp add: audit_column_types_def audit_columns_def Let_def)

section \<open>Rows\<close>

definition from_unix_nano :: "int \<Rightarrow> int" where
  "from_unix_nano n = n + 62135596800000000000"

definition timestamp_from_raw :: "(string \<Rightarrow> int option) \<Rightarrow> sql_val \<Rightarrow> int" where
  "timestamp_from_raw parse_time v =
     (case v of
        SqlVal (VTime t) \<Rightarrow> t
      | SqlVal (VInt64 n) \<Rightarrow> from_unix_nano n
      | SqlVal (VInt n) \<Rightarrow> from_unix_nano n
      | SqlVal (VStr s) \<Rightarrow> (case parse_time s of Some t \<Rightarrow> t | None \<Rightarrow> 0)
      | _ \<Rightarrow> 0)"

definition bool_from_raw :: "sql_val \<Rightarrow> bool" where
  "bool_from_raw v =
     (case v of
        SqlVal (VBool b) \<Rightarrow> b
      | SqlVal (VInt64 n) \<Rightarrow> n \<noteq> 0
      | SqlVal (VInt n) \<Rightarrow> n \<noteq> 0
      | _ \<Rightarrow> False)"

definition no_change :: field_change where
  "no_change = \<lparr>fc_field = [], fc_old = VNil, fc_new = VNil\<rparr>"

definition change_of_val :: "val \<Rightarrow> field_change option" where
  "change_of_val v =
     Option.bind (want_row v) (\<lambda>m.
       map_option (\<lambda>f. \<lparr>fc_field = f, fc_old = json_member m ''OldValue'', fc_new = json_member m ''NewValue''\<rparr>)
         (member_as want_str [] ''Field'' m))"

definition decode_changes :: "string \<Rightarrow> field_change list option" where
  "decode_changes text =
     (if text = [] then Some []
      else Option.bind (json_decode text) (\<lambda>v. if v = VNil then Some [] else want_all change_of_val no_change v))"

definition scan_texts :: "(int \<Rightarrow> string) \<Rightarrow> sql_val list \<Rightarrow> gerror + string list" where
  "scan_texts tf vs =
     (case those (map (\<lambda>v. case scan_string tf [v] of Inr s \<Rightarrow> Some s | Inl _ \<Rightarrow> None) vs) of
        Some ss \<Rightarrow> Inr ss
      | None \<Rightarrow> Inl (internal_err ''audit: scan failed'' (Some (StdError ''sql: Scan error'' None))))"

text \<open>One row, in the order of the selected columns.\<close>

definition scan_entry ::
    "(int \<Rightarrow> string) \<Rightarrow> (string \<Rightarrow> int option) \<Rightarrow> (string \<Rightarrow> string) \<Rightarrow> sql_val list \<Rightarrow> gerror + audit_entry" where
  "scan_entry tf parse_time jm vals =
     (case vals of
        [i, ts, u, dt, di, ac, ch, va, se, pr, ip, ua, rq] \<Rightarrow>
          bind_r (scan_texts tf [i, u, dt, di, ac, ch, se, pr, ip, ua, rq]) (\<lambda>ss.
            case ss of
              [i, u, dt, di, ac, ch, se, pr, ip, ua, rq] \<Rightarrow>
                (case decode_changes ch of
                   None \<Rightarrow> Inl (internal_err ''audit: decode changes failed'' (Some (StdError (jm ch) None)))
                 | Some cs \<Rightarrow> Inr
                     \<lparr>ae_id = i, ae_timestamp = timestamp_from_raw parse_time ts, ae_user_id = u, ae_doc_type = dt,
                      ae_doc_id = di, ae_action = ac, ae_changes = cs, ae_via_agent = bool_from_raw va,
                      ae_agent_session = se, ae_agent_prompt = pr, ae_ip_address = ip, ae_user_agent = ua,
                      ae_request_id = rq\<rparr>)
            | _ \<Rightarrow> Inl (internal_err ''audit: scan failed'' None))
      | _ \<Rightarrow> Inl (internal_err ''audit: scan failed'' (Some (StdError ''sql: expected destination arguments in Scan'' None))))"

fun scan_entries ::
    "(int \<Rightarrow> string) \<Rightarrow> (string \<Rightarrow> int option) \<Rightarrow> (string \<Rightarrow> string) \<Rightarrow> sql_val list list \<Rightarrow> gerror + audit_entry list" where
  "scan_entries tf pt jm [] = Inr []"
| "scan_entries tf pt jm (r # rs) =
     bind_r (scan_entry tf pt jm r) (\<lambda>e. bind_r (scan_entries tf pt jm rs) (\<lambda>es. Inr (e # es)))"

definition db_log_query ::
    "'s sql_engine \<Rightarrow> (nat \<Rightarrow> string) \<Rightarrow> (int \<Rightarrow> string) \<Rightarrow> (string \<Rightarrow> int option) \<Rightarrow> (string \<Rightarrow> string) \<Rightarrow> string
     \<Rightarrow> query_filter \<Rightarrow> ('s, gerror, audit_entry list) step" where
  "db_log_query E ph tf pt jm dialect f = (\<lambda>s.
     case sql_query E (fst (audit_query_sql dialect ph f)) (snd (audit_query_sql dialect ph f)) s of
       (Inl e, s') \<Rightarrow> (Inl (internal_err ''audit: query failed'' (Some e)), s')
     | (Inr rs, s') \<Rightarrow>
         (bind_r (scan_entries tf pt jm (sr_rows rs)) (\<lambda>es.
            case sr_err rs of
              Some e \<Rightarrow> Inl (internal_err ''audit: query iteration failed'' (Some e))
            | None \<Rightarrow> Inr es), s'))"

section \<open>What is written is what is read\<close>

text \<open>The value that SQLite returns for one that was stored.\<close>

definition sqlite_stored :: "val \<Rightarrow> sql_val" where
  "sqlite_stored v = SqlVal (case v of VBool b \<Rightarrow> VInt64 (if b then 1 else 0) | _ \<Rightarrow> v)"

definition read_change :: "(int \<Rightarrow> string) \<Rightarrow> field_change \<Rightarrow> field_change" where
  "read_change jt c = \<lparr>fc_field = fc_field c, fc_old = json_read jt (fc_old c), fc_new = json_read jt (fc_new c)\<rparr>"

definition wf_change :: "field_change \<Rightarrow> bool" where
  "wf_change c \<longleftrightarrow> wf_val (fc_old c) \<and> wf_val (fc_new c)"

definition change_row :: "field_change \<Rightarrow> row" where
  "change_row c = [(''Field'', VStr (fc_field c)), (''OldValue'', fc_old c), (''NewValue'', fc_new c)]"

lemma change_json_members: "change_json jt c = CHR ''{'' # join_with '','' (map (member_text jt) (change_row c)) @ ''}''"
  by (simp add: change_json_def change_row_def member_text_def)

lemma change_reads:
  "wf_change c \<Longrightarrow> text_reads (change_json jt c) (VMap (map (\<lambda>(k, v). (k, json_read jt v)) (change_row c)))"
  unfolding change_json_members
  by (rule object_text) (auto simp: change_row_def wf_change_def all_read_back str_reads)

lemma change_of_row:
  "change_of_val (VMap (map (\<lambda>(k, v). (k, json_read jt v)) (change_row c))) = Some (read_change jt c)"
  by (simp add: change_of_val_def change_row_def want_row_def want_str_def member_as_def json_member_def read_change_def
      equal_fold_def to_lower_def ascii_lower_def)

lemma those_map: "(\<And>x. x \<in> set xs \<Longrightarrow> f x = Some (g x)) \<Longrightarrow> those (map f xs) = Some (map g xs)"
  by (induction xs) auto

lemma decode_changes_json:
  assumes "list_all wf_change cs"
  shows "decode_changes (changes_json jt cs) = Some (map (read_change jt) cs)"
proof (cases "cs = []")
  case True
  then show ?thesis by (simp add: decode_changes_def changes_json_def)
next
  case False
  let ?v = "\<lambda>c. VMap (map (\<lambda>(k, v). (k, json_read jt v)) (change_row c))"
  have "list_all2 text_reads (map (change_json jt) cs) (map ?v cs)"
    using assms by (simp add: list_all2_map1 list_all2_map2 list.rel_refl_strong list_all_iff change_reads)
  moreover have "list_all value_start (map (change_json jt) cs)"
    by (simp add: list_all_iff change_json_def value_start_def json_space_def)
  ultimately have "json_decode (changes_json jt cs) = Some (VList (map ?v cs))"
    using text_decode [OF list_text] False by (simp add: changes_json_def)
  moreover have "those (map (elem_as change_of_val no_change) (map ?v cs)) = Some (map (read_change jt) cs)"
    unfolding map_map by (rule those_map) (simp add: elem_as_def change_of_row del: list.map)
  ultimately show ?thesis using False by (simp add: decode_changes_def changes_json_def want_all_def)
qed

lemma unix_nano_range:
  assumes "- (2 ^ 63) \<le> t - 62135596800000000000" and "t - 62135596800000000000 < 2 ^ 63"
  shows "from_unix_nano (unix_nano t) = t"
  using assms by (simp add: from_unix_nano_def unix_nano_def)


definition demo_entry :: audit_entry where
  "demo_entry =
     \<lparr>ae_id = ''01A'', ae_timestamp = 62135596800000000007, ae_user_id = ''u1'', ae_doc_type = ''Task'', ae_doc_id = ''t1'',
      ae_action = ''update'', ae_changes = [\<lparr>fc_field = ''n'', fc_old = VInt 20, fc_new = VFloat 15 (- 1)\<rparr>],
      ae_via_agent = True, ae_agent_session = ''s1'', ae_agent_prompt = [], ae_ip_address = [], ae_user_agent = [],
      ae_request_id = ''r1''\<rparr>"


end
