(* ===== verification/Site.thy ===== *)
theory Site
  imports AgentRuntime Router AgentSocket LlmAdapters AuditQuery
begin

text \<open>
  The composition root (\<open>site.go\<close>): what a configuration opens, how the engines are wired to each other
  when a site is compiled, and the options its agent runs with. The files and drivers of a database, the
  audit log on it and the URL parser are parameters; the embedded admin interface is left out.
\<close>

section \<open>A site\<close>

record ('s, 'app) site =
  st_config :: config
  st_db :: "'s dal option"
  st_registry :: registry
  st_auth :: jwt_provider
  st_cache :: lru_store
  st_bus :: bus
  st_audit :: "'s audit_log"
  st_pages :: "page list"
  st_apps :: "'app list"

text \<open>\<open>open_db\<close> opens a database of the given driver; another driver opens none.\<close>

definition site_database ::
    "(string \<Rightarrow> string \<Rightarrow> gerror + 's dal) \<Rightarrow> config \<Rightarrow> gerror + 's dal option" where
  "site_database open_db c =
     (let dsn = db_dsn (cf_database c); dr = db_driver (cf_database c) in
      if dsn \<noteq> [] \<and> dr \<in> {''postgres'', ''sqlite''} then
        (case open_db dr dsn of Inl e \<Rightarrow> Inl e | Inr D \<Rightarrow> Inr (Some D))
      else Inr None)"

definition access_ttl :: int where "access_ttl = 15 * minute"
definition refresh_ttl :: int where "refresh_ttl = 7 * 24 * 60 * minute"

definition new_site ::
    "(string \<Rightarrow> string \<Rightarrow> gerror + 's dal) \<Rightarrow> bus \<Rightarrow> 's audit_log \<Rightarrow> config \<Rightarrow> gerror + ('s, 'app) site" where
  "new_site open_db empty_bus memory_log c =
     (case site_database open_db c of
        Inl e \<Rightarrow> Inl e
      | Inr db \<Rightarrow>
          (case validate_jwt_secret (cf_jwt_secret c) of
             Some e \<Rightarrow> Inl (validation_err (''invalid auth.jwt_secret: '' @ e) [])
           | None \<Rightarrow> Inr
               \<lparr>st_config = c, st_db = db, st_registry = new_registry,
                st_auth = new_jwt_provider (cf_jwt_secret c) access_ttl refresh_ttl,
                st_cache = new_lru_store 1000, st_bus = empty_bus, st_audit = memory_log,
                st_pages = [], st_apps = []\<rparr>))"

definition site_install :: "'app \<Rightarrow> ('s, 'app) site \<Rightarrow> ('s, 'app) site" where
  "site_install a s = s\<lparr>st_apps := st_apps s @ [a]\<rparr>"

definition installed_apps :: "('s, 'app) site \<Rightarrow> 'app list" where
  "installed_apps s = st_apps s"

definition site_register_page :: "page \<Rightarrow> ('s, 'app) site \<Rightarrow> ('s, 'app) site" where
  "site_register_page p s = s\<lparr>st_pages := register_page p (st_pages s)\<rparr>"

section \<open>The agent of a site\<close>

definition site_policy :: "config \<Rightarrow> safety_policy" where
  "site_policy c =
     \<lparr>sp_auto = [''read'', ''search'', ''list''], sp_require = [], sp_always = [],
      sp_max_bulk = ll_max_bulk (cf_llm c), sp_roles = [],
      sp_rate = \<lparr>rl_per_minute = 60, rl_scope = ''user''\<rparr>, sp_budget = 0, sp_allowlist = []\<rparr>"

text \<open>What the runtime is given of the adapter: it tracks no usage and asks for no approvals itself.\<close>

definition adapter_backend ::
    "(int \<Rightarrow> string) \<Rightarrow> (string \<Rightarrow> string) \<Rightarrow> 's transport \<Rightarrow> adapter \<Rightarrow> 's backend" where
  "adapter_backend jt jm tr a =
     \<lparr>bk_provider = adapter_provider jt jm tr a, bk_track = None, bk_usage = None, bk_approvals = None\<rparr>"

record 's wiring =
  wr_url :: "string \<Rightarrow> (string \<times> string) option"
  wr_quote :: "string \<Rightarrow> string"
  wr_jt :: "int \<Rightarrow> string"
  wr_jm :: "string \<Rightarrow> string"
  wr_transport :: "'s transport"
  wr_rate :: "safety_policy \<Rightarrow> ctx \<Rightarrow> identity \<Rightarrow> ('s, gerror, unit) step"

record 's engines =
  eg_perm :: "'s perm_engine"
  eg_doc :: "'s engine"
  eg_workflow :: "'s wf_engine"
  eg_tools :: "'s tool_registry"

definition agent_runtime :: "'s wiring \<Rightarrow> config \<Rightarrow> registry \<Rightarrow> 's engines \<Rightarrow> 's options option" where
  "agent_runtime w c reg eg =
     (case ll_providers (cf_llm c) of
        None \<Rightarrow> None
      | Some ps \<Rightarrow>
          (case provider_from_config (wr_url w) (wr_quote w) (Some c) [] of
             Inl e \<Rightarrow> None
           | Inr a \<Rightarrow>
               (let p = new_layer (site_policy c) in
                Some \<lparr>op_provider = Some (adapter_backend (wr_jt w) (wr_jm w) (wr_transport w) a),
                      op_tools = Some (eg_tools eg), op_perm = Some (eg_perm eg), op_registry = Some reg,
                      op_engine = Some (eg_doc eg), op_workflow = Some (eg_workflow eg),
                      op_safety = Some \<lparr>ly_policy = p, ly_rate = wr_rate w p, ly_usage = None\<rparr>,
                      op_sink = False, op_approvals = None, op_model = [], op_max_steps = 0, op_system = [], op_ttl = 0\<rparr>)))"

section \<open>Compile\<close>

text \<open>
  What a database offers beside its operations: the raw connection with its dialect and placeholders, or
  nothing. \<open>validators\<close>, \<open>mail\<close> and \<open>fmt\<close> are the package-level services of the document engine; \<open>se_row\<close>
  is the row of an entry under the dialect, with the ULID and the time it draws.
\<close>

record 's raw_conn =
  rc_engine :: "'s sql_engine"
  rc_dialect :: string
  rc_placeholder :: "nat \<Rightarrow> string"

record 's site_env =
  se_types :: type_env
  se_rpc :: "'s rpc_registry"
  se_validators :: "field_validator validator_registry"
  se_mail :: "string \<Rightarrow> bool"
  se_fmt :: "int \<Rightarrow> string"
  se_nodb :: "'s dal"
  se_raw :: "'s dal \<Rightarrow> 's raw_conn option"
  se_row :: "string \<Rightarrow> audit_entry \<Rightarrow> row"

text \<open>\<open>InitAuditLog\<close>: the table is created and the log is moved to it, where the database offers a connection.\<close>

definition init_audit_log :: "'s site_env \<Rightarrow> 's dal option \<Rightarrow> 's audit_log \<Rightarrow> ('s, gerror, 's audit_log) step" where
  "init_audit_log env db log =
     (case db of
        None \<Rightarrow> ret log
      | Some D \<Rightarrow>
          (case se_raw env D of
             None \<Rightarrow> ret log
           | Some c \<Rightarrow>
               bind_s (ensure_schema (rc_engine c) (rc_dialect c)) (\<lambda>_.
                 ret (db_audit_log (rc_engine c) D (rc_placeholder c) (se_row env (rc_dialect c))))))"

definition site_perm :: "registry \<Rightarrow> 's dal option \<Rightarrow> 's perm_engine" where
  "site_perm reg db =
     perm_engine (case db of None \<Rightarrow> new_perm reg | Some D \<Rightarrow> perm_set_database D (new_perm reg))"

definition site_doc_engine :: "'s site_env \<Rightarrow> 's dal \<Rightarrow> registry \<Rightarrow> 's perm_engine \<Rightarrow> bus \<Rightarrow> 's audit_log \<Rightarrow> 's engine" where
  "site_doc_engine env D reg p b a =
     \<lparr>en_db = D, en_reg = reg, en_perm = Some p, en_bus = Some b, en_audit = Some a,
      en_validators = se_validators env, en_mail = se_mail env, en_fmt = se_fmt env\<rparr>"

definition wire_engines :: "'s site_env \<Rightarrow> ('s, 'app) site \<Rightarrow> registry \<Rightarrow> 's audit_log \<Rightarrow> gerror + 's engines" where
  "wire_engines env s reg log =
     (let p = site_perm reg (st_db s);
          D = (case st_db s of Some D \<Rightarrow> D | None \<Rightarrow> se_nodb env);
          en = site_doc_engine env D reg p (st_bus s) log;
          wf = new_wf_engine D reg p (Some (st_bus s)) (Some log)
      in case tools_compile (se_rpc env) reg (new_tool_registry p (Some wf)) of
           (Inl e, _) \<Rightarrow> Inl e
         | (Inr _, T) \<Rightarrow> Inr \<lparr>eg_perm = p, eg_doc = en, eg_workflow = wf, eg_tools = T\<rparr>)"

definition site_compile :: "'s site_env \<Rightarrow> ('s, 'app) site \<Rightarrow> ('s, gerror, ('s, 'app) site \<times> 's engines) step" where
  "site_compile env s =
     (case registry_compile (se_types env) (st_registry s) of
        (Inl e, _) \<Rightarrow> fail e
      | (Inr _, reg) \<Rightarrow>
          bind_s (init_audit_log env (st_db s) (st_audit s)) (\<lambda>log.
            case wire_engines env s reg log of
              Inl e \<Rightarrow> fail e
            | Inr eg \<Rightarrow> ret (s\<lparr>st_registry := reg, st_audit := log\<rparr>, eg)))"

text \<open>The HTTP interface that is mounted over the engines; the router library is \<open>matcher\<close>.\<close>

definition site_router ::
    "jwt_lib \<Rightarrow> (int \<Rightarrow> string) \<Rightarrow> (string \<Rightarrow> string \<Rightarrow> bool) \<Rightarrow> 's rpc_registry
     \<Rightarrow> ((string \<times> string \<times> route) list \<Rightarrow> http_request \<Rightarrow> nat + (route \<times> (string \<times> string) list))
     \<Rightarrow> ('s options \<Rightarrow> 's http_handler) \<Rightarrow> 's options option \<Rightarrow> ('s, 'app) site \<Rightarrow> 's engines \<Rightarrow> 's router" where
  "site_router lib dur bcrypt rpc matcher stream opts s eg =
     \<lparr>ro_cors = sv_cors (cf_server (st_config s)), ro_jwt = Some lib, ro_limit = new_request_limit 1000 minute, ro_duration = dur,
      ro_bcrypt = bcrypt, ro_perm = eg_perm eg, ro_reg = Some (st_registry s), ro_engine = eg_doc eg,
      ro_db = st_db s, ro_pages = Some (st_pages s), ro_stream = map_option stream opts, ro_rpc = rpc,
      ro_match = matcher\<rparr>"

section \<open>An example\<close>

definition chat_config :: config where
  "chat_config =
     (demo_config env_production (replicate 32 (CHR ''k'')))\<lparr>cf_llm :=
        \<lparr>ll_default = [],
         ll_providers = Some [(''openai'', \<lparr>lc_api_key = ''key'', lc_model = ''m'', lc_max_tokens = 0, lc_base_url = [],
           lc_auth = [], lc_tools = None, lc_structured = None\<rparr>)],
         ll_max_bulk = 5\<rparr>\<rparr>"

definition wiring_example :: "journal wiring" where
  "wiring_example =
     \<lparr>wr_url = (\<lambda>u. None), wr_quote = id, wr_jt = itoa, wr_jm = id,
      wr_transport = (\<lambda>meth url hs body w. (Inl ''no network'', w)), wr_rate = (\<lambda>p cx i. ret ())\<rparr>"

definition site_example :: "(journal, unit) site" where
  "site_example =
     \<lparr>st_config = chat_config, st_db = Some small_db, st_registry = demo_registered,
      st_auth = new_jwt_provider (cf_jwt_secret chat_config) access_ttl refresh_ttl, st_cache = new_lru_store 1000,
      st_bus = [], st_audit = mem_audit_log (\<lambda>f w. w) [] 0, st_pages = [], st_apps = []\<rparr>"

definition site_env_example :: "journal site_env" where
  "site_env_example =
     \<lparr>se_types = demo_types, se_rpc = [], se_validators = [], se_mail = (\<lambda>m. True), se_fmt = itoa, se_nodb = small_db,
      se_raw = (\<lambda>D. None), se_row = (\<lambda>d e. [])\<rparr>"

lemma example_compiles:
  "\<exists>s eg. site_compile site_env_example site_example empty_journal = (Inr (s, eg), empty_journal) \<and>
     map tt_verb (tg_templates (eg_tools eg)) = [''list'', ''read'', ''list'', ''read'']"
proof -
  have r: "fst (registry_compile demo_types demo_registered) = Inr ()" by code_simp
  then have rc: "registry_compile demo_types demo_registered = (Inr (), demo_compiled)"
    by (simp add: demo_compiled_def prod_eq_iff)
  let ?p = "site_perm demo_compiled (Some small_db)"
  let ?T = "new_tool_registry ?p (Some (new_wf_engine small_db demo_compiled ?p (Some []) (Some (mem_audit_log (\<lambda>f w. w) [] 0))))"
  have tools: "fst (tools_compile [] demo_compiled ?T) = Inr ()"
    "map tt_verb (tg_templates (snd (tools_compile [] demo_compiled ?T))) = [''list'', ''read'', ''list'', ''read'']"
    by code_simp+
  obtain T where t: "tools_compile [] demo_compiled ?T = (Inr (), T)"
    and v: "map tt_verb (tg_templates T) = [''list'', ''read'', ''list'', ''read'']"
    using tools by (cases "tools_compile [] demo_compiled ?T") simp
  show ?thesis
    by (simp add: site_compile_def site_env_example_def site_example_def rc init_audit_log_def bind_s_def ret_def
        wire_engines_def Let_def t v)
qed

section \<open>What holds of every site\<close>

lemma compile_parts:
  assumes "site_compile env s w = (Inr (s', eg), w')"
  shows "wire_engines env s (st_registry s') (st_audit s') = Inr eg"
  using assms
  by (auto simp: site_compile_def bind_s_def fail_def ret_def split: prod.splits sum.splits)

lemma wired:
  assumes "wire_engines env s reg log = Inr eg"
  shows "we_defs (eg_workflow eg) = [] \<and> en_reg (eg_doc eg) = reg \<and> we_reg (eg_workflow eg) = reg \<and>
    en_perm (eg_doc eg) = Some (eg_perm eg) \<and> we_perm (eg_workflow eg) = eg_perm eg \<and> tg_perm (eg_tools eg) = eg_perm eg \<and>
    en_audit (eg_doc eg) = Some log \<and> we_audit (eg_workflow eg) = Some log"
  using assms
  by (auto simp: wire_engines_def Let_def new_wf_engine_def site_doc_engine_def tools_compile_def new_tool_registry_def
      split: prod.splits sum.splits if_splits)

text \<open>
  A compiled site has one gate and one log: documents, workflow transitions, agent tools and
  requests are decided by the same permission engine over the same compiled registry, and documents and transitions
  are recorded in the same audit log.
\<close>

theorem site_shares_engines:
  assumes "site_compile env s w = (Inr (s', eg), w')"
  shows "en_perm (eg_doc eg) = Some (eg_perm eg) \<and> we_perm (eg_workflow eg) = eg_perm eg \<and>
    tg_perm (eg_tools eg) = eg_perm eg \<and>
    ro_perm (site_router lib dur bcrypt rpc matcher stream opts s' eg) = eg_perm eg \<and>
    en_reg (eg_doc eg) = st_registry s' \<and> we_reg (eg_workflow eg) = st_registry s' \<and>
    en_audit (eg_doc eg) = Some (st_audit s') \<and> we_audit (eg_workflow eg) = Some (st_audit s')"
  using wired [OF compile_parts [OF assms]] by (simp add: site_router_def)

lemma no_action_template:
  assumes "we_defs w = []" and "t \<in> set (generate_doc_templates (new_tool_registry p (Some w)) d)"
  shows "tt_verb t \<noteq> ''execute_action''"
proof -
  have "\<not> doc_has_workflow (new_tool_registry p (Some w)) (d_name d)"
    using assms(1) by (simp add: doc_has_workflow_def new_tool_registry_def wf_doc_types_def)
  then show ?thesis
    using assms(2) by (auto simp: generate_doc_templates_def doc_template_def split: if_splits)
qed

text \<open>C40: 
  The tools of a compiled site contain none that takes a workflow action: tools are compiled when no workflow
  is registered yet.
\<close>

theorem site_has_no_action_tools:
  assumes "site_compile env s w = (Inr (s', eg), w')" and "t \<in> set (tg_templates (eg_tools eg))"
  shows "tt_verb t \<noteq> ''execute_action''"
proof -
  let ?w = "eg_workflow eg" and ?p = "eg_perm eg"
  obtain T where "tools_compile (se_rpc env) (st_registry s') (new_tool_registry ?p (Some ?w)) = (Inr (), T)"
      "eg_tools eg = T" "we_defs ?w = []"
    using compile_parts [OF assms(1)] wired [OF compile_parts [OF assms(1)]]
    by (auto simp: wire_engines_def Let_def split: prod.splits sum.splits)
  with assms(2) no_action_template [of ?w t ?p] show ?thesis
    by (auto simp: tools_compile_def new_tool_registry_def method_template_def)
qed


lemma example_runs_agent:
  "\<exists>opts ly. agent_runtime wiring_example chat_config reg eg = Some opts \<and> op_safety opts = Some ly \<and>
     ly_policy ly = new_layer (site_policy chat_config)"
proof -
  have "\<exists>a. provider_from_config (\<lambda>u. None) id (Some chat_config) [] = Inr a"
    by (simp add: provider_from_config_def chat_config_def auth_mode_from_config_def trim_space_def to_lower_def Let_def)
  then show ?thesis
    by (auto simp: agent_runtime_def wiring_example_def chat_config_def Let_def)
qed


lemma site_has_no_action_tools_witness:
  "\<exists>s eg t. site_compile site_env_example site_example empty_journal = (Inr (s, eg), empty_journal) \<and>
     t \<in> set (tg_templates (eg_tools eg)) \<and> tt_verb t \<noteq> ''execute_action''"
proof -
  obtain s eg where c: "site_compile site_env_example site_example empty_journal = (Inr (s, eg), empty_journal)"
      "map tt_verb (tg_templates (eg_tools eg)) = [''list'', ''read'', ''list'', ''read'']"
    using example_compiles by (elim exE conjE)
  then obtain t where "t \<in> set (tg_templates (eg_tools eg))" by (cases "tg_templates (eg_tools eg)") auto
  then show ?thesis using site_has_no_action_tools [OF c(1)] c(1) by blast
qed

lemma site_shares_engines_witness:
  "\<exists>s eg. site_compile site_env_example site_example empty_journal = (Inr (s, eg), empty_journal) \<and>
     en_perm (eg_doc eg) = Some (eg_perm eg) \<and> we_perm (eg_workflow eg) = eg_perm eg \<and> tg_perm (eg_tools eg) = eg_perm eg"
proof -
  obtain s eg where c: "site_compile site_env_example site_example empty_journal = (Inr (s, eg), empty_journal)"
    using example_compiles by blast
  then show ?thesis using site_shares_engines [OF c] by blast
qed

end
