(* ===== verification/Services.thy ===== *)
theory Services
  imports Database
begin

text \<open>
  The service interfaces beside the engines: full-text search through the dialect
  (\<open>search/search.go\<close>) and the in-memory job queue (\<open>background/background.go\<close>).
\<close>

section \<open>Search\<close>

record search_backend =
  sb_tables :: "(string \<times> string) list"
  sb_fields :: "(string \<times> string list) list"

text \<open>The table of a document is the first of its names; a document without names has none.\<close>

definition new_dialect_backend :: "(string \<times> string list) list \<Rightarrow> (string \<times> string list) list \<Rightarrow> search_backend" where
  "new_dialect_backend tables flds =
     \<lparr>sb_tables = map (\<lambda>(k, v). (k, hd v)) (filter (\<lambda>(k, v). v \<noteq> []) tables), sb_fields = flds\<rparr>"

definition new_dialect_backend_simple :: "(string \<times> string) list \<Rightarrow> (string \<times> string list) list \<Rightarrow> search_backend" where
  "new_dialect_backend_simple tables flds = \<lparr>sb_tables = tables, sb_fields = flds\<rparr>"

text \<open>\<open>Index\<close> and \<open>Remove\<close> do nothing: the index is computed by the query.\<close>

definition search_index :: "search_backend \<Rightarrow> string \<Rightarrow> string \<Rightarrow> row \<Rightarrow> gerror + unit" where
  "search_index b dt i flds = Inr ()"

definition search_remove :: "search_backend \<Rightarrow> string \<Rightarrow> string \<Rightarrow> gerror + unit" where
  "search_remove b dt i = Inr ()"

definition search_statement :: "driver \<Rightarrow> string \<Rightarrow> string \<Rightarrow> string list \<Rightarrow> int \<Rightarrow> string \<times> val list" where
  "search_statement drv tn query flds limit =
     (let (sql, args) = drv_search drv tn query flds
      in (if 0 < limit then sql @ '' LIMIT '' @ itoa limit else sql, args))"

definition search_documents ::
    "'s sql_engine \<Rightarrow> driver \<Rightarrow> (int \<Rightarrow> string) \<Rightarrow> search_backend \<Rightarrow> string \<Rightarrow> string \<Rightarrow> int \<Rightarrow> ('s, gerror, string list) step" where
  "search_documents E drv tf b dt query limit =
     (case map_of (sb_tables b) dt of
        None \<Rightarrow> fail (no_table dt)
      | Some tn \<Rightarrow>
          (let flds = (case map_of (sb_fields b) dt of Some fs \<Rightarrow> fs | None \<Rightarrow> []) in
           if flds = [] then ret []
           else let (sql, args) = search_statement drv tn query flds limit
                in (\<lambda>s. case sql_query E sql args s of
                         (Inl e, s') \<Rightarrow> (Inl (internal_err ''full-text search failed'' (Some e)), s')
                       | (Inr rs, s') \<Rightarrow>
                           (bind_r (scan_ids tf (sr_rows rs)) (\<lambda>is. case sr_err rs of Some e \<Rightarrow> Inl e | None \<Rightarrow> Inr is), s'))))"

text \<open>A search runs at most the one query of its document, and no statement that writes.\<close>

lemma search_reads:
  "snd (search_documents E drv tf b dt query limit s) = s \<or>
   (\<exists>tn flds sql args. map_of (sb_tables b) dt = Some tn \<and> map_of (sb_fields b) dt = Some flds \<and> flds \<noteq> [] \<and>
      search_statement drv tn query flds limit = (sql, args) \<and>
      snd (search_documents E drv tf b dt query limit s) = snd (sql_query E sql args s))"
  by (auto simp: search_documents_def fail_def Let_def split: option.splits prod.splits sum.splits)

section \<open>Jobs\<close>

text \<open>\<open>'j\<close> is the type of job handlers; a run is a handler with its payload and the earliest time it starts.\<close>

type_synonym 'j job_queue = "(string \<times> 'j) list"

record enqueue_opts =
  eo_run_at :: int
  eo_max_retries :: int

record 'j job_run =
  jb_handler :: 'j
  jb_payload :: string
  jb_start :: int

definition new_in_memory_queue :: "'j job_queue" where
  "new_in_memory_queue = []"

definition register_handler :: "string \<Rightarrow> 'j \<Rightarrow> 'j job_queue \<Rightarrow> 'j job_queue" where
  "register_handler job h q = AList.update job h q"

text \<open>The goroutine that a call starts, if any; its outcome is dropped and it is not tried again.\<close>

definition enqueue :: "int \<Rightarrow> string \<Rightarrow> string \<Rightarrow> enqueue_opts \<Rightarrow> 'j job_queue \<Rightarrow> 'j job_run option" where
  "enqueue now job payload opts q =
     (case map_of q job of
        None \<Rightarrow> None
      | Some h \<Rightarrow> Some \<lparr>jb_handler = h, jb_payload = payload, jb_start = max now (eo_run_at opts)\<rparr>)"

text \<open>A job runs the handler that was registered last under its name, never before its time.\<close>

lemma enqueue_registered:
  "enqueue now job payload opts (register_handler job' h q) =
     (if job' = job then Some \<lparr>jb_handler = h, jb_payload = payload, jb_start = max now (eo_run_at opts)\<rparr>
      else enqueue now job payload opts q)"
  by (simp add: enqueue_def register_handler_def AList.update_conv')

end
