(* ===== verification/Spec2Isabelle.thy ===== *)
theory Spec2Isabelle
  imports TurnSafety AppDag HttpSafety Migrator Core Site Services
begin

text \<open>
  A verification library for the Orjanda framework: a Go framework for business applications in which
  documents are declared as structs, compiled into a schema registry, stored through a SQL data layer,
  served over HTTP and operated by an AI agent under a safety policy.

  \<^bold>\<open>Parts and theories.\<close> Each theory models one part and holds its lemmas; the definitions keep the order
  and the names of the code.

  \<^item> \<open>Prelude\<close>, \<open>GoValue\<close>, \<open>Json\<close>, \<open>JsonRoundtrip\<close>: strings and maps of Go, the state-and-error step type,
    dynamic values (\<open>any\<close>) with \<open>%v\<close> and JSON, the JSON decoder, and the proof that it reads back what the
    encoder wrote.
  \<^item> \<open>Errors\<close> (\<open>errors/\<close>), \<open>Schema\<close>, \<open>Naming\<close>, \<open>Registry\<close> (\<open>schema/\<close>): the error type and its walks,
    documents and fields, name derivation and struct tags, registration and compilation.
  \<^item> \<open>Auth\<close> (\<open>auth/\<close>), \<open>EventBus\<close> (\<open>event/\<close>), \<open>Cache\<close> (\<open>cache/\<close>): identities and tokens, hooks, the LRU
    store as a heap of linked nodes.
  \<^item> \<open>Dal\<close>, \<open>Dialect\<close>, \<open>Database\<close>, \<open>Migrator\<close> (\<open>dal/\<close>): the data layer's interface and transactions, the SQL
    of both dialects, the two handles, migrations. \<open>Services\<close> (\<open>search/\<close>, \<open>background/\<close>): full-text search and jobs.
  \<^item> \<open>AuditLog\<close>, \<open>AuditQuery\<close> (\<open>audit/\<close>), \<open>Perm\<close> (\<open>perm/\<close>), \<open>Document\<close> (\<open>document/\<close>), \<open>Workflow\<close>
    (\<open>workflow/\<close>): the engines that every client of the framework goes through.
  \<^item> \<open>Http\<close>, \<open>Rest\<close>, \<open>Login\<close>, \<open>Router\<close>, \<open>HttpSafety\<close>, \<open>AgentSocket\<close> (\<open>api/\<close>): middleware, handlers, login, the
    mounted routes, what holds of every request, and the chat socket with its approval gateway.
  \<^item> \<open>Safety\<close>, \<open>Gateway\<close>, \<open>Transcript\<close>, \<open>Tools\<close>, \<open>Planner\<close>, \<open>Session\<close>, \<open>AgentEvents\<close>, \<open>Executor\<close>, \<open>AgentRuntime\<close>,
    \<open>TurnSafety\<close> (\<open>agent/\<close>): the agent, from the model providers to a whole turn. \<open>LlmHttp\<close>, \<open>OpenAI\<close>,
    \<open>Anthropic\<close>, \<open>LlmAdapters\<close> (\<open>agent/llm/\<close>): the adapters of the providers and their selection.
  \<^item> \<open>AppDag\<close> (\<open>app/\<close>), \<open>Ui\<close> (\<open>ui/\<close>), \<open>Core\<close> (\<open>orjanda-core/\<close>), \<open>Config\<close> (\<open>config/\<close>), \<open>Site\<close> (\<open>site.go\<close>):
    application dependencies, code generation, the core documents and the bootstrap, the configuration,
    and the composition of all engines into a site.

  \<^bold>\<open>How the parts interact.\<close> A site compiles the registry and builds one permission engine, one audit log
  and one database handle over it; the document and workflow engines, the agent's tools and the HTTP
  handlers are functions of these (\<open>Site\<close>). Engines reach the database only through the record of operations of
  \<open>Dal\<close>; its laws, and the laws of a transactional log, a cache store and a permission engine, are locales
  that the models interpret. The runtime of the agent calls the same engines as the HTTP handlers, behind
  the gates of \<open>Safety\<close>; it talks to a provider (\<open>Gateway\<close> or an adapter) and to a human (\<open>AgentSocket\<close>).

  \<^bold>\<open>What the lemmas show.\<close>
  Data: a write is audited and atomic, denied or failed operations leave what reads leave, locked fields are
  neither returned nor offered, created data is valid, deletion is soft (\<open>Document\<close>, \<open>Workflow\<close>, \<open>Dal\<close>).
  Decisions: exactly who may act, which calls need no approval, how many pass in a window
  (\<open>Perm\<close>, \<open>Safety\<close>), and that the agent and the HTTP interface are held to them (\<open>TurnSafety\<close>, \<open>HttpSafety\<close>, \<open>Site\<close>).
  Identity: tokens round trip, refresh tokens are used once, login mints the stored identity (\<open>Auth\<close>, \<open>Login\<close>).
  The agent: transcripts stay well-formed and every adapter request built from one is too, runaway turns stop, plans run
  only when valid and approved, failover follows the provider's status, approvals are answered by the client that was
  asked. Round trips: JSON texts, audit rows, tool names, tokens. Equivalences and refinements: the LRU
  store and a recency list, message translation and its grouping, dependency resolution and its order, migrations
  and the schema they reach.

  \<^bold>\<open>Conventions.\<close> A Go map is an association list whose order stands for the iteration order; a nil map and an
  empty one are the same. Strings are byte strings, case folding is ASCII. A float64 is \<open>m * 10 ^ e\<close>, times are
  integers in nanoseconds. A fallible operation returns a sum, a stateful one is a \<open>step\<close> that returns the state even
  when it fails. Clock readings and ULIDs are arguments. Locks are omitted where every operation holds one
  throughout; where goroutines share state in between (\<open>AgentSocket\<close>) their steps are interleaved explicitly.

  \<^bold>\<open>Bounds and fuel.\<close> The JSON decoder recurses with fuel \<open>2 * length + 2\<close>, which its round trip proves to be
  enough for every text the encoder writes. The loop of model and tool calls is bounded by the step budget of the
  runtime, as in the code. Dependency resolution has fuel for every application, and is proved to return.
  The search for a free migration name is a \<open>partial_function\<close> that is proved to end.

  \<^bold>\<open>Parameters.\<close> The SQL engine, the JWT, bcrypt, viper and WebSocket libraries, the route matcher, the HTTP client and
  server, \<open>url.Parse\<close>, \<open>net/mail\<close>, goose, SHA-256, the file system and the random source are arguments of the
  definitions; what is required of them is a named hypothesis, met by a concrete instance in a witness.

  \<^bold>\<open>Not modelled.\<close> The command line (\<open>cli/\<close>) and the scaffolding of applications: flags, prompts, printing and
  template files. The start and shutdown of the HTTP server (\<open>server/\<close>) and the embedded static interface. Build information
  (\<open>internal/version\<close>) and test helpers (\<open>testing/\<close>). Logging, cancellation of contexts outside the chat socket, and the
  opening of database files. Of the chat socket, what a turn does between its approval requests is left open, so its
  theorems hold for every such behaviour.
\<close>

end
